(* ===== verification/Prelude.thy ===== *)
theory Prelude imports Complex_Main "HOL-Library.Word" "HOL-Library.Sublist" begin

text \<open>
  The shared vocabulary of the development: Rust strings, machine integers, instants and
  durations, and the generic lemmas on them.

  A Rust \<^verbatim>\<open>str\<close> is a sequence of Unicode scalar values, so it is modelled as a list of code
  points (\<open>rstr\<close>); \<^verbatim>\<open>str.len()\<close> counts UTF-8 bytes (\<open>str_len\<close>), \<^verbatim>\<open>chars()\<close> walks the list.
  The ASCII operations of the standard library are exact. \<^verbatim>\<open>to_uppercase\<close> and
  \<^verbatim>\<open>to_lowercase\<close> follow Unicode on Latin-1 (with the expansion of sharp s) and leave code
  points above U+00FF unchanged.

  An instant (\<^verbatim>\<open>chrono::DateTime<Utc>\<close>) is a number of nanoseconds since the Unix epoch and a
  span (\<^verbatim>\<open>chrono::TimeDelta\<close>, \<^verbatim>\<open>std::time::Duration\<close>) a number of nanoseconds; the panics of
  chrono outside its range of about 262000 years are not modelled.
\<close>

named_theorems rstr_simps \<open>equations of the string operations on literals\<close>
named_theorems time_simps \<open>unfolds the time constants to nanoseconds\<close>

section \<open>Characters and strings\<close>

type_synonym uchar = nat
type_synonym rstr = "nat list"

definition str :: "string \<Rightarrow> rstr" where
  "str s = map of_char s"

definition is_ascii_digit :: "uchar \<Rightarrow> bool" where
  "is_ascii_digit c = (48 \<le> c \<and> c \<le> 57)"

definition is_ascii_uppercase :: "uchar \<Rightarrow> bool" where
  "is_ascii_uppercase c = (65 \<le> c \<and> c \<le> 90)"

definition is_ascii_lowercase :: "uchar \<Rightarrow> bool" where
  "is_ascii_lowercase c = (97 \<le> c \<and> c \<le> 122)"

definition is_ascii_alphabetic :: "uchar \<Rightarrow> bool" where
  "is_ascii_alphabetic c = (is_ascii_uppercase c \<or> is_ascii_lowercase c)"

definition is_ascii_alphanumeric :: "uchar \<Rightarrow> bool" where
  "is_ascii_alphanumeric c = (is_ascii_alphabetic c \<or> is_ascii_digit c)"

definition is_ascii_hexdigit :: "uchar \<Rightarrow> bool" where
  "is_ascii_hexdigit c =
     (is_ascii_digit c \<or> (65 \<le> c \<and> c \<le> 70) \<or> (97 \<le> c \<and> c \<le> 102))"

text \<open>\<^verbatim>\<open>char::is_control\<close>: the general category Cc.\<close>

definition is_control :: "uchar \<Rightarrow> bool" where
  "is_control c = (c < 32 \<or> (127 \<le> c \<and> c < 160))"

text \<open>\<^verbatim>\<open>char::is_whitespace\<close>: the property White\_Space.\<close>

definition is_whitespace :: "uchar \<Rightarrow> bool" where
  "is_whitespace c =
     ((9 \<le> c \<and> c \<le> 13) \<or> c = 32 \<or> c = 133 \<or> c = 160 \<or> c = 5760 \<or>
      (8192 \<le> c \<and> c \<le> 8202) \<or> c = 8232 \<or> c = 8233 \<or> c = 8239 \<or> c = 8287 \<or> c = 12288)"

lemmas char_class_defs =
  is_ascii_digit_def is_ascii_uppercase_def is_ascii_lowercase_def is_ascii_alphabetic_def
  is_ascii_alphanumeric_def is_ascii_hexdigit_def is_control_def is_whitespace_def

definition ascii_upper :: "uchar \<Rightarrow> uchar" where
  "ascii_upper c = (if is_ascii_lowercase c then c - 32 else c)"

definition ascii_lower :: "uchar \<Rightarrow> uchar" where
  "ascii_lower c = (if is_ascii_uppercase c then c + 32 else c)"

definition to_ascii_lowercase :: "rstr \<Rightarrow> rstr" where
  "to_ascii_lowercase s = map ascii_lower s"

definition eq_ignore_ascii_case :: "rstr \<Rightarrow> rstr \<Rightarrow> bool" where
  "eq_ignore_ascii_case a b = (to_ascii_lowercase a = to_ascii_lowercase b)"

text \<open>\<^verbatim>\<open>str::to_uppercase\<close> and \<^verbatim>\<open>str::to_lowercase\<close>, character by character.\<close>

definition upper_cp :: "uchar \<Rightarrow> rstr" where
  "upper_cp c =
     (if is_ascii_lowercase c then [c - 32]
      else if c = 181 then [924]
      else if c = 223 then [83, 83]
      else if c = 255 then [376]
      else if 224 \<le> c \<and> c \<le> 254 \<and> c \<noteq> 247 then [c - 32]
      else [c])"

definition to_uppercase :: "rstr \<Rightarrow> rstr" where
  "to_uppercase s = concat (map upper_cp s)"

definition lower_cp :: "uchar \<Rightarrow> uchar" where
  "lower_cp c =
     (if is_ascii_uppercase c then c + 32
      else if 192 \<le> c \<and> c \<le> 222 \<and> c \<noteq> 215 then c + 32
      else c)"

definition to_lowercase :: "rstr \<Rightarrow> rstr" where
  "to_lowercase s = map lower_cp s"

definition utf8_len :: "uchar \<Rightarrow> nat" where
  "utf8_len c = (if c < 128 then 1 else if c < 2048 then 2 else if c < 65536 then 3 else 4)"

definition str_len :: "rstr \<Rightarrow> nat" where
  "str_len s = sum_list (map utf8_len s)"

definition trim_start :: "rstr \<Rightarrow> rstr" where
  "trim_start s = dropWhile is_whitespace s"

definition trim_end :: "rstr \<Rightarrow> rstr" where
  "trim_end s = rev (dropWhile is_whitespace (rev s))"

definition trim :: "rstr \<Rightarrow> rstr" where
  "trim s = trim_end (trim_start s)"

fun join :: "rstr \<Rightarrow> rstr list \<Rightarrow> rstr" where
  "join sep [] = []"
| "join sep [x] = x"
| "join sep (x # y # ys) = x @ sep @ join sep (y # ys)"

fun starts_with :: "rstr \<Rightarrow> rstr \<Rightarrow> bool" where
  "starts_with s [] = True"
| "starts_with [] (p # ps) = False"
| "starts_with (c # cs) (p # ps) = (c = p \<and> starts_with cs ps)"

text \<open>\<^verbatim>\<open>str::find\<close>, returning the text before the first match and the text after it.\<close>

fun split_first :: "rstr \<Rightarrow> rstr \<Rightarrow> (rstr \<times> rstr) option" where
  "split_first s pat =
     (if starts_with s pat then Some ([], drop (length pat) s)
      else case s of
             [] \<Rightarrow> None
           | c # cs \<Rightarrow> map_option (\<lambda>(a, b). (c # a, b)) (split_first cs pat))"

declare split_first.simps [simp del]

definition contains :: "rstr \<Rightarrow> rstr \<Rightarrow> bool" where
  "contains s pat = (split_first s pat \<noteq> None)"

definition strip_prefix :: "rstr \<Rightarrow> rstr \<Rightarrow> rstr option" where
  "strip_prefix s p = (if starts_with s p then Some (drop (length p) s) else None)"

definition ends_with :: "rstr \<Rightarrow> rstr \<Rightarrow> bool" where
  "ends_with s p = starts_with (rev s) (rev p)"

definition strip_suffix :: "rstr \<Rightarrow> rstr \<Rightarrow> rstr option" where
  "strip_suffix s p = (if ends_with s p then Some (take (length s - length p) s) else None)"

text \<open>Decimal printing, as \<^verbatim>\<open>format!("{n}")\<close> does it.\<close>

fun dec_nat :: "nat \<Rightarrow> rstr" where
  "dec_nat n = (if n < 10 then [48 + n] else dec_nat (n div 10) @ [48 + n mod 10])"

declare dec_nat.simps [simp del]

definition dec_int :: "int \<Rightarrow> rstr" where
  "dec_int i = (if i < 0 then [45] @ dec_nat (nat (- i)) else dec_nat (nat i))"

text \<open>\<^verbatim>\<open>format!("{n:02}")\<close>\<close>

definition dec2 :: "int \<Rightarrow> rstr" where
  "dec2 i = (let d = dec_int i in if length d < 2 then [48] @ d else d)"

subsection \<open>Lemmas on strings\<close>

lemma str_Nil [simp, rstr_simps]: "str [] = []"
  by (simp add: str_def)

lemma str_Cons [rstr_simps]: "str (c # cs) = of_char c # str cs"
  by (simp add: str_def)

lemma str_append: "str (a @ b) = str a @ str b"
  by (simp add: str_def)

lemma ascii_lower_idem [simp]: "ascii_lower (ascii_lower c) = ascii_lower c"
  by (auto simp: ascii_lower_def is_ascii_uppercase_def)

lemma to_ascii_lowercase_idem [simp]: "to_ascii_lowercase (to_ascii_lowercase s) = to_ascii_lowercase s"
  by (simp add: to_ascii_lowercase_def)

lemma to_ascii_lowercase_length [simp]: "length (to_ascii_lowercase s) = length s"
  by (simp add: to_ascii_lowercase_def)

lemma to_ascii_lowercase_append: "to_ascii_lowercase (a @ b) = to_ascii_lowercase a @ to_ascii_lowercase b"
  by (simp add: to_ascii_lowercase_def)

lemma eq_ignore_refl [simp, intro]: "eq_ignore_ascii_case a a"
  by (simp add: eq_ignore_ascii_case_def)

lemma eq_ignore_sym: "eq_ignore_ascii_case a b = eq_ignore_ascii_case b a"
  by (auto simp: eq_ignore_ascii_case_def)

lemma eq_ignore_trans:
  "eq_ignore_ascii_case a b \<Longrightarrow> eq_ignore_ascii_case b c \<Longrightarrow> eq_ignore_ascii_case a c"
  by (simp add: eq_ignore_ascii_case_def)

lemma eq_ignore_lower [simp]: "eq_ignore_ascii_case (to_ascii_lowercase a) b = eq_ignore_ascii_case a b"
  by (simp add: eq_ignore_ascii_case_def)

lemma concat_map_upper_upper: "concat (map upper_cp (upper_cp c)) = upper_cp c"
  by (auto simp: upper_cp_def is_ascii_lowercase_def)

lemma to_uppercase_append: "to_uppercase (a @ b) = to_uppercase a @ to_uppercase b"
  by (simp add: to_uppercase_def)

lemma to_uppercase_Nil_iff [simp]: "to_uppercase s = [] \<longleftrightarrow> s = []"
  by (cases s) (auto simp: to_uppercase_def upper_cp_def)

lemma to_uppercase_idem [simp]: "to_uppercase (to_uppercase s) = to_uppercase s"
proof (induction s)
  case Nil
  then show ?case by (simp add: to_uppercase_def)
next
  case (Cons c s)
  have "to_uppercase (to_uppercase (c # s)) = concat (map upper_cp (upper_cp c)) @ to_uppercase (to_uppercase s)"
    by (simp add: to_uppercase_def)
  then show ?case
    using Cons by (simp add: concat_map_upper_upper) (simp add: to_uppercase_def)
qed

lemma to_lowercase_idem [simp]: "to_lowercase (to_lowercase s) = to_lowercase s"
  by (auto simp: to_lowercase_def lower_cp_def is_ascii_uppercase_def)

text \<open>An ASCII string keeps its case-folded reading and its length under \<^verbatim>\<open>to_uppercase\<close>.\<close>

definition is_ascii :: "rstr \<Rightarrow> bool" where
  "is_ascii s = (\<forall>c\<in>set s. c < 128)"

lemma upper_cp_ascii: "c < 128 \<Longrightarrow> upper_cp c = [ascii_upper c]"
  by (auto simp: upper_cp_def ascii_upper_def is_ascii_lowercase_def)

lemma ascii_lower_upper: "ascii_lower (ascii_upper c) = ascii_lower c"
  by (auto simp: ascii_lower_def ascii_upper_def is_ascii_lowercase_def is_ascii_uppercase_def)

lemma to_uppercase_ascii: "is_ascii s \<Longrightarrow> to_uppercase s = map ascii_upper s"
  by (induction s) (auto simp: is_ascii_def to_uppercase_def upper_cp_ascii)

lemma eq_ignore_to_uppercase:
  "is_ascii s \<Longrightarrow> eq_ignore_ascii_case (to_uppercase s) t = eq_ignore_ascii_case s t"
  by (simp add: to_uppercase_ascii eq_ignore_ascii_case_def to_ascii_lowercase_def ascii_lower_upper comp_def)

lemma str_len_ascii: "is_ascii s \<Longrightarrow> str_len s = length s"
  by (induction s) (auto simp: is_ascii_def str_len_def utf8_len_def)

lemma str_len_append [simp]: "str_len (a @ b) = str_len a + str_len b"
  by (simp add: str_len_def)

lemma utf8_len_pos: "1 \<le> utf8_len c"
  by (simp add: utf8_len_def)

lemma str_len_ge_length: "length s \<le> str_len s"
proof (induction s)
  case (Cons c s)
  then show ?case using utf8_len_pos [of c] by (simp add: str_len_def)
qed simp

lemma trim_start_hd: "trim_start s \<noteq> [] \<Longrightarrow> \<not> is_whitespace (hd (trim_start s))"
  by (simp add: trim_start_def hd_dropWhile)

lemma trim_end_Nil_iff: "trim_end s = [] \<longleftrightarrow> (\<forall>c\<in>set s. is_whitespace c)"
  by (simp add: trim_end_def dropWhile_eq_Nil_conv)

lemma trim_end_last: "trim_end s \<noteq> [] \<Longrightarrow> \<not> is_whitespace (last (trim_end s))"
proof -
  assume "trim_end s \<noteq> []"
  then have "dropWhile is_whitespace (rev s) \<noteq> []"
    by (simp add: trim_end_def)
  from hd_dropWhile [OF this] this show ?thesis
    by (simp add: trim_end_def last_rev)
qed

lemma trim_end_prefix: "prefix (trim_end s) s"
proof -
  have "s = trim_end s @ rev (takeWhile is_whitespace (rev s))"
    by (metis rev_append rev_rev_ident takeWhile_dropWhile_id trim_end_def)
  then show ?thesis by (metis prefixI)
qed

lemma trim_ends:
  assumes "trim s \<noteq> []"
  shows "\<not> is_whitespace (hd (trim s))" and "\<not> is_whitespace (last (trim s))"
proof -
  have pre: "prefix (trim s) (trim_start s)"
    by (simp add: trim_def trim_end_prefix)
  with assms have "hd (trim s) = hd (trim_start s)" and "trim_start s \<noteq> []"
    by (auto simp: prefix_def)
  then show "\<not> is_whitespace (hd (trim s))" using trim_start_hd by simp
  show "\<not> is_whitespace (last (trim s))" using assms trim_end_last by (simp add: trim_def)
qed

lemma trim_noop:
  assumes "s \<noteq> [] \<Longrightarrow> \<not> is_whitespace (hd s)" and "s \<noteq> [] \<Longrightarrow> \<not> is_whitespace (last s)"
  shows "trim s = s"
proof (cases s)
  case Nil
  then show ?thesis by (simp add: trim_def trim_start_def trim_end_def)
next
  case (Cons c cs)
  have "trim_start s = s" using assms(1) Cons by (simp add: trim_start_def)
  moreover have "trim_end s = s"
  proof -
    have ne: "s \<noteq> []" using Cons by simp
    with assms(2) have "\<not> is_whitespace (hd (rev s))" "rev s \<noteq> []"
      by (simp_all only: hd_rev rev_is_Nil_conv not_False_eq_True)
    then have "dropWhile is_whitespace (rev s) = rev s"
      by (cases "rev s") auto
    then show ?thesis by (simp add: trim_end_def)
  qed
  ultimately show ?thesis by (simp add: trim_def)
qed

lemma trim_idem [simp]: "trim (trim s) = trim s"
  by (rule trim_noop) (auto simp: trim_ends)

lemma trim_Nil_iff: "trim s = [] \<longleftrightarrow> (\<forall>c\<in>set s. is_whitespace c)"
proof -
  have "trim s = [] \<longleftrightarrow> (\<forall>c\<in>set (trim_start s). is_whitespace c)"
    by (simp add: trim_def trim_end_Nil_iff)
  also have "\<dots> \<longleftrightarrow> trim_start s = []"
    using hd_in_set trim_start_hd by (metis empty_iff list.set(1))
  also have "\<dots> \<longleftrightarrow> (\<forall>c\<in>set s. is_whitespace c)"
    by (simp add: trim_start_def dropWhile_eq_Nil_conv)
  finally show ?thesis .
qed

lemma set_trim_subset: "set (trim s) \<subseteq> set s"
proof -
  have "set (trim_end t) \<subseteq> set t" for t
    using trim_end_prefix set_mono_prefix by blast
  moreover have "set (trim_start t) \<subseteq> set t" for t
    using set_dropWhileD by (fastforce simp: trim_start_def)
  ultimately show ?thesis unfolding trim_def by blast
qed

lemma upper_cp_whitespace: "c \<in> set (upper_cp d) \<Longrightarrow> is_whitespace c \<Longrightarrow> is_whitespace d"
  by (auto simp: upper_cp_def char_class_defs split: if_splits)

lemma upper_cp_nonempty [simp]: "upper_cp c \<noteq> []"
  by (simp add: upper_cp_def)

lemma to_uppercase_Cons: "to_uppercase (c # s) = upper_cp c @ to_uppercase s"
  by (simp add: to_uppercase_def)

lemma trim_to_uppercase_trim: "trim (to_uppercase (trim s)) = to_uppercase (trim s)"
proof (rule trim_noop)
  let ?t = "trim s"
  assume ne: "to_uppercase ?t \<noteq> []"
  then have t: "?t \<noteq> []" by simp
  then obtain c cs where c: "?t = c # cs" by (meson list.exhaust)
  then have "hd (to_uppercase ?t) \<in> set (upper_cp c)"
    by (simp add: to_uppercase_Cons)
  moreover have "\<not> is_whitespace c" using trim_ends(1) [OF t] c by simp
  ultimately show "\<not> is_whitespace (hd (to_uppercase ?t))" using upper_cp_whitespace by blast
  from t obtain ds d where d: "?t = ds @ [d]" by (meson rev_exhaust)
  then have "last (to_uppercase ?t) \<in> set (upper_cp d)"
    by (simp add: to_uppercase_def)
  moreover have "\<not> is_whitespace d" using trim_ends(2) [OF t] d by simp
  ultimately show "\<not> is_whitespace (last (to_uppercase ?t))" using upper_cp_whitespace by blast
qed

lemma starts_with_iff_prefix: "starts_with s p \<longleftrightarrow> prefix p s"
  by (induction s p rule: starts_with.induct) auto

lemma starts_with_append_self [simp]: "starts_with (p @ s) p"
  by (simp add: starts_with_iff_prefix)

lemma starts_with_drop: "starts_with s p \<Longrightarrow> p @ drop (length p) s = s"
  by (auto simp: starts_with_iff_prefix prefix_def)

lemma split_first_Some:
  "split_first s pat = Some (a, b) \<Longrightarrow> s = a @ pat @ b"
proof (induction s pat arbitrary: a b rule: split_first.induct)
  case (1 s pat)
  show ?case
  proof (cases "starts_with s pat")
    case True
    with "1.prems" show ?thesis
      by (auto simp: split_first.simps [of s pat] starts_with_drop)
  next
    case False
    with "1.prems" obtain c cs a' where "s = c # cs" "a = c # a'" "split_first cs pat = Some (a', b)"
      by (auto simp: split_first.simps [of s pat] split: list.splits)
    with False "1.IH" show ?thesis by simp
  qed
qed

lemma split_first_append_ne: "split_first (a @ pat @ b) pat \<noteq> None"
proof (induction a)
  case Nil
  then show ?case by (simp add: split_first.simps [of "pat @ b" pat])
next
  case (Cons c a)
  then show ?case
    by (auto simp: split_first.simps [of "c # a @ pat @ b" pat])
qed

lemma contains_iff_sublist: "contains s pat \<longleftrightarrow> sublist pat s"
proof
  assume "contains s pat"
  then obtain a b where "split_first s pat = Some (a, b)" by (auto simp: contains_def)
  then have "s = a @ pat @ b" by (rule split_first_Some)
  then show "sublist pat s" by (auto simp: sublist_def)
next
  assume "sublist pat s"
  then obtain a b where "s = a @ pat @ b" by (auto simp: sublist_def)
  then show "contains s pat" using split_first_append_ne by (simp add: contains_def)
qed

text \<open>The match that \<open>split_first\<close> returns is the leftmost one.\<close>

lemma split_first_leftmost:
  "split_first s pat = Some (a, b) \<Longrightarrow> s = a' @ pat @ b' \<Longrightarrow> length a \<le> length a'"
proof (induction s pat arbitrary: a b a' rule: split_first.induct)
  case (1 s pat)
  show ?case
  proof (cases "starts_with s pat")
    case True
    with "1.prems"(1) show ?thesis by (auto simp: split_first.simps [of s pat])
  next
    case False
    with "1.prems"(1) obtain c cs a1 where s: "s = c # cs" and a: "a = c # a1"
      and r: "split_first cs pat = Some (a1, b)"
      by (auto simp: split_first.simps [of s pat] split: list.splits)
    from False "1.prems"(2) have "a' \<noteq> []" by auto
    with s "1.prems"(2) obtain a2 where "a' = c # a2" "cs = a2 @ pat @ b'"
      by (cases a') auto
    with "1.IH" [OF False s r] a show ?thesis by simp
  qed
qed

lemma split_first_simple:
  assumes "\<not> contains (a @ butlast pat) pat" and "pat \<noteq> []"
  shows "split_first (a @ pat @ b) pat = Some (a, b)"
proof -
  obtain a1 b1 where r: "split_first (a @ pat @ b) pat = Some (a1, b1)"
    using split_first_append_ne [of a pat b] by fastforce
  have eq: "a @ pat @ b = a1 @ pat @ b1" using split_first_Some [OF r] .
  have le: "length a1 \<le> length a" using split_first_leftmost [OF r, of a b] by simp
  have "length a1 = length a"
  proof (rule ccontr)
    assume "length a1 \<noteq> length a"
    with le have lt: "length a1 + length pat \<le> length (a @ butlast pat)" using assms(2) by simp
    have "prefix (a1 @ pat) (a @ pat @ b)" using eq by (metis append_assoc prefixI)
    moreover have "prefix (a @ butlast pat) (a @ pat @ b)"
      by (metis append_assoc append_butlast_last_id assms(2) prefixI)
    ultimately have "prefix (a1 @ pat) (a @ butlast pat)"
      using lt by (metis length_append prefix_length_prefix)
    then have "sublist pat (a @ butlast pat)"
      by (metis append_assoc prefix_def sublist_def)
    with assms(1) show False by (simp add: contains_iff_sublist)
  qed
  with eq have "a1 = a" "b1 = b" by auto
  with r show ?thesis by simp
qed

lemma strip_prefix_Some: "strip_prefix s p = Some r \<longleftrightarrow> s = p @ r"
  by (auto simp: strip_prefix_def starts_with_iff_prefix prefix_def)

lemma strip_suffix_Some: "strip_suffix s p = Some r \<longleftrightarrow> s = r @ p"
proof
  assume "strip_suffix s p = Some r"
  then have "prefix (rev p) (rev s)" and r: "r = take (length s - length p) s"
    by (auto simp: strip_suffix_def ends_with_def starts_with_iff_prefix split: if_splits)
  then obtain q where "rev s = rev p @ q" by (auto simp: prefix_def)
  then have "s = rev q @ p" by (metis rev_append rev_rev_ident)
  with r show "s = r @ p" by simp
next
  assume "s = r @ p"
  then show "strip_suffix s p = Some r"
    by (simp add: strip_suffix_def ends_with_def starts_with_iff_prefix)
qed

lemma dec_nat_nonempty [simp]: "dec_nat n \<noteq> []"
  by (subst dec_nat.simps) simp

lemma dec_nat_digits: "c \<in> set (dec_nat n) \<Longrightarrow> is_ascii_digit c"
proof (induction n rule: dec_nat.induct)
  case (1 n)
  show ?case
  proof (cases "n < 10")
    case True
    with "1.prems" show ?thesis by (subst (asm) dec_nat.simps) (auto simp: is_ascii_digit_def)
  next
    case False
    with "1.prems" have "c \<in> set (dec_nat (n div 10)) \<or> c = 48 + n mod 10"
      by (subst (asm) dec_nat.simps) auto
    then show ?thesis using "1.IH" False by (auto simp: is_ascii_digit_def)
  qed
qed

section \<open>Machine numbers\<close>

text \<open>
  \<^verbatim>\<open>u32\<close> and \<^verbatim>\<open>u64\<close> counters keep their width. An \<^verbatim>\<open>f64\<close> read from a JSON document or
  produced by a finite computation is a rational number; comparisons on it are exact, and the
  rounding of the one subtraction the tracker makes is not modelled.
\<close>

type_synonym u32 = "32 word"
type_synonym u64 = "64 word"
type_synonym i64 = int
type_synonym f64 = rat

definition saturating_inc :: "'a::len word \<Rightarrow> 'a word" where
  "saturating_inc w = (if w = - 1 then w else w + 1)"

lemma unat_max: "unat (- 1 :: 'a::len word) = 2 ^ LENGTH('a) - 1"
  by (simp add: unsigned_minus_1_eq_mask mask_eq_exp_minus_1)

lemma unat_saturating_inc: "unat (saturating_inc (w :: 'a::len word)) = min (unat w + 1) (2 ^ LENGTH('a) - 1)"
proof (cases "w = - 1")
  case True
  then show ?thesis by (simp add: saturating_inc_def unat_max)
next
  case False
  then have "unat w \<noteq> 2 ^ LENGTH('a) - 1"
    by (metis unat_max word_unat_eq_iff)
  moreover have "unat w < 2 ^ LENGTH('a)" by (rule unsigned_less)
  ultimately have lt: "unat w + 1 < 2 ^ LENGTH('a)" by linarith
  then have "unat (w + 1) = unat w + 1"
    by (simp add: unat_word_ariths)
  with False lt show ?thesis by (simp add: saturating_inc_def)
qed

lemma saturating_inc_mono: "w \<le> saturating_inc (w :: 'a::len word)"
proof -
  have "unat w < 2 ^ LENGTH('a)" by (rule unsigned_less)
  then have "unat w \<le> 2 ^ LENGTH('a) - 1" by linarith
  then show ?thesis by (simp add: word_le_nat_alt unat_saturating_inc)
qed

lemma saturating_inc_pos: "0 < saturating_inc (w :: 'a::len word)"
proof -
  have "(2::nat) ^ 1 \<le> 2 ^ LENGTH('a)" by (rule power_increasing) (simp_all add: Suc_le_eq)
  then have "0 < unat (saturating_inc w)" by (simp add: unat_saturating_inc)
  then show ?thesis by (simp add: word_less_nat_alt)
qed

section \<open>Instants and durations\<close>

type_synonym instant = int
type_synonym duration = int

definition secs :: "int \<Rightarrow> duration" where
  [time_simps]: "secs n = n * 1000000000"

definition minutes :: "int \<Rightarrow> duration" where
  [time_simps]: "minutes n = secs (n * 60)"

definition hours :: "int \<Rightarrow> duration" where
  [time_simps]: "hours n = secs (n * 3600)"

text \<open>\<^verbatim>\<open>TimeDelta::num_seconds\<close>, \<^verbatim>\<open>num_minutes\<close> and \<^verbatim>\<open>num_hours\<close> truncate towards zero.\<close>

definition trunc_div :: "int \<Rightarrow> int \<Rightarrow> int" where
  "trunc_div a b = sgn a * sgn b * (\<bar>a\<bar> div \<bar>b\<bar>)"

definition num_seconds :: "duration \<Rightarrow> int" where
  "num_seconds d = trunc_div d 1000000000"

definition num_minutes :: "duration \<Rightarrow> int" where
  "num_minutes d = trunc_div (num_seconds d) 60"

definition num_hours :: "duration \<Rightarrow> int" where
  "num_hours d = trunc_div (num_seconds d) 3600"

lemma trunc_div_nonneg: "0 \<le> a \<Longrightarrow> 0 < b \<Longrightarrow> trunc_div a b = a div b"
  by (cases "a = 0") (simp_all add: trunc_div_def)

lemma num_seconds_nonneg: "0 \<le> d \<Longrightarrow> num_seconds d = d div 1000000000"
  by (simp add: num_seconds_def trunc_div_nonneg)

lemma num_seconds_secs [simp]: "num_seconds (secs n) = n"
  by (simp add: num_seconds_def trunc_div_def secs_def abs_mult sgn_mult sgn_mult_abs)

lemma num_seconds_ge: "secs n \<le> d \<Longrightarrow> 0 \<le> n \<Longrightarrow> n \<le> num_seconds d"
  by (simp add: secs_def num_seconds_nonneg)

section \<open>Options and lists\<close>

text \<open>\<^verbatim>\<open>Option::or\<close> and \<^verbatim>\<open>Option::or_else\<close>.\<close>

fun or_else :: "'a option \<Rightarrow> 'a option \<Rightarrow> 'a option" where
  "or_else None b = b"
| "or_else (Some a) b = Some a"

text \<open>\<^verbatim>\<open>Option::is_some_and\<close>.\<close>

fun is_some_and :: "'a option \<Rightarrow> ('a \<Rightarrow> bool) \<Rightarrow> bool" where
  "is_some_and None P = False"
| "is_some_and (Some a) P = P a"

definition is_some :: "'a option \<Rightarrow> bool" where
  [simp]: "is_some x = (x \<noteq> None)"

text \<open>\<^verbatim>\<open>Option::filter\<close>.\<close>

fun opt_filter :: "('a \<Rightarrow> bool) \<Rightarrow> 'a option \<Rightarrow> 'a option" where
  "opt_filter P None = None"
| "opt_filter P (Some a) = (if P a then Some a else None)"

text \<open>\<^verbatim>\<open>Iterator::position\<close>: the index of the first element that satisfies the predicate.\<close>

fun position :: "('a \<Rightarrow> bool) \<Rightarrow> 'a list \<Rightarrow> nat option" where
  "position P [] = None"
| "position P (x # xs) = (if P x then Some 0 else map_option Suc (position P xs))"

text \<open>\<^verbatim>\<open>Vec::remove\<close> at an index that is in range.\<close>

definition remove_at :: "nat \<Rightarrow> 'a list \<Rightarrow> 'a list" where
  "remove_at i xs = take i xs @ drop (Suc i) xs"

lemma is_some_and_iff: "is_some_and x P \<longleftrightarrow> (\<exists>a. x = Some a \<and> P a)"
  by (cases x) auto

lemma opt_filter_Some: "opt_filter P x = Some a \<longleftrightarrow> x = Some a \<and> P a"
  by (cases x) auto

lemma or_else_None [simp]: "or_else a None = a"
  by (cases a) auto

lemma or_else_Some_iff: "or_else a b = Some x \<longleftrightarrow> a = Some x \<or> (a = None \<and> b = Some x)"
  by (cases a) auto

lemma position_Some:
  "position P xs = Some i \<Longrightarrow> i < length xs \<and> P (xs ! i) \<and> (\<forall>j<i. \<not> P (xs ! j))"
proof (induction xs arbitrary: i)
  case (Cons x xs)
  then show ?case
  proof (cases "P x")
    case False
    with Cons.prems obtain k where k: "position P xs = Some k" "i = Suc k" by auto
    with Cons.IH False show ?thesis by (auto simp: nth_Cons less_Suc_eq_0_disj)
  qed auto
qed simp

lemma position_None: "position P xs = None \<longleftrightarrow> (\<forall>x\<in>set xs. \<not> P x)"
  by (induction xs) auto

lemma position_cong [fundef_cong]:
  "xs = ys \<Longrightarrow> (\<And>x. x \<in> set ys \<Longrightarrow> P x = Q x) \<Longrightarrow> position P xs = position Q ys"
  by (induction xs arbitrary: ys) auto

lemma length_remove_at: "i < length xs \<Longrightarrow> Suc (length (remove_at i xs)) = length xs"
  by (simp add: remove_at_def)

lemma set_remove_at_subset: "set (remove_at i xs) \<subseteq> set xs"
  using set_take_subset set_drop_subset by (fastforce simp: remove_at_def)

lemma map_remove_at: "map f (remove_at i xs) = remove_at i (map f xs)"
  by (simp add: remove_at_def take_map drop_map)

lemma distinct_remove_at: "distinct xs \<Longrightarrow> distinct (remove_at i xs)"
  using set_take_disj_set_drop_if_distinct [of xs i "Suc i"]
  by (simp add: remove_at_def)

lemma remove_at_distinct_set:
  "distinct xs \<Longrightarrow> i < length xs \<Longrightarrow> set (remove_at i xs) = set xs - {xs ! i}"
proof -
  assume d: "distinct xs" and i: "i < length xs"
  have "xs = take i xs @ xs ! i # drop (Suc i) xs" using i by (simp add: id_take_nth_drop)
  with d show ?thesis
    unfolding remove_at_def
    by (metis Un_iff distinct.simps(2) distinct_append distinct_remove1_removeAll
        remove1_append remove1.simps(2) set_append set_remove1_eq disjoint_insert(2) list.simps(15))
qed

lemma length_filter_remove_at: "length (filter P (remove_at i xs)) \<le> length (filter P xs)"
proof (cases "i < length xs")
  case True
  then have "xs = take i xs @ xs ! i # drop (Suc i) xs" by (simp add: id_take_nth_drop)
  then have "length (filter P xs) = length (filter P (take i xs @ xs ! i # drop (Suc i) xs))" by simp
  then show ?thesis by (simp add: remove_at_def)
qed (simp add: remove_at_def)

lemma mset_remove_at_filter_update:
  "i < length xs \<Longrightarrow> P (xs ! i) = P y \<Longrightarrow> length (filter P (xs[i := y])) = length (filter P xs)"
proof (induction xs arbitrary: i)
  case (Cons x xs)
  then show ?case by (cases i) auto
qed simp

text \<open>What evaluates the text functions on a literal with \<open>simp\<close>.\<close>

lemmas text_eval = str_def trim_def trim_start_def trim_end_def is_whitespace_def to_uppercase_def
  upper_cp_def str_len_def utf8_len_def char_class_defs Let_def

end
