(* ===== verification/Flight_Types.thy ===== *)
theory Flight_Types imports Prelude begin

text \<open>
  The data model of the flight tracker: \<^verbatim>\<open>crates/core/src/aviation/tracker/mod.rs\<close>, the
  response types of \<^verbatim>\<open>aviation/types.rs\<close> the tracker reads, and the flight-number
  predicates of \<^verbatim>\<open>aviation/location.rs\<close>. Chat messages and reply channels are opaque
  numbers (\<open>reply_to\<close>, \<open>reply_chan\<close>): the tracker only hands them back with its answer.
\<close>

text \<open>The text forms of an instant that chrono prints are parameters of the model.\<close>

record chrono_fmt =
  rfc3339_secs :: "instant \<Rightarrow> rstr"
  hour_minute :: "instant \<Rightarrow> rstr"
  year_month_day :: "instant \<Rightarrow> rstr"

section \<open>Limits\<close>

definition MAX_TRACKED_FLIGHTS :: nat where "MAX_TRACKED_FLIGHTS = 12"
definition MAX_FLIGHTS_PER_USER :: nat where "MAX_FLIGHTS_PER_USER = 3"
definition TRACKING_LOST_THRESHOLD :: duration where [time_simps]: "TRACKING_LOST_THRESHOLD = secs 300"
definition TRACKING_LOST_REMOVAL :: duration where [time_simps]: "TRACKING_LOST_REMOVAL = secs 1800"
definition POLL_FAST :: duration where [time_simps]: "POLL_FAST = secs 30"
definition POLL_NORMAL :: duration where [time_simps]: "POLL_NORMAL = secs 60"
definition POLL_SLOW :: duration where [time_simps]: "POLL_SLOW = secs 120"
definition DIVERT_BEARING_THRESHOLD :: f64 where "DIVERT_BEARING_THRESHOLD = 90"
definition DIVERT_CONSECUTIVE_POLLS :: u32 where "DIVERT_CONSECUTIVE_POLLS = 3"

section \<open>Flight numbers and identifiers\<close>

definition is_iata_flight_number :: "rstr \<Rightarrow> bool" where
  "is_iata_flight_number s =
     (if str_len s < 3 \<or> str_len s > 6 then False
      else case s of
             a # b # rest \<Rightarrow>
               is_ascii_uppercase a \<and> is_ascii_uppercase b \<and> (\<forall>c\<in>set rest. is_ascii_digit c)
           | _ \<Rightarrow> False)"

definition is_icao_flight_number :: "rstr \<Rightarrow> bool" where
  "is_icao_flight_number s =
     (if str_len s < 4 \<or> str_len s > 7 then False
      else case s of
             a # b # c # rest \<Rightarrow>
               is_ascii_uppercase a \<and> is_ascii_uppercase b \<and> is_ascii_uppercase c \<and>
               (\<forall>d\<in>set rest. is_ascii_digit d)
           | _ \<Rightarrow> False)"

datatype FlightIdentifier = Callsign rstr | Hex rstr

definition is_valid_icao24_hex :: "rstr \<Rightarrow> bool" where
  "is_valid_icao24_hex v = (str_len v = 6 \<and> (\<forall>c\<in>set v. is_ascii_hexdigit c))"

definition err_empty_identifier :: rstr where
  "err_empty_identifier = str ''Identifier darf nicht leer sein''"

definition err_bad_identifier :: rstr where
  "err_bad_identifier = str ''Ung'' @ [252] @ str ''ltiges callsign/hex''"

definition parse_identifier :: "rstr \<Rightarrow> rstr + FlightIdentifier" where
  "parse_identifier inp =
     (let s = to_uppercase (trim inp) in
      if s = [] then Inl err_empty_identifier
      else if is_iata_flight_number s then Inr (Callsign s)
      else if is_valid_icao24_hex s then Inr (Hex s)
      else if str_len s > 8 \<or> \<not> (\<forall>c\<in>set s. is_ascii_alphanumeric c) then Inl err_bad_identifier
      else Inr (Callsign s))"

fun as_str :: "FlightIdentifier \<Rightarrow> rstr" where
  "as_str (Callsign s) = s"
| "as_str (Hex s) = s"

fun is_hex_id :: "FlightIdentifier \<Rightarrow> bool" where
  "is_hex_id (Hex _) = True"
| "is_hex_id (Callsign _) = False"

fun matches :: "FlightIdentifier \<Rightarrow> rstr option \<Rightarrow> rstr option \<Rightarrow> bool" where
  "matches (Callsign s) cs hx = is_some_and cs (\<lambda>c. eq_ignore_ascii_case c s)"
| "matches (Hex s) cs hx = is_some_and hx (\<lambda>h. eq_ignore_ascii_case h s)"

section \<open>Flight state\<close>

datatype FlightPhase = Unknown | Ground | Takeoff | Climb | Cruise | Descent | Approach | Landing

datatype HexSource = UserInput | AviationStack | Adsb

datatype TargetConfirmation =
  Pending | AircraftVisible | ConfirmedByCallsign | InferredByAssignedHex

definition is_target_confirmed :: "TargetConfirmation \<Rightarrow> bool" where
  "is_target_confirmed c = (c = ConfirmedByCallsign \<or> c = InferredByAssignedHex)"

fun phase_name :: "FlightPhase \<Rightarrow> rstr" where
  "phase_name Unknown = str ''Unknown''"
| "phase_name Ground = str ''Ground''"
| "phase_name Takeoff = str ''Takeoff''"
| "phase_name Climb = str ''Climb''"
| "phase_name Cruise = str ''Cruise''"
| "phase_name Descent = str ''Descent''"
| "phase_name Approach = str ''Approach''"
| "phase_name Landing = str ''Landing''"

record TrackedFlight =
  fl_identifier :: FlightIdentifier
  fl_callsign :: "rstr option"
  fl_alias_callsigns :: "rstr list"
  fl_hex :: "rstr option"
  fl_hex_source :: "HexSource option"
  fl_observed_callsign :: "rstr option"
  fl_target_confirmation :: TargetConfirmation
  fl_phase :: FlightPhase
  fl_route :: "(rstr \<times> rstr) option"
  fl_aircraft_type :: "rstr option"
  fl_altitude_ft :: "i64 option"
  fl_vertical_rate_fpm :: "i64 option"
  fl_ground_speed_kts :: "f64 option"
  fl_lat :: "f64 option"
  fl_lon :: "f64 option"
  fl_squawk :: "rstr option"
  fl_tracked_by :: rstr
  fl_tracked_at :: instant
  fl_last_seen :: "instant option"
  fl_last_visible_at :: "instant option"
  fl_last_phase_change :: "instant option"
  fl_polls_since_change :: u32
  fl_takeoff_at :: "instant option"
  fl_aviationstack_checked :: bool
  fl_scheduled_departure_at :: "instant option"
  fl_last_adsb_poll_at :: "instant option"
  fl_divert_consecutive_polls :: u32
  fl_dest_lat :: "f64 option"
  fl_dest_lon :: "f64 option"

text \<open>A newly tracked flight, as \<^verbatim>\<open>handle_track\<close> in \<^verbatim>\<open>commands.rs\<close> builds it.\<close>

definition new_flight ::
  "FlightIdentifier \<Rightarrow> rstr option \<Rightarrow> rstr \<Rightarrow> instant \<Rightarrow> bool \<Rightarrow> TrackedFlight" where
  "new_flight identifier callsign requested_by now aviationstack_checked =
     \<lparr>fl_identifier = identifier,
      fl_callsign = callsign,
      fl_alias_callsigns = [],
      fl_hex = (case identifier of Hex h \<Rightarrow> Some h | Callsign _ \<Rightarrow> None),
      fl_hex_source = (case identifier of Hex _ \<Rightarrow> Some UserInput | Callsign _ \<Rightarrow> None),
      fl_observed_callsign = None,
      fl_target_confirmation = Pending,
      fl_phase = Unknown,
      fl_route = None,
      fl_aircraft_type = None,
      fl_altitude_ft = None,
      fl_vertical_rate_fpm = None,
      fl_ground_speed_kts = None,
      fl_lat = None,
      fl_lon = None,
      fl_squawk = None,
      fl_tracked_by = requested_by,
      fl_tracked_at = now,
      fl_last_seen = None,
      fl_last_visible_at = None,
      fl_last_phase_change = None,
      fl_polls_since_change = 0,
      fl_takeoff_at = None,
      fl_aviationstack_checked = aviationstack_checked,
      fl_scheduled_departure_at = None,
      fl_last_adsb_poll_at = None,
      fl_divert_consecutive_polls = 0,
      fl_dest_lat = None,
      fl_dest_lon = None\<rparr>"

section \<open>ADS-B aircraft and AviationStack metadata\<close>

datatype AltBaro = Feet i64 | AltGround

record NearbyAircraft =
  ac_hex :: "rstr option"
  ac_flight :: "rstr option"
  ac_r :: "rstr option"
  ac_t :: "rstr option"
  ac_alt_baro :: "AltBaro option"
  ac_lat :: "f64 option"
  ac_lon :: "f64 option"
  ac_gs :: "f64 option"
  ac_baro_rate :: "i64 option"
  ac_geom_rate :: "i64 option"
  ac_squawk :: "rstr option"
  ac_nav_modes :: "rstr list option"
  ac_rssi :: "f64 option"
  ac_seen_pos :: "f64 option"

record AviationstackFlightMetadata =
  md_flight_date :: "rstr option"
  md_flight_status :: "rstr option"
  md_flight_iata :: "rstr option"
  md_flight_icao :: "rstr option"
  md_flight_number :: "rstr option"
  md_airline_iata :: "rstr option"
  md_airline_icao :: "rstr option"
  md_airline_name :: "rstr option"
  md_departure_airport :: "rstr option"
  md_departure_iata :: "rstr option"
  md_departure_icao :: "rstr option"
  md_departure_terminal :: "rstr option"
  md_departure_gate :: "rstr option"
  md_departure_scheduled :: "instant option"
  md_departure_estimated :: "instant option"
  md_departure_actual :: "instant option"
  md_departure_actual_runway :: "instant option"
  md_departure_delay_minutes :: "i64 option"
  md_arrival_airport :: "rstr option"
  md_arrival_iata :: "rstr option"
  md_arrival_icao :: "rstr option"
  md_arrival_terminal :: "rstr option"
  md_arrival_gate :: "rstr option"
  md_arrival_baggage :: "rstr option"
  md_arrival_scheduled :: "instant option"
  md_arrival_estimated :: "instant option"
  md_arrival_actual :: "instant option"
  md_arrival_delay_minutes :: "i64 option"
  md_aircraft_registration :: "rstr option"
  md_aircraft_icao24 :: "rstr option"
  md_aircraft_icao :: "rstr option"

definition takeoff_time :: "AviationstackFlightMetadata \<Rightarrow> instant option" where
  "takeoff_time m = or_else (md_departure_actual_runway m) (md_departure_actual m)"

section \<open>Tracker state, views and commands\<close>

record CachedFlightInfo =
  ci_aliases :: "rstr list"
  ci_flight_date :: "rstr option"
  ci_metadata :: "AviationstackFlightMetadata option"
  ci_cached_at :: instant
  ci_expires_at :: instant

definition is_expired :: "CachedFlightInfo \<Rightarrow> instant \<Rightarrow> bool" where
  "is_expired e now = (ci_expires_at e \<le> now)"

definition matches_any_alias :: "CachedFlightInfo \<Rightarrow> rstr list \<Rightarrow> bool" where
  "matches_any_alias e aliases =
     (\<exists>alias\<in>set aliases. \<exists>cached\<in>set (ci_aliases e). eq_ignore_ascii_case cached alias)"

record FlightTrackerState =
  flights :: "TrackedFlight list"
  flight_info_cache :: "CachedFlightInfo list"

definition default_state :: FlightTrackerState where
  "default_state = \<lparr>flights = [], flight_info_cache = []\<rparr>"

record TrackedFlightView =
  vw_identifier :: rstr
  vw_callsign :: "rstr option"
  vw_owner_login :: rstr
  vw_phase :: rstr
  vw_altitude_ft :: "i64 option"
  vw_ground_speed_kts :: "f64 option"
  vw_last_seen_secs_ago :: "nat option"

definition build_flight_view :: "FlightTrackerState \<Rightarrow> instant \<Rightarrow> TrackedFlightView list" where
  "build_flight_view st now = map (\<lambda>f.
     \<lparr>vw_identifier = (case or_else (fl_callsign f) (fl_hex f) of
          Some s \<Rightarrow> s | None \<Rightarrow> as_str (fl_identifier f)),
      vw_callsign = fl_callsign f,
      vw_owner_login = fl_tracked_by f,
      vw_phase = (if fl_target_confirmation f = AircraftVisible then str ''AircraftVisible''
                  else phase_name (fl_phase f)),
      vw_altitude_ft = fl_altitude_ft f,
      vw_ground_speed_kts = fl_ground_speed_kts f,
      vw_last_seen_secs_ago =
        map_option (\<lambda>seen. nat (max (num_seconds (now - seen)) 0)) (fl_last_seen f)\<rparr>) (flights st)"

type_synonym reply_to = nat
type_synonym reply_chan = nat

datatype TrackerCommand =
    Track FlightIdentifier rstr reply_to
  | Untrack rstr rstr bool reply_to
  | Status "rstr option" reply_to
  | Info FlightIdentifier reply_to
  | Snapshot reply_chan
  | DeleteFromWeb rstr reply_chan

section \<open>Lemmas\<close>

lemma hexdigit_ascii: "is_ascii_hexdigit c \<Longrightarrow> c < 128"
  by (auto simp: char_class_defs)

lemma alphanumeric_ascii: "is_ascii_alphanumeric c \<Longrightarrow> c < 128"
  by (auto simp: char_class_defs)

lemma hexdigit_alphanumeric: "is_ascii_hexdigit c \<Longrightarrow> is_ascii_alphanumeric c"
  by (auto simp: char_class_defs)

lemma iata_flight_number_alphanumeric:
  "is_iata_flight_number s \<Longrightarrow> c \<in> set s \<Longrightarrow> is_ascii_alphanumeric c"
  by (auto simp: is_iata_flight_number_def is_ascii_alphanumeric_def is_ascii_alphabetic_def
      split: list.splits if_splits)

lemma is_hex_id_iff: "is_hex_id i \<longleftrightarrow> (\<exists>h. i = Hex h)"
  by (cases i) auto

lemma not_is_hex_id_iff: "\<not> is_hex_id i \<longleftrightarrow> (\<exists>c. i = Callsign c)"
  by (cases i) auto

lemma is_target_confirmed_simps [simp]:
  "\<not> is_target_confirmed Pending" "\<not> is_target_confirmed AircraftVisible"
  "is_target_confirmed ConfirmedByCallsign" "is_target_confirmed InferredByAssignedHex"
  by (simp_all add: is_target_confirmed_def)

text \<open>
  Every identifier that \<open>parse_identifier\<close> accepts is 1 to 8 ASCII letters and digits, so it
  cannot forge a path segment of an ADS-B request, and parsing it again gives it back.
\<close>

definition valid_identifier :: "FlightIdentifier \<Rightarrow> bool" where
  "valid_identifier i =
     (let s = as_str i in
      s \<noteq> [] \<and> length s \<le> 8 \<and> (\<forall>c\<in>set s. is_ascii_alphanumeric c) \<and> to_uppercase s = s \<and>
      (is_hex_id i \<longrightarrow> is_valid_icao24_hex s))"

lemma parse_identifier_valid: "parse_identifier inp = Inr i \<Longrightarrow> valid_identifier i"
proof -
  assume p: "parse_identifier inp = Inr i"
  define s where "s = to_uppercase (trim inp)"
  have up: "to_uppercase s = s" by (simp add: s_def)
  have len: "length s \<le> str_len s" by (rule str_len_ge_length)
  from p consider "s \<noteq> []" "is_iata_flight_number s" "i = Callsign s"
    | "s \<noteq> []" "is_valid_icao24_hex s" "i = Hex s"
    | "s \<noteq> []" "str_len s \<le> 8" "\<forall>c\<in>set s. is_ascii_alphanumeric c" "i = Callsign s"
    by (auto simp: parse_identifier_def Let_def s_def split: if_splits)
  then show ?thesis
  proof cases
    case 1
    then have "length s \<le> 8" using len by (auto simp: is_iata_flight_number_def split: if_splits)
    with 1 up show ?thesis by (simp add: valid_identifier_def iata_flight_number_alphanumeric)
  next
    case 2
    then have "length s \<le> 8" using len by (simp add: is_valid_icao24_hex_def)
    with 2 up show ?thesis
      by (simp add: valid_identifier_def is_valid_icao24_hex_def hexdigit_alphanumeric)
  next
    case 3
    with up len show ?thesis by (simp add: valid_identifier_def)
  qed
qed

lemma alphanumeric_not_whitespace: "is_ascii_alphanumeric c \<Longrightarrow> \<not> is_whitespace c"
  by (auto simp: char_class_defs)

lemma parse_identifier_roundtrip:
  assumes "parse_identifier inp = Inr i"
  shows "parse_identifier (as_str i) = Inr i"
proof -
  define s where "s = to_uppercase (trim inp)"
  have i: "as_str i = s" using assms
    by (auto simp: parse_identifier_def Let_def s_def split: if_splits)
  have "to_uppercase s = s" by (simp add: s_def)
  moreover have "trim s = s" by (simp add: s_def trim_to_uppercase_trim)
  ultimately show ?thesis using assms unfolding i
    by (simp add: parse_identifier_def Let_def s_def [symmetric])
qed

lemma matches_any_alias_iff:
  "matches_any_alias e aliases \<longleftrightarrow>
     (\<exists>a\<in>set aliases. \<exists>c\<in>set (ci_aliases e). eq_ignore_ascii_case c a)"
  by (simp add: matches_any_alias_def)

text \<open>
  Claim C15. An identifier that the parser accepts is one to eight ASCII letters and digits, none of
  them lower case (so it cannot forge a path segment of a request), it is an address exactly when
  it is six hex digits that do not read as an IATA flight number, and parsing what is shown for it
  gives it back.
\<close>

theorem parse_identifier_sound:
  assumes "parse_identifier inp = Inr i"
  shows "as_str i \<noteq> [] \<and> length (as_str i) \<le> 8 \<and> list_all is_ascii_alphanumeric (as_str i) \<and>
     to_uppercase (as_str i) = as_str i \<and>
     (is_hex_id i \<longleftrightarrow> is_valid_icao24_hex (as_str i) \<and> \<not> is_iata_flight_number (as_str i)) \<and>
     parse_identifier (as_str i) = Inr i"
proof -
  have "is_hex_id i \<longleftrightarrow> is_valid_icao24_hex (as_str i) \<and> \<not> is_iata_flight_number (as_str i)"
    using assms by (auto simp: parse_identifier_def Let_def split: if_splits)
  then show ?thesis
    using parse_identifier_valid [OF assms] parse_identifier_roundtrip [OF assms]
    by (simp add: valid_identifier_def Let_def list_all_iff)
qed

theorem parse_identifier_sound_witness:
  "parse_identifier (str '' 3c66a1 '') = Inr (Hex (str ''3C66A1'')) \<and>
   parse_identifier (str ''3C66A1'') = Inr (Hex (str ''3C66A1''))"
proof -
  have p: "parse_identifier (str '' 3c66a1 '') = Inr (Hex (str ''3C66A1''))"
    by (simp add: parse_identifier_def is_iata_flight_number_def is_valid_icao24_hex_def text_eval)
  show ?thesis using p parse_identifier_sound [OF p] by simp
qed

end
