(* ===== verification/Flight_Metadata.thy ===== *)
theory Flight_Metadata imports Flight_Types begin

text \<open>
  \<^verbatim>\<open>aviation/tracker/metadata.rs\<close>: aliases, hex assignment, routes and the AviationStack
  metadata of a tracked flight. \<open>airports\<close> is the table \<^verbatim>\<open>by_iata\<close> that
  \<^verbatim>\<open>location.rs\<close> builds from the embedded airport list; it is a parameter.
\<close>

type_synonym airport_table = "rstr \<Rightarrow> (f64 \<times> f64 \<times> rstr) option"

definition aircraft_callsign :: "NearbyAircraft \<Rightarrow> rstr option" where
  "aircraft_callsign ac = opt_filter (\<lambda>c. c \<noteq> []) (map_option trim (ac_flight ac))"

definition set_route_from_iata ::
  "airport_table \<Rightarrow> TrackedFlight \<Rightarrow> rstr \<Rightarrow> rstr \<Rightarrow> TrackedFlight" where
  "set_route_from_iata airports f origin dest =
     (let origin = to_uppercase (trim origin); dest = to_uppercase (trim dest) in
      if origin = [] \<or> dest = [] then f
      else
        let f = (case airports dest of
                   Some (lat, lon, _) \<Rightarrow> f\<lparr>fl_dest_lat := Some lat, fl_dest_lon := Some lon\<rparr>
                 | None \<Rightarrow> f)
        in f\<lparr>fl_route := Some (origin, dest)\<rparr>)"

definition normalize_flight_code :: "rstr \<Rightarrow> rstr option" where
  "normalize_flight_code v = (let v = trim v in if v = [] then None else Some (to_uppercase v))"

definition add_alias :: "rstr list \<Rightarrow> rstr \<Rightarrow> rstr list" where
  "add_alias aliases a =
     (if \<exists>e\<in>set aliases. eq_ignore_ascii_case e a then aliases else aliases @ [a])"

definition add_alias_callsign :: "TrackedFlight \<Rightarrow> rstr \<Rightarrow> TrackedFlight" where
  "add_alias_callsign f v =
     (case normalize_flight_code v of
        None \<Rightarrow> f
      | Some a \<Rightarrow> f\<lparr>fl_alias_callsigns := add_alias (fl_alias_callsigns f) a\<rparr>)"

definition seed_flight_aliases :: "TrackedFlight \<Rightarrow> TrackedFlight" where
  "seed_flight_aliases f =
     (let f = (case fl_identifier f of Callsign c \<Rightarrow> add_alias_callsign f c | Hex _ \<Rightarrow> f)
      in case fl_callsign f of Some c \<Rightarrow> add_alias_callsign f c | None \<Rightarrow> f)"

definition normalize_icao24 :: "rstr \<Rightarrow> rstr option" where
  "normalize_icao24 v =
     (let v = trim v in
      if str_len v = 6 \<and> (\<forall>c\<in>set v. is_ascii_hexdigit c) then Some (to_uppercase v) else None)"

fun hex_source_after :: "HexSource option \<Rightarrow> HexSource \<Rightarrow> bool \<Rightarrow> HexSource option" where
  "hex_source_after cur UserInput promote = (if cur = None then Some UserInput else cur)"
| "hex_source_after cur AviationStack promote = (if cur = None then Some AviationStack else cur)"
| "hex_source_after cur Adsb promote =
     (if cur = None \<or> (promote \<and> cur = Some AviationStack) then Some Adsb else cur)"

definition set_hex_if_consistent ::
  "TrackedFlight \<Rightarrow> rstr \<Rightarrow> HexSource \<Rightarrow> bool \<Rightarrow> TrackedFlight \<times> bool" where
  "set_hex_if_consistent f candidate source promote =
     (case normalize_icao24 candidate of
        None \<Rightarrow> (f, False)
      | Some hex \<Rightarrow>
          if is_some_and (fl_hex f) (\<lambda>current. \<not> eq_ignore_ascii_case current hex) then (f, False)
          else (f\<lparr>fl_hex := Some hex,
                  fl_hex_source := hex_source_after (fl_hex_source f) source promote\<rparr>, True))"

definition metadata_callsign :: "AviationstackFlightMetadata \<Rightarrow> rstr option" where
  "metadata_callsign m =
     or_else (Option.bind (md_flight_icao m) normalize_flight_code)
       (case (map_option trim (md_airline_icao m), map_option trim (md_flight_number m)) of
          (Some airline, Some number) \<Rightarrow>
            if airline = [] \<or> number = [] then None else Some (to_uppercase airline @ number)
        | _ \<Rightarrow> None)"

text \<open>The steps of \<^verbatim>\<open>apply_aviationstack_metadata\<close>, in the order of the code.\<close>

definition md_apply_schedule :: "AviationstackFlightMetadata \<Rightarrow> TrackedFlight \<Rightarrow> TrackedFlight" where
  "md_apply_schedule m f =
     (if fl_scheduled_departure_at f = None
      then f\<lparr>fl_scheduled_departure_at := md_departure_scheduled m\<rparr> else f)"

definition md_apply_alias :: "rstr option \<Rightarrow> TrackedFlight \<Rightarrow> TrackedFlight" where
  "md_apply_alias code f = (case code of Some c \<Rightarrow> add_alias_callsign f c | None \<Rightarrow> f)"

definition md_apply_callsign :: "AviationstackFlightMetadata \<Rightarrow> TrackedFlight \<Rightarrow> TrackedFlight" where
  "md_apply_callsign m f =
     (case metadata_callsign m of
        Some cs \<Rightarrow> (add_alias_callsign f cs)\<lparr>fl_callsign := Some cs\<rparr>
      | None \<Rightarrow> f)"

definition md_apply_route ::
  "airport_table \<Rightarrow> AviationstackFlightMetadata \<Rightarrow> TrackedFlight \<Rightarrow> TrackedFlight" where
  "md_apply_route airports m f =
     (case (md_departure_iata m, md_arrival_iata m) of
        (Some origin, Some dest) \<Rightarrow> set_route_from_iata airports f origin dest
      | _ \<Rightarrow> f)"

definition md_apply_hex :: "AviationstackFlightMetadata \<Rightarrow> TrackedFlight \<Rightarrow> TrackedFlight" where
  "md_apply_hex m f =
     (case md_aircraft_icao24 m of
        Some hex \<Rightarrow> fst (set_hex_if_consistent f hex AviationStack False)
      | None \<Rightarrow> f)"

definition md_apply_type :: "AviationstackFlightMetadata \<Rightarrow> TrackedFlight \<Rightarrow> TrackedFlight" where
  "md_apply_type m f =
     (case (fl_aircraft_type f, md_aircraft_icao m) of
        (None, Some t) \<Rightarrow> f\<lparr>fl_aircraft_type := Some (to_uppercase t)\<rparr>
      | _ \<Rightarrow> f)"

definition md_apply_takeoff :: "AviationstackFlightMetadata \<Rightarrow> TrackedFlight \<Rightarrow> TrackedFlight" where
  "md_apply_takeoff m f =
     (case takeoff_time m of Some t \<Rightarrow> f\<lparr>fl_takeoff_at := Some t\<rparr> | None \<Rightarrow> f)"

definition apply_aviationstack_metadata ::
  "airport_table \<Rightarrow> TrackedFlight \<Rightarrow> AviationstackFlightMetadata \<Rightarrow> TrackedFlight" where
  "apply_aviationstack_metadata airports f m =
     md_apply_takeoff m (md_apply_type m (md_apply_hex m (md_apply_route airports m
       (md_apply_callsign m (md_apply_alias (md_flight_icao m) (md_apply_alias (md_flight_iata m)
         (md_apply_schedule m f)))))))"

lemmas md_apply_defs = md_apply_schedule_def md_apply_alias_def md_apply_callsign_def
  md_apply_route_def md_apply_hex_def md_apply_type_def md_apply_takeoff_def

section \<open>Lemmas\<close>

named_theorems fl_frame \<open>fields that an update of a flight leaves alone\<close>

text \<open>
  The identity of a flight, which no operation of the tracker changes after \<^verbatim>\<open>!track\<close>.
\<close>

definition identity_of :: "TrackedFlight \<Rightarrow> FlightIdentifier \<times> rstr \<times> instant" where
  "identity_of f = (fl_identifier f, fl_tracked_by f, fl_tracked_at f)"

definition same_identity :: "TrackedFlight \<Rightarrow> TrackedFlight \<Rightarrow> bool" where
  "same_identity f g \<longleftrightarrow> identity_of g = identity_of f"

lemma same_identityD:
  "same_identity f g \<Longrightarrow> fl_identifier g = fl_identifier f"
  "same_identity f g \<Longrightarrow> fl_tracked_by g = fl_tracked_by f"
  "same_identity f g \<Longrightarrow> fl_tracked_at g = fl_tracked_at f"
  by (simp_all add: same_identity_def identity_of_def)

lemma same_identity_refl [simp, intro]: "same_identity f f"
  by (simp add: same_identity_def)

lemma same_identity_trans: "same_identity f g \<Longrightarrow> same_identity g h \<Longrightarrow> same_identity f h"
  by (simp add: same_identity_def)

lemma add_alias_callsign_frame [fl_frame]:
  "fl_identifier (add_alias_callsign f v) = fl_identifier f"
  "fl_callsign (add_alias_callsign f v) = fl_callsign f"
  "fl_hex (add_alias_callsign f v) = fl_hex f"
  "fl_hex_source (add_alias_callsign f v) = fl_hex_source f"
  "fl_tracked_by (add_alias_callsign f v) = fl_tracked_by f"
  "fl_tracked_at (add_alias_callsign f v) = fl_tracked_at f"
  "fl_phase (add_alias_callsign f v) = fl_phase f"
  "fl_last_seen (add_alias_callsign f v) = fl_last_seen f"
  "fl_last_visible_at (add_alias_callsign f v) = fl_last_visible_at f"
  "fl_target_confirmation (add_alias_callsign f v) = fl_target_confirmation f"
  "fl_takeoff_at (add_alias_callsign f v) = fl_takeoff_at f"
  "fl_polls_since_change (add_alias_callsign f v) = fl_polls_since_change f"
  "fl_divert_consecutive_polls (add_alias_callsign f v) = fl_divert_consecutive_polls f"
  "fl_last_adsb_poll_at (add_alias_callsign f v) = fl_last_adsb_poll_at f"
  "fl_observed_callsign (add_alias_callsign f v) = fl_observed_callsign f"
  "fl_route (add_alias_callsign f v) = fl_route f"
  "fl_aircraft_type (add_alias_callsign f v) = fl_aircraft_type f"
  "fl_scheduled_departure_at (add_alias_callsign f v) = fl_scheduled_departure_at f"
  "fl_dest_lat (add_alias_callsign f v) = fl_dest_lat f"
  "fl_dest_lon (add_alias_callsign f v) = fl_dest_lon f"
  "fl_lat (add_alias_callsign f v) = fl_lat f"
  "fl_lon (add_alias_callsign f v) = fl_lon f"
  "fl_squawk (add_alias_callsign f v) = fl_squawk f"
  by (simp_all add: add_alias_callsign_def split: option.split)

lemma set_route_frame [fl_frame]:
  "fl_identifier (set_route_from_iata a f o' d) = fl_identifier f"
  "fl_callsign (set_route_from_iata a f o' d) = fl_callsign f"
  "fl_hex (set_route_from_iata a f o' d) = fl_hex f"
  "fl_hex_source (set_route_from_iata a f o' d) = fl_hex_source f"
  "fl_tracked_by (set_route_from_iata a f o' d) = fl_tracked_by f"
  "fl_tracked_at (set_route_from_iata a f o' d) = fl_tracked_at f"
  "fl_alias_callsigns (set_route_from_iata a f o' d) = fl_alias_callsigns f"
  "fl_takeoff_at (set_route_from_iata a f o' d) = fl_takeoff_at f"
  "fl_phase (set_route_from_iata a f o' d) = fl_phase f"
  "fl_last_seen (set_route_from_iata a f o' d) = fl_last_seen f"
  "fl_last_visible_at (set_route_from_iata a f o' d) = fl_last_visible_at f"
  "fl_target_confirmation (set_route_from_iata a f o' d) = fl_target_confirmation f"
  by (simp_all add: set_route_from_iata_def Let_def split: option.split)

lemma set_hex_frame [fl_frame]:
  "fl_identifier (fst (set_hex_if_consistent f c s p)) = fl_identifier f"
  "fl_callsign (fst (set_hex_if_consistent f c s p)) = fl_callsign f"
  "fl_tracked_by (fst (set_hex_if_consistent f c s p)) = fl_tracked_by f"
  "fl_tracked_at (fst (set_hex_if_consistent f c s p)) = fl_tracked_at f"
  "fl_alias_callsigns (fst (set_hex_if_consistent f c s p)) = fl_alias_callsigns f"
  "fl_phase (fst (set_hex_if_consistent f c s p)) = fl_phase f"
  "fl_last_seen (fst (set_hex_if_consistent f c s p)) = fl_last_seen f"
  "fl_last_visible_at (fst (set_hex_if_consistent f c s p)) = fl_last_visible_at f"
  "fl_target_confirmation (fst (set_hex_if_consistent f c s p)) = fl_target_confirmation f"
  "fl_takeoff_at (fst (set_hex_if_consistent f c s p)) = fl_takeoff_at f"
  "fl_polls_since_change (fst (set_hex_if_consistent f c s p)) = fl_polls_since_change f"
  "fl_divert_consecutive_polls (fst (set_hex_if_consistent f c s p)) = fl_divert_consecutive_polls f"
  "fl_last_adsb_poll_at (fst (set_hex_if_consistent f c s p)) = fl_last_adsb_poll_at f"
  "fl_observed_callsign (fst (set_hex_if_consistent f c s p)) = fl_observed_callsign f"
  "fl_route (fst (set_hex_if_consistent f c s p)) = fl_route f"
  "fl_aircraft_type (fst (set_hex_if_consistent f c s p)) = fl_aircraft_type f"
  "fl_scheduled_departure_at (fst (set_hex_if_consistent f c s p)) = fl_scheduled_departure_at f"
  "fl_dest_lat (fst (set_hex_if_consistent f c s p)) = fl_dest_lat f"
  "fl_dest_lon (fst (set_hex_if_consistent f c s p)) = fl_dest_lon f"
  "fl_lat (fst (set_hex_if_consistent f c s p)) = fl_lat f"
  "fl_lon (fst (set_hex_if_consistent f c s p)) = fl_lon f"
  "fl_squawk (fst (set_hex_if_consistent f c s p)) = fl_squawk f"
  by (simp_all add: set_hex_if_consistent_def split: option.split)

lemma md_apply_identity:
  "identity_of (md_apply_schedule m f) = identity_of f"
  "identity_of (md_apply_alias c f) = identity_of f"
  "identity_of (md_apply_callsign m f) = identity_of f"
  "identity_of (md_apply_route a m f) = identity_of f"
  "identity_of (md_apply_hex m f) = identity_of f"
  "identity_of (md_apply_type m f) = identity_of f"
  "identity_of (md_apply_takeoff m f) = identity_of f"
  by (simp_all add: identity_of_def md_apply_defs fl_frame split: option.split)

lemma apply_metadata_identity [fl_frame]:
  "identity_of (apply_aviationstack_metadata a f m) = identity_of f"
  by (simp add: apply_aviationstack_metadata_def md_apply_identity)

lemma set_route_identity [fl_frame]: "identity_of (set_route_from_iata a f o' d) = identity_of f"
  by (simp add: identity_of_def fl_frame)

lemma md_apply_visibility [fl_frame]:
  "fl_last_seen (apply_aviationstack_metadata a f m) = fl_last_seen f"
  "fl_last_visible_at (apply_aviationstack_metadata a f m) = fl_last_visible_at f"
  "fl_target_confirmation (apply_aviationstack_metadata a f m) = fl_target_confirmation f"
  "fl_phase (apply_aviationstack_metadata a f m) = fl_phase f"
proof -
  have "fl_last_seen (md_apply_schedule m f) = fl_last_seen f"
    "fl_last_visible_at (md_apply_schedule m f) = fl_last_visible_at f"
    "fl_target_confirmation (md_apply_schedule m f) = fl_target_confirmation f"
    "fl_phase (md_apply_schedule m f) = fl_phase f"
    "fl_last_seen (md_apply_alias c f) = fl_last_seen f"
    "fl_last_visible_at (md_apply_alias c f) = fl_last_visible_at f"
    "fl_target_confirmation (md_apply_alias c f) = fl_target_confirmation f"
    "fl_phase (md_apply_alias c f) = fl_phase f"
    "fl_last_seen (md_apply_callsign m f) = fl_last_seen f"
    "fl_last_visible_at (md_apply_callsign m f) = fl_last_visible_at f"
    "fl_target_confirmation (md_apply_callsign m f) = fl_target_confirmation f"
    "fl_phase (md_apply_callsign m f) = fl_phase f"
    "fl_last_seen (md_apply_route a m f) = fl_last_seen f"
    "fl_last_visible_at (md_apply_route a m f) = fl_last_visible_at f"
    "fl_target_confirmation (md_apply_route a m f) = fl_target_confirmation f"
    "fl_phase (md_apply_route a m f) = fl_phase f"
    "fl_last_seen (md_apply_hex m f) = fl_last_seen f"
    "fl_last_visible_at (md_apply_hex m f) = fl_last_visible_at f"
    "fl_target_confirmation (md_apply_hex m f) = fl_target_confirmation f"
    "fl_phase (md_apply_hex m f) = fl_phase f"
    "fl_last_seen (md_apply_type m f) = fl_last_seen f"
    "fl_last_visible_at (md_apply_type m f) = fl_last_visible_at f"
    "fl_target_confirmation (md_apply_type m f) = fl_target_confirmation f"
    "fl_phase (md_apply_type m f) = fl_phase f"
    "fl_last_seen (md_apply_takeoff m f) = fl_last_seen f"
    "fl_last_visible_at (md_apply_takeoff m f) = fl_last_visible_at f"
    "fl_target_confirmation (md_apply_takeoff m f) = fl_target_confirmation f"
    "fl_phase (md_apply_takeoff m f) = fl_phase f" for f c
    by (simp_all add: md_apply_defs fl_frame split: option.split)
  note steps = this
  show "fl_last_seen (apply_aviationstack_metadata a f m) = fl_last_seen f"
    "fl_last_visible_at (apply_aviationstack_metadata a f m) = fl_last_visible_at f"
    "fl_target_confirmation (apply_aviationstack_metadata a f m) = fl_target_confirmation f"
    "fl_phase (apply_aviationstack_metadata a f m) = fl_phase f"
    by (simp_all add: apply_aviationstack_metadata_def steps)
qed

lemma seed_flight_aliases_frame [fl_frame]:
  "fl_identifier (seed_flight_aliases f) = fl_identifier f"
  "fl_callsign (seed_flight_aliases f) = fl_callsign f"
  "fl_hex (seed_flight_aliases f) = fl_hex f"
  "fl_hex_source (seed_flight_aliases f) = fl_hex_source f"
  "fl_tracked_by (seed_flight_aliases f) = fl_tracked_by f"
  "fl_tracked_at (seed_flight_aliases f) = fl_tracked_at f"
  "fl_last_seen (seed_flight_aliases f) = fl_last_seen f"
  "fl_last_visible_at (seed_flight_aliases f) = fl_last_visible_at f"
  "fl_last_adsb_poll_at (seed_flight_aliases f) = fl_last_adsb_poll_at f"
  "fl_target_confirmation (seed_flight_aliases f) = fl_target_confirmation f"
  "fl_phase (seed_flight_aliases f) = fl_phase f"
  by (simp_all add: seed_flight_aliases_def Let_def fl_frame split: option.split FlightIdentifier.split)

text \<open>
  The alias list of a flight: upper case, trimmed, not empty, and no two entries that differ
  only in the case of ASCII letters.
\<close>

definition distinct_aliases :: "rstr list \<Rightarrow> bool" where
  "distinct_aliases as \<longleftrightarrow> distinct (map to_ascii_lowercase as)"

lemma add_alias_distinct: "distinct_aliases as \<Longrightarrow> distinct_aliases (add_alias as a)"
  by (auto simp: distinct_aliases_def add_alias_def eq_ignore_ascii_case_def)

lemma add_alias_mem: "\<exists>e\<in>set (add_alias as a). eq_ignore_ascii_case e a"
  by (auto simp: add_alias_def)

lemma add_alias_subset: "set as \<subseteq> set (add_alias as a)"
  by (auto simp: add_alias_def)

lemma add_alias_idem: "add_alias (add_alias as a) a = add_alias as a"
  using add_alias_mem by (simp add: add_alias_def)

lemma add_alias_present: "\<exists>e\<in>set as. eq_ignore_ascii_case e a \<Longrightarrow> add_alias as a = as"
  by (simp add: add_alias_def)

lemma normalize_flight_code_idem:
  "normalize_flight_code v = Some a \<Longrightarrow> normalize_flight_code a = Some a"
  by (auto simp: normalize_flight_code_def Let_def trim_to_uppercase_trim split: if_splits)

lemma add_alias_callsign_distinct:
  "distinct_aliases (fl_alias_callsigns f) \<Longrightarrow> distinct_aliases (fl_alias_callsigns (add_alias_callsign f v))"
  by (simp add: add_alias_callsign_def add_alias_distinct split: option.split)

lemma md_apply_aliases_frame:
  "fl_alias_callsigns (md_apply_schedule m f) = fl_alias_callsigns f"
  "fl_alias_callsigns (md_apply_route a m f) = fl_alias_callsigns f"
  "fl_alias_callsigns (md_apply_hex m f) = fl_alias_callsigns f"
  "fl_alias_callsigns (md_apply_type m f) = fl_alias_callsigns f"
  "fl_alias_callsigns (md_apply_takeoff m f) = fl_alias_callsigns f"
  by (simp_all add: md_apply_defs fl_frame split: option.split)

lemma apply_metadata_distinct_aliases:
  assumes "distinct_aliases (fl_alias_callsigns f)"
  shows "distinct_aliases (fl_alias_callsigns (apply_aviationstack_metadata a f m))"
proof -
  have al: "distinct_aliases (fl_alias_callsigns g) \<Longrightarrow>
      distinct_aliases (fl_alias_callsigns (md_apply_alias c g))" for c g
    by (simp add: md_apply_alias_def add_alias_callsign_distinct split: option.split)
  have cs: "distinct_aliases (fl_alias_callsigns g) \<Longrightarrow>
      distinct_aliases (fl_alias_callsigns (md_apply_callsign m g))" for g
    by (simp add: md_apply_callsign_def add_alias_callsign_distinct split: option.split)
  show ?thesis
    by (simp add: apply_aviationstack_metadata_def md_apply_aliases_frame al cs assms)
qed

lemma add_alias_callsign_idem: "add_alias_callsign (add_alias_callsign f v) v = add_alias_callsign f v"
  by (simp add: add_alias_callsign_def add_alias_idem split: option.split)

lemma add_alias_callsign_noop:
  "(\<And>a. normalize_flight_code v = Some a \<Longrightarrow> \<exists>e\<in>set (fl_alias_callsigns f). eq_ignore_ascii_case e a) \<Longrightarrow>
   add_alias_callsign f v = f"
  by (simp add: add_alias_callsign_def add_alias_present split: option.split)

lemma add_alias_callsign_keeps:
  "\<exists>e\<in>set (fl_alias_callsigns f). eq_ignore_ascii_case e a \<Longrightarrow>
   \<exists>e\<in>set (fl_alias_callsigns (add_alias_callsign f v)). eq_ignore_ascii_case e a"
  using add_alias_subset by (fastforce simp: add_alias_callsign_def split: option.split)

lemma add_alias_callsign_adds:
  "normalize_flight_code v = Some a \<Longrightarrow>
   \<exists>e\<in>set (fl_alias_callsigns (add_alias_callsign f v)). eq_ignore_ascii_case e a"
  using add_alias_mem by (simp add: add_alias_callsign_def)

lemma seed_flight_aliases_idem: "seed_flight_aliases (seed_flight_aliases f) = seed_flight_aliases f"
proof -
  let ?g = "seed_flight_aliases f"
  have id: "add_alias_callsign ?g c = ?g" if "fl_identifier f = Callsign c" for c
    using that
    by (intro add_alias_callsign_noop)
      (auto simp: seed_flight_aliases_def Let_def split: option.split
        intro: add_alias_callsign_adds add_alias_callsign_keeps)
  have cs: "add_alias_callsign ?g c = ?g" if "fl_callsign f = Some c" for c
    using that
    by (intro add_alias_callsign_noop)
      (auto simp: seed_flight_aliases_def Let_def fl_frame split: FlightIdentifier.split
        intro: add_alias_callsign_adds)
  have "seed_flight_aliases ?g =
      (let g = (case fl_identifier f of Callsign c \<Rightarrow> add_alias_callsign ?g c | Hex _ \<Rightarrow> ?g)
       in case fl_callsign g of Some c \<Rightarrow> add_alias_callsign g c | None \<Rightarrow> g)"
    by (simp add: seed_flight_aliases_def [of ?g] fl_frame)
  also have "\<dots> = ?g"
    using id cs by (auto simp: Let_def fl_frame split: option.split FlightIdentifier.split)
  finally show ?thesis .
qed

text \<open>The hex code of a flight is written once: a later candidate never replaces another code.\<close>

lemma set_hex_sticky:
  assumes "fl_hex f = Some h"
  shows "\<exists>h'. fl_hex (fst (set_hex_if_consistent f c s p)) = Some h' \<and> eq_ignore_ascii_case h h'"
  using assms by (auto simp: set_hex_if_consistent_def split: option.split)

end
