(* ===== verification/Json.thy ===== *)
theory Json imports Prelude begin

text \<open>
  JSON values (\<^verbatim>\<open>serde_json::Value\<close>) as the journal of the tracker and the audit log of the settings
  build them. Objects are association lists with distinct keys; the order of the keys carries no
  meaning.
\<close>

datatype json =
    JNull
  | JBool bool
  | JInt int
  | JNum f64
  | JStr rstr
  | JArr "json list"
  | JObj "(rstr \<times> json) list"

definition opt_json :: "('a \<Rightarrow> json) \<Rightarrow> 'a option \<Rightarrow> json" where
  "opt_json j x = (case x of None \<Rightarrow> JNull | Some a \<Rightarrow> j a)"

end
