(* ===== verification/Debug_Journal.thy ===== *)
theory Debug_Journal imports Flight_Metadata Json "HOL-Library.AList" "HOL-Library.List_Lexorder" "HOL-Library.Multiset" begin

text \<open>
  \<^verbatim>\<open>aviation/tracker/debug_journal.rs\<close>: the events of the flight-tracker journal and the
  sanitizer every payload goes through. Writing the journal file is an effect of
  the tracker's handlers, not of this theory.
\<close>

definition DEBUG_JOURNAL_KEEP_FILES :: nat where "DEBUG_JOURNAL_KEEP_FILES = 30"

section \<open>The sanitizer\<close>

definition redacted_mark :: rstr where "redacted_mark = str ''<redacted>''"

lemma split_first_length:
  "split_first s pat = Some (a, b) \<Longrightarrow> length s = length a + length pat + length b"
  by (drule split_first_Some) simp

text \<open>
  The loop over \<^verbatim>\<open>haystack[pos..].find(&needle)\<close>: the argument is the part of the value that
  starts at \<^verbatim>\<open>pos\<close>, the result what the loop still appends to \<^verbatim>\<open>out\<close>.
\<close>

function redact_query_value :: "rstr \<Rightarrow> rstr \<Rightarrow> rstr" where
  "redact_query_value key v =
     (case split_first (to_ascii_lowercase v) (key @ [61]) of
        None \<Rightarrow> v
      | Some (before, _) \<Rightarrow>
          let key_end = length before + length key + 1;
              rest = drop key_end v
          in take key_end v @ redacted_mark @
             (case split_first rest [38] of
                None \<Rightarrow> []
              | Some (secret, _) \<Rightarrow> redact_query_value key (drop (length secret) rest)))"
  by pat_completeness auto
termination
  by (relation "measure (\<lambda>(k, v). length v)") (auto dest!: split_first_length)

declare redact_query_value.simps [simp del]

definition redacted_keys :: "rstr list" where
  "redacted_keys = [str ''access_key'', str ''api_key'', str ''token'', str ''authorization'']"

definition sanitize_string :: "rstr \<Rightarrow> rstr" where
  "sanitize_string v = fold redact_query_value redacted_keys v"

definition sensitive_keys :: "rstr list" where
  "sensitive_keys = [str ''access_key'', str ''api_key'', str ''authorization'', str ''token'',
     str ''raw_body'', str ''body'']"

definition is_sensitive_key :: "rstr \<Rightarrow> bool" where
  "is_sensitive_key key = (\<exists>s\<in>set sensitive_keys. eq_ignore_ascii_case key s)"

fun sanitize_value :: "json \<Rightarrow> json"
  and sanitize_map :: "(rstr \<times> json) list \<Rightarrow> (rstr \<times> json) list"
  and sanitize_list :: "json list \<Rightarrow> json list"
where
  "sanitize_value (JObj m) = JObj (sanitize_map m)"
| "sanitize_value (JArr vs) = JArr (sanitize_list vs)"
| "sanitize_value (JStr s) = JStr (sanitize_string s)"
| "sanitize_value other = other"
| "sanitize_map [] = []"
| "sanitize_map ((k, v) # m) =
     (if is_sensitive_key k then sanitize_map m else (k, sanitize_value v) # sanitize_map m)"
| "sanitize_list [] = []"
| "sanitize_list (v # vs) = sanitize_value v # sanitize_list vs"

section \<open>Events\<close>

record DebugHttpOutcome =
  ho_provider :: rstr
  ho_endpoint_kind :: rstr
  ho_outcome :: rstr
  ho_status :: "nat option"

definition http_outcome :: "rstr \<Rightarrow> rstr \<Rightarrow> rstr \<Rightarrow> DebugHttpOutcome" where
  "http_outcome provider endpoint_kind what =
     \<lparr>ho_provider = provider, ho_endpoint_kind = endpoint_kind, ho_outcome = what, ho_status = None\<rparr>"

definition http_success where "http_success p e = http_outcome p e (str ''success'')"
definition http_miss where "http_miss p e = http_outcome p e (str ''miss'')"
definition http_error where "http_error p e = http_outcome p e (str ''error'')"
definition http_timeout where "http_timeout p e = http_outcome p e (str ''timeout'')"

record FlightTrackerDebugEvent =
  ev_event :: rstr
  ev_ts :: "rstr option"
  ev_identifier :: rstr
  ev_callsign :: "rstr option"
  ev_hex :: "rstr option"
  ev_phase :: "rstr option"
  ev_target_confirmation :: "rstr option"
  ev_payload :: "(rstr \<times> json) list"

definition new_event :: "rstr \<Rightarrow> rstr \<Rightarrow> FlightTrackerDebugEvent" where
  "new_event event identifier =
     \<lparr>ev_event = event, ev_ts = None, ev_identifier = identifier, ev_callsign = None,
      ev_hex = None, ev_phase = None, ev_target_confirmation = None, ev_payload = []\<rparr>"

definition extend_map :: "(rstr \<times> json) list \<Rightarrow> (rstr \<times> json) list \<Rightarrow> (rstr \<times> json) list" where
  "extend_map m new = fold (\<lambda>(k, v) m. AList.update k v m) new m"

definition add_payload :: "json \<Rightarrow> FlightTrackerDebugEvent \<Rightarrow> FlightTrackerDebugEvent" where
  "add_payload v ev =
     (case sanitize_value v of
        JObj m \<Rightarrow> ev\<lparr>ev_payload := extend_map (ev_payload ev) m\<rparr>
      | _ \<Rightarrow> ev)"

fun confirmation_name :: "TargetConfirmation \<Rightarrow> rstr" where
  "confirmation_name Pending = str ''Pending''"
| "confirmation_name AircraftVisible = str ''AircraftVisible''"
| "confirmation_name ConfirmedByCallsign = str ''ConfirmedByCallsign''"
| "confirmation_name InferredByAssignedHex = str ''InferredByAssignedHex''"

definition coords_resolved :: "TrackedFlight \<Rightarrow> bool" where
  "coords_resolved f = (is_some (fl_dest_lat f) \<and> is_some (fl_dest_lon f))"

definition route_summary :: "TrackedFlight \<Rightarrow> json" where
  "route_summary f =
     (case fl_route f of
        Some (origin, destination) \<Rightarrow>
          JObj [(str ''origin'', JStr origin), (str ''destination'', JStr destination),
                (str ''destination_coordinates_resolved'', JBool (coords_resolved f))]
      | None \<Rightarrow> JNull)"

definition metadata_summary :: "chrono_fmt \<Rightarrow> AviationstackFlightMetadata \<Rightarrow> json" where
  "metadata_summary F m = JObj
     [(str ''flight_iata'', opt_json JStr (md_flight_iata m)),
      (str ''flight_icao'', opt_json JStr (md_flight_icao m)),
      (str ''departure_iata'', opt_json JStr (md_departure_iata m)),
      (str ''arrival_iata'', opt_json JStr (md_arrival_iata m)),
      (str ''departure_scheduled'', opt_json (JStr \<circ> rfc3339_secs F) (md_departure_scheduled m)),
      (str ''departure_actual'', opt_json (JStr \<circ> rfc3339_secs F) (md_departure_actual m)),
      (str ''arrival_actual'', opt_json (JStr \<circ> rfc3339_secs F) (md_arrival_actual m)),
      (str ''aircraft_icao24'', opt_json JStr (md_aircraft_icao24 m)),
      (str ''aircraft_icao'', opt_json JStr (md_aircraft_icao m))]"

definition aircraft_summary :: "NearbyAircraft \<Rightarrow> json" where
  "aircraft_summary ac = JObj
     [(str ''hex'', opt_json JStr (ac_hex ac)),
      (str ''flight'', opt_json JStr (aircraft_callsign ac)),
      (str ''aircraft_type'', opt_json JStr (ac_t ac)),
      (str ''altitude_baro'',
        (case ac_alt_baro ac of
           Some (Feet v) \<Rightarrow> JObj [(str ''feet'', JInt v)]
         | Some AltGround \<Rightarrow> JStr (str ''ground'')
         | None \<Rightarrow> JNull)),
      (str ''lat'', opt_json JNum (ac_lat ac)),
      (str ''lon'', opt_json JNum (ac_lon ac)),
      (str ''ground_speed_kts'', opt_json JNum (ac_gs ac)),
      (str ''baro_rate'', opt_json JInt (ac_baro_rate ac)),
      (str ''seen_pos'', opt_json JNum (ac_seen_pos ac))]"

definition http_json :: "DebugHttpOutcome \<Rightarrow> json" where
  "http_json h = JObj
     ([(str ''provider'', JStr (ho_provider h)), (str ''endpoint_kind'', JStr (ho_endpoint_kind h)),
       (str ''outcome'', JStr (ho_outcome h))] @
      (case ho_status h of Some s \<Rightarrow> [(str ''status'', JInt (int s))] | None \<Rightarrow> []))"

definition for_flight :: "chrono_fmt \<Rightarrow> rstr \<Rightarrow> TrackedFlight \<Rightarrow> FlightTrackerDebugEvent" where
  "for_flight F event f = add_payload
     (JObj [(str ''tracked_by'', JStr (fl_tracked_by f)),
            (str ''route'', route_summary f),
            (str ''scheduled_departure_at'',
              opt_json (JStr \<circ> rfc3339_secs F) (fl_scheduled_departure_at f)),
            (str ''aircraft_type'', opt_json JStr (fl_aircraft_type f))])
     ((new_event event (as_str (fl_identifier f)))
        \<lparr>ev_callsign := fl_callsign f, ev_hex := fl_hex f, ev_phase := Some (phase_name (fl_phase f)),
         ev_target_confirmation := Some (confirmation_name (fl_target_confirmation f))\<rparr>)"

definition track_started_event :: "chrono_fmt \<Rightarrow> TrackedFlight \<Rightarrow> FlightTrackerDebugEvent" where
  "track_started_event F f = add_payload
     (JObj [(str ''aviationstack_checked'', JBool (fl_aviationstack_checked f))])
     (for_flight F (str ''track_started'') f)"

definition aviationstack_metadata_event ::
  "chrono_fmt \<Rightarrow> FlightIdentifier \<Rightarrow> rstr option \<Rightarrow> DebugHttpOutcome \<Rightarrow>
   AviationstackFlightMetadata option \<Rightarrow> FlightTrackerDebugEvent" where
  "aviationstack_metadata_event F identifier callsign outcome metadata = add_payload
     (JObj [(str ''query'', JObj [(str ''identifier'', JStr (as_str identifier)),
                                  (str ''callsign'', opt_json JStr callsign)]),
            (str ''http'', http_json outcome),
            (str ''metadata'', opt_json (metadata_summary F) metadata)])
     ((new_event (str ''aviationstack_metadata'') (as_str identifier))\<lparr>ev_callsign := callsign\<rparr>)"

definition flight_route_lookup_event ::
  "rstr \<Rightarrow> rstr option \<Rightarrow> DebugHttpOutcome \<Rightarrow> rstr option \<Rightarrow> rstr option \<Rightarrow> bool \<Rightarrow>
   FlightTrackerDebugEvent" where
  "flight_route_lookup_event identifier callsign outcome origin destination resolved = add_payload
     (JObj [(str ''http'', http_json outcome),
            (str ''origin_iata'', opt_json JStr origin),
            (str ''destination_iata'', opt_json JStr destination),
            (str ''destination_coordinates_resolved'', JBool resolved)])
     ((new_event (str ''flight_route_lookup'') identifier)\<lparr>ev_callsign := callsign\<rparr>)"

record AdsbPollDebugInput =
  pd_lookup_mode :: rstr
  pd_outcome :: rstr
  pd_aircraft :: "NearbyAircraft option"
  pd_direct_target_confirmed :: "bool option"
  pd_sticky_confirmation :: "bool option"
  pd_phase_sample_eligible :: "bool option"
  pd_last_seen_age_secs :: "int option"

definition adsb_poll_result_event ::
  "chrono_fmt \<Rightarrow> TrackedFlight \<Rightarrow> AdsbPollDebugInput \<Rightarrow> FlightTrackerDebugEvent" where
  "adsb_poll_result_event F f i = add_payload
     (JObj [(str ''lookup_mode'', JStr (pd_lookup_mode i)),
            (str ''outcome'', JStr (pd_outcome i)),
            (str ''selected_aircraft'', opt_json aircraft_summary (pd_aircraft i)),
            (str ''direct_target_confirmed'', opt_json JBool (pd_direct_target_confirmed i)),
            (str ''sticky_confirmation'', opt_json JBool (pd_sticky_confirmation i)),
            (str ''phase_sample_eligible'', opt_json JBool (pd_phase_sample_eligible i)),
            (str ''last_seen_age_secs'', opt_json JInt (pd_last_seen_age_secs i))])
     (for_flight F (str ''adsb_poll_result'') f)"

definition phase_transition_event ::
  "chrono_fmt \<Rightarrow> TrackedFlight \<Rightarrow> rstr \<Rightarrow> rstr \<Rightarrow> bool \<Rightarrow> FlightTrackerDebugEvent" where
  "phase_transition_event F f old_phase new_phase takeoff_reset = add_payload
     (JObj [(str ''old_phase'', JStr old_phase),
            (str ''new_phase'', JStr new_phase),
            (str ''altitude_ft'', opt_json JInt (fl_altitude_ft f)),
            (str ''vertical_rate_fpm'', opt_json JInt (fl_vertical_rate_fpm f)),
            (str ''ground_speed_kts'', opt_json JNum (fl_ground_speed_kts f)),
            (str ''takeoff_reset'', JBool takeoff_reset)])
     (for_flight F (str ''phase_transition'') f)"

record DiversionDebugInput =
  dd_previous :: "f64 \<times> f64"
  dd_current :: "f64 \<times> f64"
  dd_destination :: "f64 \<times> f64"
  dd_ground_track :: f64
  dd_bearing_to_dest :: f64
  dd_diff :: f64
  dd_threshold :: f64
  dd_anomalous :: bool
  dd_counter_before :: u32
  dd_counter_after :: u32
  dd_alert_emitted :: bool

definition lat_lon_json :: "f64 \<times> f64 \<Rightarrow> json" where
  "lat_lon_json p = JObj [(str ''lat'', JNum (fst p)), (str ''lon'', JNum (snd p))]"

definition diversion_decision_event ::
  "chrono_fmt \<Rightarrow> TrackedFlight \<Rightarrow> DiversionDebugInput \<Rightarrow> FlightTrackerDebugEvent" where
  "diversion_decision_event F f i = add_payload
     (JObj [(str ''previous_position'', lat_lon_json (dd_previous i)),
            (str ''current_position'', lat_lon_json (dd_current i)),
            (str ''destination_position'', lat_lon_json (dd_destination i)),
            (str ''ground_track'', JNum (dd_ground_track i)),
            (str ''bearing_to_dest'', JNum (dd_bearing_to_dest i)),
            (str ''diff'', JNum (dd_diff i)),
            (str ''threshold'', JNum (dd_threshold i)),
            (str ''anomalous'', JBool (dd_anomalous i)),
            (str ''counter_before'', JInt (uint (dd_counter_before i))),
            (str ''counter_after'', JInt (uint (dd_counter_after i))),
            (str ''alert_emitted'', JBool (dd_alert_emitted i))])
     (for_flight F (str ''diversion_decision'') f)"

definition tracking_removal_event ::
  "chrono_fmt \<Rightarrow> TrackedFlight \<Rightarrow> rstr \<Rightarrow> int option \<Rightarrow> FlightTrackerDebugEvent" where
  "tracking_removal_event F f reason age = add_payload
     (JObj [(str ''reason'', JStr reason), (str ''last_seen_age_secs'', opt_json JInt age),
            (str ''route'', route_summary f)])
     (for_flight F (str ''tracking_removal'') f)"

definition with_timestamp :: "chrono_fmt \<Rightarrow> FlightTrackerDebugEvent \<Rightarrow> instant \<Rightarrow> FlightTrackerDebugEvent" where
  "with_timestamp F ev now = ev\<lparr>ev_ts := Some (rfc3339_secs F now)\<rparr>"

text \<open>\<^verbatim>\<open>prune_debug_journals\<close>: the journal files that are removed, given the directory listing.\<close>

definition pruned_journals :: "nat \<Rightarrow> rstr list \<Rightarrow> rstr list" where
  "pruned_journals keep files =
     (if length files \<le> keep then [] else take (length files - keep) (sort files))"

section \<open>Redaction\<close>

text \<open>
  A string is redacted for a key when every occurrence of \<^verbatim>\<open>key=\<close>, in any case, is directly
  followed by the redaction mark.
\<close>

definition redacted :: "rstr \<Rightarrow> rstr \<Rightarrow> bool" where
  "redacted key s \<longleftrightarrow>
     (\<forall>p x q. s = p @ x @ q \<longrightarrow> to_ascii_lowercase x = key @ [61] \<longrightarrow> prefix redacted_mark q)"

text \<open>What the keys of the code have in common: small letters and underscores.\<close>

definition plain_key :: "rstr \<Rightarrow> bool" where
  "plain_key key \<longleftrightarrow> (\<forall>c\<in>set key. is_ascii_lowercase c \<or> c = 95)"

lemma redacted_keys_plain: "key \<in> set redacted_keys \<Longrightarrow> plain_key key"
  by (auto simp: redacted_keys_def plain_key_def rstr_simps is_ascii_lowercase_def)

lemma redacted_mark_split:
  "redacted_mark = 60 # str ''redacted'' @ [62]"
  by (simp add: redacted_mark_def rstr_simps)

lemma redacted_mark_no_eq: "61 \<notin> set redacted_mark"
  by (simp add: redacted_mark_def rstr_simps)

text \<open>An occurrence of a word without \<open>c\<close> lies on one side of each \<open>c\<close>.\<close>

lemma occurrence_split:
  assumes "p @ x @ q = a @ c # b" and "c \<notin> set x"
  shows "(\<exists>u. a = p @ x @ u \<and> q = u @ c # b) \<or> (\<exists>u. b = u @ x @ q \<and> p = a @ c # u)"
proof -
  from assms(1) consider (left) u where "p @ x = a @ u" "u @ q = c # b"
    | (right) u where "a = p @ x @ u" "q = u @ c # b"
    by (auto simp: append_assoc [symmetric] append_eq_append_conv2 simp del: append_assoc)
  then show ?thesis
  proof cases
    case right
    then show ?thesis by blast
  next
    case left
    show ?thesis
    proof (cases u)
      case Nil
      with left show ?thesis by (metis append_Nil append_Nil2 append_assoc)
    next
      case (Cons d v)
      with left have d: "d = c" "b = v @ q" by auto
      from left(1) Cons d consider w where "p = a @ w" "w @ x = c # v" | w where "p @ w = a" "x = w @ c # v"
        by (auto simp: append_eq_append_conv2)
      then show ?thesis
      proof cases
        case 1
        with assms(2) obtain w' where "w = c # w'" "v = w' @ x" by (cases w) auto
        with 1 d show ?thesis by auto
      next
        case 2
        with assms(2) show ?thesis by auto
      qed
    qed
  qed
qed

lemma lower_mem: "c \<in> set x \<Longrightarrow> ascii_lower c = c \<Longrightarrow> c \<in> set (to_ascii_lowercase x)"
  by (force simp: to_ascii_lowercase_def)

lemma needle_chars:
  assumes "plain_key key" and "to_ascii_lowercase x = key @ [61]"
  shows "38 \<notin> set x" and "60 \<notin> set x" and "62 \<notin> set x" and "x \<noteq> []"
    and "last x = 61"
proof -
  have k: "38 \<notin> set (key @ [61])" "60 \<notin> set (key @ [61])" "62 \<notin> set (key @ [61])"
    using assms(1) by (auto simp: plain_key_def is_ascii_lowercase_def)
  show "38 \<notin> set x" "60 \<notin> set x" "62 \<notin> set x"
    using k lower_mem [of 38 x] lower_mem [of 60 x] lower_mem [of 62 x]
    by (auto simp: assms(2) ascii_lower_def is_ascii_uppercase_def)
  show ne: "x \<noteq> []" using assms(2) by (auto simp: to_ascii_lowercase_def)
  have "ascii_lower (last x) = 61"
    using assms(2) ne by (metis last_map last_snoc to_ascii_lowercase_def)
  then show "last x = 61" by (auto simp: ascii_lower_def is_ascii_uppercase_def split: if_splits)
qed

lemma redacted_suffix: "redacted key (a @ b) \<Longrightarrow> redacted key b"
  unfolding redacted_def by (metis append_assoc)

lemma redacted_Nil [simp]: "plain_key key \<Longrightarrow> redacted key []"
  using needle_chars(4) by (auto simp: redacted_def)

text \<open>One round of the loop, with the first occurrence of the needle at the end of \<open>pre\<close>.\<close>

lemma redact_step:
  assumes "split_first (to_ascii_lowercase v) (key @ [61]) = Some (before, after)"
  obtains pre where "pre = take (length before + length key + 1) v"
    and "v = pre @ drop (length before + length key + 1) v"
    and "length pre = length before + length key + 1"
    and "\<And>p x q. pre = p @ x @ q \<Longrightarrow> to_ascii_lowercase x = key @ [61] \<Longrightarrow> q = []"
    and "\<exists>p x. pre = p @ x \<and> to_ascii_lowercase x = key @ [61]"
proof -
  let ?n = "length before + length key + 1"
  let ?pre = "take ?n v"
  note sp = split_first_Some [OF assms]
  have len: "length v = ?n + length after"
    using split_first_length [OF assms] by simp
  have lowpre: "to_ascii_lowercase ?pre = before @ key @ [61]"
  proof -
    have "to_ascii_lowercase ?pre = take ?n (to_ascii_lowercase v)"
      by (simp add: to_ascii_lowercase_def take_map)
    also have "\<dots> = before @ key @ [61]" by (simp add: sp)
    finally show ?thesis .
  qed
  have first: "q = []" if "?pre = p @ x @ q" and x: "to_ascii_lowercase x = key @ [61]" for p x q
  proof -
    have "to_ascii_lowercase v = to_ascii_lowercase p @ (key @ [61]) @ to_ascii_lowercase (q @ drop ?n v)"
      using that by (metis append_assoc append_take_drop_id to_ascii_lowercase_append)
    from split_first_leftmost [OF assms this] have "length before \<le> length p" by simp
    moreover have "length x = length key + 1"
      using arg_cong [OF x, of length] by simp
    moreover have "length ?pre = ?n" using len by simp
    moreover have "length ?pre = length p + length x + length q" using that(1) by simp
    ultimately show ?thesis by simp
  qed
  have ex: "\<exists>p x. ?pre = p @ x \<and> to_ascii_lowercase x = key @ [61]"
  proof (intro exI conjI)
    show "?pre = take (length before) ?pre @ drop (length before) ?pre"
      by (simp only: append_take_drop_id)
    show "to_ascii_lowercase (drop (length before) ?pre) = key @ [61]"
      using lowpre by (metis append_eq_conv_conj drop_map to_ascii_lowercase_def)
  qed
  show ?thesis
    by (rule that [of ?pre]) (use first ex len in \<open>simp_all\<close>)
qed

lemma redact_unfold:
  assumes "split_first (to_ascii_lowercase v) (key @ [61]) = Some (before, after)"
  shows "redact_query_value key v =
     take (length before + length key + 1) v @ redacted_mark @
     (case split_first (drop (length before + length key + 1) v) [38] of
        None \<Rightarrow> []
      | Some (secret, _) \<Rightarrow>
          redact_query_value key (drop (length secret) (drop (length before + length key + 1) v)))"
  unfolding redact_query_value.simps [of key v] assms Let_def
  by (simp only: option.case prod.case)

lemma redacted_append_mark:
  assumes key: "plain_key key"
    and pre: "\<And>p x q. pre = p @ x @ q \<Longrightarrow> to_ascii_lowercase x = key @ [61] \<Longrightarrow> prefix redacted_mark (q @ redacted_mark)"
    and out: "redacted key out"
  shows "redacted key (pre @ redacted_mark @ out)"
  unfolding redacted_def
proof (intro allI impI)
  fix p x q
  assume eq: "pre @ redacted_mark @ out = p @ x @ q" and x: "to_ascii_lowercase x = key @ [61]"
  have ch: "60 \<notin> set x" "62 \<notin> set x" "x \<noteq> []" "last x = 61" using needle_chars [OF key x] by auto
  from eq have "p @ x @ q = pre @ 60 # (str ''redacted'' @ [62] @ out)"
    by (simp add: redacted_mark_split)
  from occurrence_split [OF this ch(1)] consider
      (pre) u where "pre = p @ x @ u" "q = u @ redacted_mark @ out"
    | (post) u where "str ''redacted'' @ [62] @ out = u @ x @ q"
    by (auto simp: redacted_mark_split)
  then show "prefix redacted_mark q"
  proof cases
    case pre
    with assms(2) x show ?thesis by (metis append_assoc prefix_append prefix_order.trans)
  next
    case post
    then have "u @ x @ q = str ''redacted'' @ 62 # out" by simp
    from occurrence_split [OF this ch(2)] consider
        w where "str ''redacted'' = u @ x @ w" | w where "out = w @ x @ q"
      by auto
    then show ?thesis
    proof cases
      case 1
      then have "61 \<in> set (str ''redacted'')" using ch(3,4) by (metis in_set_conv_decomp last_in_set append_assoc Un_iff set_append)
      then show ?thesis by (simp add: rstr_simps)
    next
      case 2
      with out x show ?thesis by (auto simp: redacted_def)
    qed
  qed
qed

lemma redact_query_value_redacted:
  assumes "plain_key key"
  shows "redacted key (redact_query_value key v)"
  using assms
proof (induction key v rule: redact_query_value.induct)
  case (1 key v)
  note key = "1.prems"
  show ?case
  proof (cases "split_first (to_ascii_lowercase v) (key @ [61])")
    case None
    then have "\<not> contains (to_ascii_lowercase v) (key @ [61])" by (simp add: contains_def)
    then have "redacted key v"
      unfolding redacted_def contains_iff_sublist
      by (metis sublist_appendI to_ascii_lowercase_append)
    with None show ?thesis by (simp add: redact_query_value.simps [of key v])
  next
    case (Some r)
    then obtain before after where S: "split_first (to_ascii_lowercase v) (key @ [61]) = Some (before, after)"
      by (cases r) auto
    from redact_step [OF S] obtain pre where pre: "pre = take (length before + length key + 1) v"
      and first: "\<And>p x q. pre = p @ x @ q \<Longrightarrow> to_ascii_lowercase x = key @ [61] \<Longrightarrow> q = []"
      by metis
    define rest where "rest = drop (length before + length key + 1) v"
    define out where "out = (case split_first rest [38] of None \<Rightarrow> []
        | Some (secret, _) \<Rightarrow> redact_query_value key (drop (length secret) rest))"
    have res: "redact_query_value key v = pre @ redacted_mark @ out"
      by (simp only: redact_unfold [OF S] pre rest_def out_def)
    have "redacted key out"
    proof (cases "split_first rest [38]")
      case None
      then show ?thesis using key by (simp add: out_def)
    next
      case (Some s)
      then show ?thesis
        using "1.IH" [OF S] key by (cases s) (auto simp: out_def rest_def)
    qed
    moreover have "prefix redacted_mark (q @ redacted_mark)"
      if "pre = p @ x @ q" "to_ascii_lowercase x = key @ [61]" for p x q
      using first [OF that] by simp
    ultimately show ?thesis unfolding res using key by (intro redacted_append_mark) auto
  qed
qed

lemma redact_query_value_preserves:
  assumes "plain_key key" and "plain_key key'" and "redacted key' v"
  shows "redacted key' (redact_query_value key v)"
  using assms
proof (induction key v rule: redact_query_value.induct)
  case (1 key v)
  note prems = "1.prems"
  show ?case
  proof (cases "split_first (to_ascii_lowercase v) (key @ [61])")
    case None
    then show ?thesis using prems(3) by (simp add: redact_query_value.simps [of key v])
  next
    case (Some r)
    then obtain before after where S: "split_first (to_ascii_lowercase v) (key @ [61]) = Some (before, after)"
      by (cases r) auto
    define rest where "rest = drop (length before + length key + 1) v"
    from redact_step [OF S] obtain pre where pre: "pre = take (length before + length key + 1) v"
      and v: "v = pre @ rest"
      and ends: "\<exists>p x. pre = p @ x \<and> to_ascii_lowercase x = key @ [61]"
      unfolding rest_def by metis
    define out where "out = (case split_first rest [38] of None \<Rightarrow> []
        | Some (secret, _) \<Rightarrow> redact_query_value key (drop (length secret) rest))"
    have res: "redact_query_value key v = pre @ redacted_mark @ out"
      by (simp only: redact_unfold [OF S] pre rest_def out_def)
    have red_rest: "redacted key' rest" using prems(3) v redacted_suffix by simp
    have out: "redacted key' out"
    proof (cases "split_first rest [38]")
      case None
      then show ?thesis using prems by (simp add: out_def)
    next
      case (Some s)
      have "redacted key' (drop n rest)" for n
        using red_rest redacted_suffix by (metis append_take_drop_id)
      then show ?thesis
        using Some "1.IH" [OF S] prems by (cases s) (auto simp: out_def rest_def)
    qed
    have "prefix redacted_mark (q @ redacted_mark)"
      if q: "pre = p @ x @ q" "to_ascii_lowercase x = key' @ [61]" for p x q
    proof -
      have "prefix redacted_mark (q @ rest)"
        using prems(3) q v by (simp add: redacted_def)
      then consider "prefix redacted_mark q" | u where "redacted_mark = q @ u"
        by (metis prefix_append prefix_def)
      then show ?thesis
      proof cases
        case 2
        have "q = []"
        proof (rule ccontr)
          assume "q \<noteq> []"
          obtain p' x' where "pre = p' @ x'" "to_ascii_lowercase x' = key @ [61]" using ends by blast
          then have "last pre = 61" using needle_chars(4,5) [OF prems(1)] by simp
          with q(1) \<open>q \<noteq> []\<close> have "61 \<in> set q" by (metis last_appendR last_in_set append_is_Nil_conv)
          with 2 redacted_mark_no_eq show False by (metis Un_iff set_append)
        qed
        then show ?thesis by simp
      qed (simp add: prefix_prefix)
    qed
    with out show ?thesis unfolding res using prems(2) by (intro redacted_append_mark) auto
  qed
qed

lemma fold_redact_redacted:
  assumes "\<forall>k\<in>set ks. plain_key k" and "plain_key key" and "redacted key v \<or> key \<in> set ks"
  shows "redacted key (fold redact_query_value ks v)"
  using assms
proof (induction ks arbitrary: v)
  case (Cons k ks)
  then show ?case
    using redact_query_value_preserves redact_query_value_redacted by auto
qed simp

lemma sanitize_string_redacted:
  "key \<in> set redacted_keys \<Longrightarrow> redacted key (sanitize_string v)"
  unfolding sanitize_string_def using redacted_keys_plain by (intro fold_redact_redacted) auto

text \<open>A string that names none of the keys passes unchanged.\<close>

lemma sanitize_string_noop:
  assumes "\<forall>key\<in>set redacted_keys. \<not> contains (to_ascii_lowercase v) (key @ [61])"
  shows "sanitize_string v = v"
proof -
  have "redact_query_value key v = v" if "key \<in> set redacted_keys" for key
    using assms that by (simp add: redact_query_value.simps [of key v] contains_def split: option.split)
  then have "fold redact_query_value ks v = v" if "set ks \<subseteq> set redacted_keys" for ks
    using that by (induction ks) auto
  then show ?thesis by (simp add: sanitize_string_def)
qed

section \<open>Clean documents\<close>

text \<open>A JSON value without a sensitive key at any depth and with every string redacted.\<close>

fun clean :: "json \<Rightarrow> bool"
  and clean_map :: "(rstr \<times> json) list \<Rightarrow> bool"
  and clean_list :: "json list \<Rightarrow> bool"
where
  "clean (JObj m) = clean_map m"
| "clean (JArr vs) = clean_list vs"
| "clean (JStr s) = (\<forall>key\<in>set redacted_keys. redacted key s)"
| "clean _ = True"
| "clean_map [] = True"
| "clean_map ((k, v) # m) = (\<not> is_sensitive_key k \<and> clean v \<and> clean_map m)"
| "clean_list [] = True"
| "clean_list (v # vs) = (clean v \<and> clean_list vs)"

lemma sanitize_clean:
  "clean (sanitize_value v)" "clean_map (sanitize_map m)" "clean_list (sanitize_list vs)"
  by (induction v and m and vs rule: sanitize_value_sanitize_map_sanitize_list.induct)
    (auto simp: sanitize_string_redacted)

lemma clean_map_update: "clean_map m \<Longrightarrow> \<not> is_sensitive_key k \<Longrightarrow> clean v \<Longrightarrow> clean_map (AList.update k v m)"
  by (induction m) auto

lemma clean_extend_map: "clean_map m \<Longrightarrow> clean_map new \<Longrightarrow> clean_map (extend_map m new)"
  unfolding extend_map_def
  by (induction new arbitrary: m) (auto simp: clean_map_update)

lemma distinct_extend_map: "distinct (map fst m) \<Longrightarrow> distinct (map fst (extend_map m new))"
  unfolding extend_map_def
  by (induction new arbitrary: m) (auto simp: distinct_update)

lemma add_payload_clean: "clean_map (ev_payload ev) \<Longrightarrow> clean_map (ev_payload (add_payload v ev))"
  using sanitize_clean(1) [of v] clean_extend_map
  by (auto simp: add_payload_def split: json.split)

lemma new_event_clean [simp]: "clean_map (ev_payload (new_event e i))"
  by (simp add: new_event_def)

lemma for_flight_clean: "clean_map (ev_payload (for_flight F e f))"
  unfolding for_flight_def by (rule add_payload_clean) (simp add: new_event_def)

lemmas event_defs = track_started_event_def aviationstack_metadata_event_def
  flight_route_lookup_event_def adsb_poll_result_event_def phase_transition_event_def
  diversion_decision_event_def tracking_removal_event_def

lemma events_clean:
  "clean_map (ev_payload (track_started_event F f))"
  "clean_map (ev_payload (aviationstack_metadata_event F i cs h md))"
  "clean_map (ev_payload (flight_route_lookup_event s cs h og d r))"
  "clean_map (ev_payload (adsb_poll_result_event F f inp))"
  "clean_map (ev_payload (phase_transition_event F f p1 p2 r))"
  "clean_map (ev_payload (diversion_decision_event F f di))"
  "clean_map (ev_payload (tracking_removal_event F f why age))"
  unfolding event_defs
  by (rule add_payload_clean for_flight_clean; simp add: new_event_def for_flight_clean)+

lemma pruned_journals_newest:
  assumes "old \<in> set (pruned_journals keep files)"
    and "new \<in> set (drop (length (pruned_journals keep files)) (sort files))"
  shows "old \<le> new"
proof -
  let ?n = "length files - keep"
  have le: "\<not> length files \<le> keep" and old: "old \<in> set (take ?n (sort files))"
    using assms(1) by (auto simp: pruned_journals_def split: if_splits)
  have "length (pruned_journals keep files) = ?n" using le by (simp add: pruned_journals_def)
  with assms(2) have new: "new \<in> set (drop ?n (sort files))" by simp
  have "sorted (take ?n (sort files) @ drop ?n (sort files))" by simp
  with old new show ?thesis unfolding sorted_append by blast
qed



text \<open>
  Pruning leaves the newest journals: it removes as many files as exceed the number to
  keep, each of them is one of the files, and none is newer than a file that stays.
\<close>

theorem prune_keeps_newest:
  "length (pruned_journals keep files) = length files - keep \<and>
   mset (pruned_journals keep files @ drop (length (pruned_journals keep files)) (sort files)) = mset files \<and>
   list_all (\<lambda>old. list_all (\<lambda>new. old \<le> new)
      (drop (length (pruned_journals keep files)) (sort files))) (pruned_journals keep files)"
proof (intro conjI)
  show "length (pruned_journals keep files) = length files - keep"
    by (simp add: pruned_journals_def)
  have "pruned_journals keep files = take (length (pruned_journals keep files)) (sort files)"
    by (simp add: pruned_journals_def)
  then have "pruned_journals keep files @ drop (length (pruned_journals keep files)) (sort files) = sort files"
    by (metis append_take_drop_id)
  then show "mset (pruned_journals keep files @ drop (length (pruned_journals keep files)) (sort files)) = mset files"
    by simp
  show "list_all (\<lambda>old. list_all (\<lambda>new. old \<le> new)
      (drop (length (pruned_journals keep files)) (sort files))) (pruned_journals keep files)"
    by (auto simp: list_all_iff intro: pruned_journals_newest)
qed

end
