(* ===== verification/Flight_Format.thy ===== *)
theory Flight_Format imports Flight_Metadata begin

text \<open>
  \<^verbatim>\<open>aviation/tracker/format.rs\<close>: the chat lines of the flight tracker. Code points outside
  ASCII are written as numbers: 8594 is the arrow of a route, 9992 the aeroplane, 9888 the
  warning sign, 252 and 228 are u and a umlaut.
\<close>

definition format_duration_hm :: "duration \<Rightarrow> rstr" where
  "format_duration_hm d =
     (let hrs = num_hours d; mins = num_minutes d - 60 * trunc_div (num_minutes d) 60 in
      if hrs > 0 then dec_int hrs @ str ''h'' @ dec2 mins @ str ''m'' else dec_int mins @ str ''m'')"

definition format_alt :: "i64 option \<Rightarrow> rstr" where
  "format_alt alt =
     (case alt of
        Some ft \<Rightarrow> if ft \<ge> 1000 then str ''FL'' @ dec_int (ft div 100) else dec_int ft @ str ''ft''
      | None \<Rightarrow> str ''?'')"

definition format_route :: "(rstr \<times> rstr) option \<Rightarrow> rstr" where
  "format_route r = (case r of Some (orig, dest) \<Rightarrow> str '' '' @ orig @ [8594] @ dest | None \<Rightarrow> [])"

definition present :: "rstr option \<Rightarrow> rstr option" where
  "present v = opt_filter (\<lambda>v. v \<noteq> []) (map_option trim v)"

definition format_time :: "chrono_fmt \<Rightarrow> instant option \<Rightarrow> rstr option" where
  "format_time F v = map_option (hour_minute F) v"

fun first_present :: "rstr option list \<Rightarrow> rstr option" where
  "first_present [] = None"
| "first_present (None # vs) = first_present vs"
| "first_present (Some v # vs) = (if trim v \<noteq> [] then Some v else first_present vs)"

definition opt_part :: "('a \<Rightarrow> rstr) \<Rightarrow> 'a option \<Rightarrow> rstr list" where
  "opt_part g x = (case x of Some a \<Rightarrow> [g a] | None \<Rightarrow> [])"

definition opt_text :: "('a \<Rightarrow> rstr) \<Rightarrow> 'a option \<Rightarrow> rstr" where
  "opt_text g x = (case x of Some a \<Rightarrow> g a | None \<Rightarrow> [])"

definition format_airport ::
  "rstr option \<Rightarrow> rstr option \<Rightarrow> rstr option \<Rightarrow> rstr option \<Rightarrow> rstr option \<Rightarrow> rstr" where
  "format_airport iata icao airport terminal gate =
     join (str '' '')
       ([case map_option trim (first_present [iata, icao, airport]) of Some s \<Rightarrow> s | None \<Rightarrow> str ''?''] @
        opt_part (\<lambda>t. str ''T'' @ t) (present terminal) @
        opt_part (\<lambda>g. str ''Gate '' @ g) (present gate))"

definition delay_part :: "rstr \<Rightarrow> i64 option \<Rightarrow> rstr option" where
  "delay_part label d =
     (case d of
        None \<Rightarrow> None
      | Some delay \<Rightarrow>
          if delay > 0 then Some (label @ str '' delay: '' @ dec_int delay @ str ''m'') else None)"

definition dep_time :: "AviationstackFlightMetadata \<Rightarrow> instant option" where
  "dep_time m =
     or_else (or_else (or_else (md_departure_actual_runway m) (md_departure_actual m))
       (md_departure_estimated m)) (md_departure_scheduled m)"

definition arr_time :: "AviationstackFlightMetadata \<Rightarrow> instant option" where
  "arr_time m =
     or_else (or_else (md_arrival_actual m) (md_arrival_estimated m)) (md_arrival_scheduled m)"

definition msg_aviationstack_info :: "chrono_fmt \<Rightarrow> AviationstackFlightMetadata \<Rightarrow> rstr" where
  "msg_aviationstack_info F m =
     (let flight = (case first_present [md_flight_iata m, md_flight_icao m, md_flight_number m] of
                      Some s \<Rightarrow> s | None \<Rightarrow> str ''Flight'');
          airline = opt_text (\<lambda>name. str '' '' @ name) (present (md_airline_name m));
          dep = format_airport (md_departure_iata m) (md_departure_icao m) (md_departure_airport m)
                  (md_departure_terminal m) (md_departure_gate m);
          arr = format_airport (md_arrival_iata m) (md_arrival_icao m) (md_arrival_airport m)
                  (md_arrival_terminal m) (md_arrival_gate m);
          aircraft = opt_part id (present (md_aircraft_icao m)) @
                     opt_part id (present (md_aircraft_registration m))
      in join (str '' | '')
        ([flight @ airline, dep @ str '' -> '' @ arr] @
         opt_part (\<lambda>t. str ''Dep: '' @ t) (format_time F (dep_time m)) @
         opt_part (\<lambda>t. str ''Arr: '' @ t) (format_time F (arr_time m)) @
         opt_part (\<lambda>b. str ''Baggage: '' @ b) (present (md_arrival_baggage m)) @
         opt_part id (delay_part (str ''Dep'') (md_departure_delay_minutes m)) @
         opt_part id (delay_part (str ''Arr'') (md_arrival_delay_minutes m)) @
         opt_part (\<lambda>s. str ''Status: '' @ s) (present (md_flight_status m)) @
         (if aircraft \<noteq> [] then [str ''Aircraft: '' @ join (str '' '') aircraft] else []) @
         opt_part (\<lambda>i. str ''ICAO24: '' @ to_uppercase i) (present (md_aircraft_icao24 m))))"

definition format_adsb_link_suffix :: "rstr option \<Rightarrow> rstr" where
  "format_adsb_link_suffix hex =
     opt_text (\<lambda>h. str '' | https://globe.adsbexchange.com/?icao='' @ to_ascii_lowercase h) (present hex)"

definition flight_name :: "TrackedFlight \<Rightarrow> rstr" where
  "flight_name f = (case fl_callsign f of Some c \<Rightarrow> c | None \<Rightarrow> as_str (fl_identifier f))"

definition format_flight_prefix :: "TrackedFlight \<Rightarrow> rstr" where
  "format_flight_prefix f =
     flight_name f @ opt_text (\<lambda>t. str '' ('' @ t @ str '')'') (fl_aircraft_type f) @
     format_route (fl_route f)"

definition msg_track_started :: "TrackedFlight \<Rightarrow> rstr" where
  "msg_track_started f =
     str ''Tracke '' @ format_flight_prefix f @ str '' Okayge'' @ format_adsb_link_suffix (fl_hex f)"

definition msg_takeoff :: "TrackedFlight \<Rightarrow> rstr" where
  "msg_takeoff f = format_flight_prefix f @ str '' ist gestartet! '' @ [9992]"

definition msg_cruise :: "TrackedFlight \<Rightarrow> rstr" where
  "msg_cruise f = format_flight_prefix f @ str '' cruist auf '' @ format_alt (fl_altitude_ft f)"

definition msg_descent :: "TrackedFlight \<Rightarrow> rstr" where
  "msg_descent f = format_flight_prefix f @ str '' hat Descent eingeleitet''"

definition msg_approach :: "TrackedFlight \<Rightarrow> rstr" where
  "msg_approach f = format_flight_prefix f @ str '' ist im Approach''"

definition msg_landing :: "TrackedFlight \<Rightarrow> instant option \<Rightarrow> instant \<Rightarrow> rstr" where
  "msg_landing f takeoff_at now =
     (case takeoff_at of
        Some t \<Rightarrow> format_flight_prefix f @ str '' ist gelandet! Flugzeit: '' @ format_duration_hm (now - t)
      | None \<Rightarrow> format_flight_prefix f @
          str '' ist gelandet! Flugzeit: unbekannt (Takeoff nicht beobachtet)'')"

definition msg_squawk_emergency :: "TrackedFlight \<Rightarrow> rstr \<Rightarrow> rstr \<Rightarrow> rstr" where
  "msg_squawk_emergency f code meaning =
     [9888] @ str '' '' @ format_flight_prefix f @ str '' squawkt '' @ code @ str ''! ('' @ meaning @ str '')''"

definition msg_possible_divert :: "TrackedFlight \<Rightarrow> rstr" where
  "msg_possible_divert f = [9888] @ str '' '' @ format_flight_prefix f @ str '' scheint zu diverten!''"

definition msg_tracking_lost :: "TrackedFlight \<Rightarrow> rstr" where
  "msg_tracking_lost f = flight_name f @ str '' Signal verloren, wird nicht mehr getrackt''"

definition msg_adsb_visible :: "TrackedFlight \<Rightarrow> rstr" where
  "msg_adsb_visible f = format_flight_prefix f @ str '' ist jetzt im ADS-B sichtbar''"

definition msg_pending_expired :: "TrackedFlight \<Rightarrow> rstr" where
  "msg_pending_expired f =
     format_flight_prefix f @ str '' ist nicht im ADS-B aufgetaucht, wird nicht mehr getrackt''"

text \<open>\<^verbatim>\<open>format!("{gs:.0}")\<close>: rounded to the nearest integer, ties to even.\<close>

definition round_even :: "f64 \<Rightarrow> int" where
  "round_even x =
     (let n = \<lfloor>x\<rfloor>; d = x - of_int n in
      if d < 1 / 2 then n else if d > 1 / 2 then n + 1 else if even n then n else n + 1)"

definition fmt_f64_0 :: "f64 \<Rightarrow> rstr" where
  "fmt_f64_0 x = (if x < 0 \<and> round_even x = 0 then str ''-0'' else dec_int (round_even x))"

definition msg_flight_status :: "TrackedFlight \<Rightarrow> instant \<Rightarrow> rstr" where
  "msg_flight_status f now =
     (let adsb_link = format_adsb_link_suffix (fl_hex f);
          prefix = format_flight_prefix f;
          elapsed = now - fl_tracked_at f
      in
      if fl_target_confirmation f = AircraftVisible then
        prefix @ str '' | Aircraft sichtbar, Zielflug noch nicht best'' @ [228] @ str ''tigt'' @
        opt_text (\<lambda>c. str '' | ADS-B aktuell '' @ c) (fl_observed_callsign f) @
        str '' | seit '' @ format_duration_hm elapsed @ str '' getrackt'' @ adsb_link
      else
        prefix @ str '' | '' @ phase_name (fl_phase f) @ str '' '' @ format_alt (fl_altitude_ft f) @
        opt_text (\<lambda>gs. str '' | '' @ fmt_f64_0 gs @ str ''kts'') (fl_ground_speed_kts f) @
        opt_text (\<lambda>s. str '' | Squawk '' @ s) (fl_squawk f) @
        str '' | seit '' @ format_duration_hm elapsed @ str '' getrackt'' @ adsb_link)"

definition flights_list_entry :: "TrackedFlight \<Rightarrow> rstr" where
  "flights_list_entry f =
     flight_name f @ str '' ('' @
     (if fl_target_confirmation f = AircraftVisible then str ''AircraftVisible''
      else phase_name (fl_phase f)) @ str '' '' @ format_alt (fl_altitude_ft f) @ str '')''"

definition msg_flights_list :: "TrackedFlight list \<Rightarrow> rstr" where
  "msg_flights_list fs =
     (if fs = [] then str ''Keine Fl'' @ [252] @ str ''ge getrackt''
      else str ''Getrackte Fl'' @ [252] @ str ''ge: '' @ join (str '' | '') (map flights_list_entry fs))"

section \<open>Lemmas\<close>

lemma format_duration_hm_nonneg:
  assumes "0 \<le> d"
  shows "format_duration_hm d =
    (let m = d div 60000000000 in
     if 60 \<le> m then dec_int (m div 60) @ str ''h'' @ dec2 (m mod 60) @ str ''m''
     else dec_int m @ str ''m'')"
proof -
  have s: "num_seconds d = d div 1000000000" "0 \<le> d div 1000000000"
    using assms by (simp_all add: num_seconds_nonneg pos_imp_zdiv_nonneg_iff)
  have m: "num_minutes d = d div 60000000000"
    using s by (simp add: num_minutes_def trunc_div_nonneg zdiv_zmult2_eq [symmetric])
  have m0: "0 \<le> d div 60000000000" using assms by (simp add: pos_imp_zdiv_nonneg_iff)
  have h: "num_hours d = d div 60000000000 div 60"
    using s by (simp add: num_hours_def trunc_div_nonneg zdiv_zmult2_eq [symmetric])
  have r: "x - 60 * (x div 60) = x mod 60" for x :: int
    by (simp add: minus_mult_div_eq_mod)
  have pos: "(0 < x div 60) = (60 \<le> x)" if "0 \<le> x" for x :: int
    using that by (simp add: pos_imp_zdiv_pos_iff)
  show ?thesis
    using m0 pos [OF m0]
    by (simp add: format_duration_hm_def Let_def m h trunc_div_nonneg r)
qed

lemma first_present_Some:
  "first_present vs = Some v \<Longrightarrow> Some v \<in> set vs \<and> trim v \<noteq> []"
  by (induction vs rule: first_present.induct) (auto split: if_splits)

lemma present_Some: "present x = Some v \<Longrightarrow> v \<noteq> [] \<and> trim v = v"
  by (auto simp: present_def opt_filter_Some)

lemma round_even_close: "\<bar>x - of_int (round_even x)\<bar> \<le> 1 / 2"
proof -
  define n where "n = \<lfloor>x\<rfloor>"
  have "of_int n \<le> x" "x < of_int n + 1" unfolding n_def by linarith+
  then show ?thesis
    by (auto simp: round_even_def Let_def n_def [symmetric] abs_if)
qed

end
