(* ===== verification/Tracker_Cache.thy ===== *)
theory Tracker_Cache imports Debug_Journal Flight_Format begin

text \<open>
  The flight-info cache of \<^verbatim>\<open>aviation/tracker/commands.rs\<close>: aliases, expiry, lookup and update,
  and the AviationStack lookup that goes through it. The HTTP client is a parameter
  (\<open>aviation_client\<close>): what it answers to each request during one command. \<open>Elapsed\<close> is
  the timeout of \<^verbatim>\<open>tokio::time::timeout\<close> around a request.
\<close>

datatype 'a reply = Elapsed | Failed | Got "'a option"

record aviation_client =
  cl_aviationstack_enabled :: bool
  cl_resolve_callsign :: "rstr \<Rightarrow> rstr"
  cl_metadata :: "FlightIdentifier \<Rightarrow> rstr option \<Rightarrow> AviationstackFlightMetadata option option"
  cl_aircraft_by_hex :: "rstr \<Rightarrow> NearbyAircraft reply"
  cl_aircraft_by_callsign :: "rstr \<Rightarrow> NearbyAircraft reply"
  cl_route :: "rstr \<Rightarrow> (rstr \<times> rstr) reply"

definition push_cache_alias :: "rstr list \<Rightarrow> rstr option \<Rightarrow> rstr list" where
  "push_cache_alias aliases v =
     (case Option.bind v normalize_flight_code of
        None \<Rightarrow> aliases
      | Some alias \<Rightarrow>
          if \<not> (\<exists>known\<in>set aliases. eq_ignore_ascii_case known alias) then aliases @ [alias] else aliases)"

definition query_cache_aliases :: "FlightIdentifier \<Rightarrow> rstr option \<Rightarrow> rstr list" where
  "query_cache_aliases identifier callsign =
     (let aliases = [];
          aliases = (if is_hex_id identifier then aliases
                     else push_cache_alias aliases (Some (as_str identifier)))
      in push_cache_alias aliases callsign)"

definition metadata_cache_aliases :: "AviationstackFlightMetadata \<Rightarrow> rstr list" where
  "metadata_cache_aliases m =
     (let aliases = [];
          aliases = push_cache_alias aliases (md_flight_iata m);
          aliases = push_cache_alias aliases (md_flight_icao m)
      in push_cache_alias aliases (metadata_callsign m))"

definition metadata_flight_date :: "chrono_fmt \<Rightarrow> AviationstackFlightMetadata \<Rightarrow> rstr option" where
  "metadata_flight_date fmt m =
     or_else (opt_filter (\<lambda>date. date \<noteq> []) (map_option trim (md_flight_date m)))
       (map_option (year_month_day fmt)
         (or_else (or_else (md_departure_scheduled m) (md_arrival_scheduled m))
            (md_arrival_estimated m)))"

definition flight_info_cache_expiry ::
  "AviationstackFlightMetadata option \<Rightarrow> instant \<Rightarrow> instant" where
  "flight_info_cache_expiry metadata now =
     (case metadata of
        None \<Rightarrow> now + minutes 10
      | Some m \<Rightarrow>
          if is_some_and (md_flight_status m) (\<lambda>status. eq_ignore_ascii_case status (str ''landed''))
          then now + hours 24
          else
            let arrival = or_else (or_else (md_arrival_actual m) (md_arrival_estimated m))
                            (md_arrival_scheduled m);
                expires_at = (case arrival of Some a \<Rightarrow> a + hours 4 | None \<Rightarrow> now + hours 4)
            in if expires_at > now then expires_at else now + hours 4)"

definition prune_flight_info_cache ::
  "FlightTrackerState \<Rightarrow> instant \<Rightarrow> FlightTrackerState \<times> bool" where
  "prune_flight_info_cache st now =
     (let before = length (flight_info_cache st);
          st = st\<lparr>flight_info_cache := filter (\<lambda>e. \<not> is_expired e now) (flight_info_cache st)\<rparr>
      in (st, before \<noteq> length (flight_info_cache st)))"

text \<open>\<^verbatim>\<open>Iterator::max_by_key\<close>: the last of the greatest elements.\<close>

fun max_by_key :: "('a \<Rightarrow> int) \<Rightarrow> 'a list \<Rightarrow> 'a option" where
  "max_by_key key [] = None"
| "max_by_key key (x # xs) =
     (case max_by_key key xs of
        None \<Rightarrow> Some x
      | Some y \<Rightarrow> if key x \<le> key y then Some y else Some x)"

definition cached_flight_info ::
  "FlightTrackerState \<Rightarrow> rstr list \<Rightarrow> instant \<Rightarrow> AviationstackFlightMetadata option option" where
  "cached_flight_info st aliases now =
     map_option ci_metadata (max_by_key ci_cached_at
       (filter (\<lambda>e. \<not> is_expired e now \<and> matches_any_alias e aliases) (flight_info_cache st)))"

definition upsert_aliases ::
  "rstr list \<Rightarrow> AviationstackFlightMetadata option \<Rightarrow> rstr list" where
  "upsert_aliases query_aliases metadata =
     (case metadata of
        Some m \<Rightarrow> fold (\<lambda>alias aliases. push_cache_alias aliases (Some alias))
                    (metadata_cache_aliases m) query_aliases
      | None \<Rightarrow> query_aliases)"

definition same_flight_entry :: "rstr list \<Rightarrow> rstr option \<Rightarrow> CachedFlightInfo \<Rightarrow> bool" where
  "same_flight_entry aliases flight_date e =
     (matches_any_alias e aliases \<and>
      (ci_flight_date e = flight_date \<or> ci_flight_date e = None \<or> flight_date = None))"

definition upsert_flight_info_cache ::
  "chrono_fmt \<Rightarrow> FlightTrackerState \<Rightarrow> rstr list \<Rightarrow> AviationstackFlightMetadata option \<Rightarrow> instant \<Rightarrow>
   FlightTrackerState" where
  "upsert_flight_info_cache fmt st query_aliases metadata now =
     (let flight_date = Option.bind metadata (metadata_flight_date fmt);
          aliases = upsert_aliases query_aliases metadata
      in if aliases = [] then st
         else
           let expires_at = flight_info_cache_expiry metadata now;
               cache = flight_info_cache st
           in case position (same_flight_entry aliases flight_date) cache of
                Some i \<Rightarrow>
                  let e = cache ! i;
                      e = e\<lparr>ci_aliases := fold (\<lambda>alias as. push_cache_alias as (Some alias))
                                            aliases (ci_aliases e)\<rparr>;
                      e = e\<lparr>ci_flight_date := flight_date, ci_metadata := metadata,
                            ci_cached_at := now, ci_expires_at := expires_at\<rparr>
                  in st\<lparr>flight_info_cache := cache[i := e]\<rparr>
              | None \<Rightarrow>
                  st\<lparr>flight_info_cache := cache @
                       [\<lparr>ci_aliases = aliases, ci_flight_date = flight_date,
                         ci_metadata = metadata, ci_cached_at = now, ci_expires_at = expires_at\<rparr>]\<rparr>)"

record AviationstackLookup =
  lk_checked :: bool
  lk_metadata :: "AviationstackFlightMetadata option"
  lk_cache_changed :: bool
  lk_failed :: bool

definition lookup_aviationstack_metadata ::
  "chrono_fmt \<Rightarrow> FlightTrackerState \<Rightarrow> aviation_client \<Rightarrow> FlightIdentifier \<Rightarrow> rstr option \<Rightarrow> instant \<Rightarrow>
   FlightTrackerState \<times> AviationstackLookup" where
  "lookup_aviationstack_metadata fmt st client identifier callsign now =
     (let (st, cache_changed) = prune_flight_info_cache st now;
          query_aliases = query_cache_aliases identifier callsign
      in if query_aliases = [] then
           (st, \<lparr>lk_checked = False, lk_metadata = None, lk_cache_changed = cache_changed,
                 lk_failed = False\<rparr>)
         else case cached_flight_info st query_aliases now of
           Some metadata \<Rightarrow>
             (st, \<lparr>lk_checked = True, lk_metadata = metadata, lk_cache_changed = cache_changed,
                   lk_failed = False\<rparr>)
         | None \<Rightarrow>
             if \<not> cl_aviationstack_enabled client then
               (st, \<lparr>lk_checked = False, lk_metadata = None, lk_cache_changed = cache_changed,
                     lk_failed = False\<rparr>)
             else case cl_metadata client identifier callsign of
               Some metadata \<Rightarrow>
                 (upsert_flight_info_cache fmt st query_aliases metadata now,
                  \<lparr>lk_checked = True, lk_metadata = metadata, lk_cache_changed = True,
                   lk_failed = False\<rparr>)
             | None \<Rightarrow>
                 (st, \<lparr>lk_checked = True, lk_metadata = None, lk_cache_changed = cache_changed,
                       lk_failed = True\<rparr>))"

section \<open>Lemmas\<close>

lemma lookup_flights [simp]:
  "flights (fst (prune_flight_info_cache st now)) = flights st"
  "flights (upsert_flight_info_cache fmt st qa m now) = flights st"
  by (simp_all add: prune_flight_info_cache_def upsert_flight_info_cache_def Let_def split: option.split)

lemma lookup_aviationstack_flights [simp]:
  "flights (fst (lookup_aviationstack_metadata fmt st cl i cs now)) = flights st"
  by (simp add: lookup_aviationstack_metadata_def Let_def split: prod.split option.split)
    (metis fst_conv lookup_flights(1))

lemma expiry_in_future: "now < flight_info_cache_expiry m now"
  by (simp add: flight_info_cache_expiry_def Let_def time_simps split: option.split)
subsection \<open>Aliases\<close>

definition normalized_aliases :: "rstr list \<Rightarrow> bool" where
  "normalized_aliases as \<longleftrightarrow> (\<forall>a\<in>set as. normalize_flight_code a = Some a) \<and> distinct_aliases as"

lemma push_cache_alias_add:
  "push_cache_alias as v =
     (case Option.bind v normalize_flight_code of None \<Rightarrow> as | Some a \<Rightarrow> add_alias as a)"
  by (simp add: push_cache_alias_def add_alias_def split: option.split)

lemma normalize_result: "normalize_flight_code v = Some a \<Longrightarrow> normalize_flight_code a = Some a"
  by (auto simp: normalize_flight_code_def Let_def trim_to_uppercase_trim split: if_splits)

lemma push_cache_alias_normalized:
  "normalized_aliases as \<Longrightarrow> normalized_aliases (push_cache_alias as v)"
  by (auto simp: normalized_aliases_def push_cache_alias_add add_alias_def add_alias_distinct
      normalize_result distinct_aliases_def eq_ignore_ascii_case_def split: option.split bind_splits)

lemma push_cache_alias_keeps: "set as \<subseteq> set (push_cache_alias as v)"
  by (auto simp: push_cache_alias_add add_alias_def split: option.split)

lemma normalized_Nil [simp]: "normalized_aliases []"
  by (simp add: normalized_aliases_def distinct_aliases_def)

lemma query_cache_aliases_normalized: "normalized_aliases (query_cache_aliases i cs)"
  by (simp add: query_cache_aliases_def Let_def push_cache_alias_normalized)

lemma fold_push_keeps: "set as \<subseteq> set (fold (\<lambda>alias as. push_cache_alias as (Some alias)) bs as)"
  by (induction bs arbitrary: as) (auto dest: push_cache_alias_keeps [THEN subsetD])

lemma fold_push_normalized:
  "normalized_aliases as \<Longrightarrow>
   normalized_aliases (fold (\<lambda>alias as. push_cache_alias as (Some alias)) bs as)"
  by (induction bs arbitrary: as) (auto simp: push_cache_alias_normalized)

lemma push_cache_alias_covers:
  "normalize_flight_code a = Some a \<Longrightarrow>
   \<exists>e\<in>set (push_cache_alias as (Some a)). eq_ignore_ascii_case e a"
  using add_alias_mem by (simp add: push_cache_alias_add)

lemma fold_push_covers:
  "b \<in> set bs \<Longrightarrow> normalize_flight_code b = Some b \<Longrightarrow>
   \<exists>e\<in>set (fold (\<lambda>alias as. push_cache_alias as (Some alias)) bs as). eq_ignore_ascii_case e b"
proof (induction bs arbitrary: as)
  case (Cons c bs)
  show ?case
  proof (cases "b = c")
    case True
    then show ?thesis using push_cache_alias_covers [OF Cons.prems(2)] fold_push_keeps by fastforce
  next
    case False
    with Cons show ?thesis by simp
  qed
qed simp

lemma upsert_aliases_keeps: "set qa \<subseteq> set (upsert_aliases qa m)"
  using fold_push_keeps by (simp add: upsert_aliases_def split: option.split)

lemma upsert_aliases_normalized: "normalized_aliases qa \<Longrightarrow> normalized_aliases (upsert_aliases qa m)"
  by (simp add: upsert_aliases_def fold_push_normalized split: option.split)

subsection \<open>The cache as a timed map\<close>

lemma max_by_key_None [simp]: "max_by_key key xs = None \<longleftrightarrow> xs = []"
  by (cases xs) (auto split: option.split)

lemma max_by_key_mem: "max_by_key key xs = Some x \<Longrightarrow> x \<in> set xs \<and> (\<forall>y\<in>set xs. key y \<le> key x)"
  by (induction xs arbitrary: x) (fastforce split: option.splits if_splits)+

lemma max_by_key_unique:
  assumes "x \<in> set xs" and "\<And>y. y \<in> set xs \<Longrightarrow> y = x \<or> key y < key x"
  shows "max_by_key key xs = Some x"
proof -
  obtain z where z: "max_by_key key xs = Some z" using assms(1) by (cases "max_by_key key xs") auto
  with assms max_by_key_mem [OF z] show ?thesis by fastforce
qed

text \<open>Every entry was stored before \<open>now\<close>.\<close>

definition cache_before :: "instant \<Rightarrow> FlightTrackerState \<Rightarrow> bool" where
  "cache_before now st \<longleftrightarrow> (\<forall>e\<in>set (flight_info_cache st). ci_cached_at e < now)"

text \<open>What \<open>upsert\<close> does to the cache: one entry, stored now, in place of one or at the end.\<close>

lemma upsert_entry:
  assumes "normalized_aliases qa" and "qa \<noteq> []"
  obtains e where "flight_info_cache (upsert_flight_info_cache fmt st qa m now) =
      flight_info_cache st @ [e] \<or>
    (\<exists>i<length (flight_info_cache st).
       flight_info_cache (upsert_flight_info_cache fmt st qa m now) = (flight_info_cache st)[i := e])"
    and "ci_metadata e = m" and "ci_cached_at e = now"
    and "ci_expires_at e = flight_info_cache_expiry m now"
    and "\<And>a. a \<in> set qa \<Longrightarrow> \<exists>b\<in>set (ci_aliases e). eq_ignore_ascii_case b a"
proof -
  let ?fd = "Option.bind m (metadata_flight_date fmt)" and ?as = "upsert_aliases qa m"
  let ?cache = "flight_info_cache st"
  have ne: "?as \<noteq> []" using upsert_aliases_keeps [of qa m] assms(2) by fastforce
  have norm: "normalize_flight_code a = Some a" if "a \<in> set ?as" for a
    using upsert_aliases_normalized [OF assms(1)] that by (simp add: normalized_aliases_def)
  show ?thesis
  proof (cases "position (same_flight_entry ?as ?fd) ?cache")
    case None
    show ?thesis
      by (rule that [of "\<lparr>ci_aliases = ?as, ci_flight_date = ?fd, ci_metadata = m, ci_cached_at = now,
             ci_expires_at = flight_info_cache_expiry m now\<rparr>"])
        (use ne None upsert_aliases_keeps [of qa m] in
          \<open>auto simp: upsert_flight_info_cache_def Let_def\<close>)
  next
    case (Some i)
    let ?al = "fold (\<lambda>alias as. push_cache_alias as (Some alias)) ?as (ci_aliases (?cache ! i))"
    show ?thesis
    proof (rule that [of "(?cache ! i)\<lparr>ci_aliases := ?al, ci_flight_date := ?fd, ci_metadata := m,
           ci_cached_at := now, ci_expires_at := flight_info_cache_expiry m now\<rparr>"])
      show "\<exists>b\<in>set (ci_aliases ((?cache ! i)\<lparr>ci_aliases := ?al, ci_flight_date := ?fd, ci_metadata := m,
           ci_cached_at := now, ci_expires_at := flight_info_cache_expiry m now\<rparr>)). eq_ignore_ascii_case b a"
        if "a \<in> set qa" for a
        using fold_push_covers [of a ?as] norm upsert_aliases_keeps [of qa m] that by auto
    qed (use ne Some position_Some [OF Some] in
          \<open>auto simp: upsert_flight_info_cache_def Let_def intro!: disjI2 exI [of _ i]\<close>)
  qed
qed

lemma upsert_hit:
  assumes "cache_before now st" and "normalized_aliases qa" and "qa \<noteq> []"
    and "t < flight_info_cache_expiry m now"
  shows "cached_flight_info (upsert_flight_info_cache fmt st qa m now) qa t = Some m"
proof -
  obtain e where cases: "flight_info_cache (upsert_flight_info_cache fmt st qa m now) =
      flight_info_cache st @ [e] \<or>
    (\<exists>i<length (flight_info_cache st).
       flight_info_cache (upsert_flight_info_cache fmt st qa m now) = (flight_info_cache st)[i := e])"
    and e: "ci_metadata e = m" "ci_cached_at e = now"
    "ci_expires_at e = flight_info_cache_expiry m now"
    and al: "\<And>a. a \<in> set qa \<Longrightarrow> \<exists>b\<in>set (ci_aliases e). eq_ignore_ascii_case b a"
    using upsert_entry [OF assms(2,3)] by metis
  let ?c = "flight_info_cache (upsert_flight_info_cache fmt st qa m now)"
  have mem: "e \<in> set ?c" using cases by (auto simp: set_update_memI)
  have sub: "set ?c \<subseteq> insert e (set (flight_info_cache st))"
    using cases set_update_subset_insert by fastforce
  have "max_by_key ci_cached_at (filter (\<lambda>e. \<not> is_expired e t \<and> matches_any_alias e qa) ?c) = Some e"
  proof (rule max_by_key_unique)
    obtain a where "a \<in> set qa" using assms(3) by (cases qa) auto
    then show "e \<in> set (filter (\<lambda>e. \<not> is_expired e t \<and> matches_any_alias e qa) ?c)"
      using mem al e(3) assms(4) by (auto simp: is_expired_def matches_any_alias_def)
    show "y = e \<or> ci_cached_at y < ci_cached_at e"
      if "y \<in> set (filter (\<lambda>e. \<not> is_expired e t \<and> matches_any_alias e qa) ?c)" for y
      using that sub assms(1) e(2) by (auto simp: cache_before_def)
  qed
  then show ?thesis by (simp add: cached_flight_info_def e(1))
qed

lemma upsert_before:
  assumes "cache_before now st" and "now < later"
  shows "cache_before later (upsert_flight_info_cache fmt st qa m now)"
proof -
  have "ci_cached_at e < later" if "e \<in> set (flight_info_cache (upsert_flight_info_cache fmt st qa m now))" for e
  proof -
    have "e \<in> set (flight_info_cache st) \<or> ci_cached_at e = now"
      using that set_update_subset_insert
      by (fastforce simp: upsert_flight_info_cache_def Let_def split: if_splits option.splits)
    then show ?thesis using assms by (auto simp: cache_before_def)
  qed
  then show ?thesis by (simp add: cache_before_def)
qed

lemma expired_mono: "is_expired e now \<Longrightarrow> now \<le> t \<Longrightarrow> is_expired e t"
  by (simp add: is_expired_def)

lemma prune_lookup:
  assumes "now \<le> t"
  shows "cached_flight_info (fst (prune_flight_info_cache st now)) qa t = cached_flight_info st qa t"
proof -
  have "filter (\<lambda>e. \<not> is_expired e t \<and> matches_any_alias e qa) (flight_info_cache (fst (prune_flight_info_cache st now))) =
      filter (\<lambda>e. \<not> is_expired e t \<and> matches_any_alias e qa) (flight_info_cache st)"
    using expired_mono [OF _ assms] by (auto simp: prune_flight_info_cache_def Let_def intro!: filter_cong)
  then show ?thesis by (simp add: cached_flight_info_def)
qed

lemma prune_before: "cache_before now st \<Longrightarrow> cache_before now (fst (prune_flight_info_cache st t))"
  by (simp add: cache_before_def prune_flight_info_cache_def Let_def)

lemma before_mono: "cache_before now st \<Longrightarrow> now \<le> later \<Longrightarrow> cache_before later st"
  by (auto simp: cache_before_def)

section \<open>The interface of the cache\<close>

text \<open>
  What the metadata lookup relies on: \<open>ok now s\<close> says that everything in \<open>s\<close> was stored before
  \<open>now\<close>, \<open>usable k\<close> that a key names something, \<open>expiry v now\<close> until when a value stored now is served.
\<close>

locale timed_cache =
  fixes ok :: "int \<Rightarrow> 's \<Rightarrow> bool"
    and usable :: "'k \<Rightarrow> bool"
    and look :: "'s \<Rightarrow> 'k \<Rightarrow> int \<Rightarrow> 'v option"
    and store :: "'s \<Rightarrow> 'k \<Rightarrow> 'v \<Rightarrow> int \<Rightarrow> 's"
    and drop_expired :: "'s \<Rightarrow> int \<Rightarrow> 's"
    and expiry :: "'v \<Rightarrow> int \<Rightarrow> int"
  assumes hit: "ok now s \<Longrightarrow> usable k \<Longrightarrow> t < expiry v now \<Longrightarrow> look (store s k v now) k t = Some v"
    and drop_look: "now \<le> t \<Longrightarrow> look (drop_expired s now) k t = look s k t"
    and ok_store: "ok now s \<Longrightarrow> now < later \<Longrightarrow> ok later (store s k v now)"
    and ok_drop: "ok now s \<Longrightarrow> ok now (drop_expired s t)"
    and lives: "now < expiry v now"
begin

lemma served_until_expiry:
  assumes "ok now s" and "usable k" and "u \<le> t" and "t < expiry v now"
  shows "look (drop_expired (store (drop_expired s now) k v now) u) k t = Some v"
  using assms by (simp add: drop_look hit ok_drop)

lemma served_at_once: "ok now s \<Longrightarrow> usable k \<Longrightarrow> look (store s k v now) k now = Some v"
  by (simp add: hit lives)

lemma refresh_wins:
  assumes "ok now s" and "usable k" and "now < later" and "t < expiry w later"
  shows "look (store (store s k v now) k w later) k t = Some w"
  using assms by (simp add: hit ok_store)

end

interpretation info_cache: timed_cache cache_before
  "\<lambda>qa. normalized_aliases qa \<and> qa \<noteq> []" cached_flight_info "upsert_flight_info_cache fmt"
  "\<lambda>st now. fst (prune_flight_info_cache st now)" flight_info_cache_expiry for fmt
  by unfold_locales
    (auto simp: upsert_hit upsert_before prune_before prune_lookup expiry_in_future)

section \<open>Properties\<close>

text \<open>
  Claim C9. AviationStack is asked once: after a query was answered by the service (with metadata
  or with no such flight), the same query is answered from the cache with the same answer until it
  expires, even if the service is switched off or fails, and every answer is kept for a while.
\<close>

theorem metadata_asked_once:
  assumes "cache_before now st" and "query_cache_aliases i cs \<noteq> []"
    and "cached_flight_info st (query_cache_aliases i cs) now = None"
    and "cl_aviationstack_enabled client" and "cl_metadata client i cs = Some m"
  shows "now < flight_info_cache_expiry m now \<and>
    (\<forall>t client'. now \<le> t \<and> t < flight_info_cache_expiry m now \<longrightarrow>
      (let r = snd (lookup_aviationstack_metadata fmt
                 (fst (lookup_aviationstack_metadata fmt st client i cs now)) client' i cs t)
       in lk_checked r \<and> lk_metadata r = m \<and> \<not> lk_failed r))"
proof -
  let ?qa = "query_cache_aliases i cs"
  have us: "normalized_aliases ?qa \<and> ?qa \<noteq> []"
    using assms(2) query_cache_aliases_normalized by simp
  have miss: "cached_flight_info (fst (prune_flight_info_cache st now)) ?qa now = None"
    using assms(3) by (simp add: info_cache.drop_look)
  have first: "fst (lookup_aviationstack_metadata fmt st client i cs now) =
      upsert_flight_info_cache fmt (fst (prune_flight_info_cache st now)) ?qa m now"
    using assms(2,4,5) miss
    by (simp add: lookup_aviationstack_metadata_def prod.case_eq_if Let_def)
  have again: "cached_flight_info (fst (prune_flight_info_cache
      (upsert_flight_info_cache fmt (fst (prune_flight_info_cache st now)) ?qa m now) t)) ?qa t = Some m"
    if "t < flight_info_cache_expiry m now" for t
    using info_cache.served_until_expiry [OF assms(1) us order.refl that] .
  show ?thesis
    using assms(2) again
    by (simp add: expiry_in_future first)
      (simp add: lookup_aviationstack_metadata_def prod.case_eq_if Let_def)
qed

text \<open>
  The lookup never touches the flights, leaves no expired entry in the cache, and when the
  service fails or is not configured the pruned cache is unchanged and nothing is reported as found
  that was not cached.
\<close>

theorem metadata_lookup_safe:
  "flights (fst (lookup_aviationstack_metadata fmt st client i cs now)) = flights st \<and>
   (\<forall>e\<in>set (flight_info_cache (fst (lookup_aviationstack_metadata fmt st client i cs now))).
      \<not> is_expired e now) \<and>
   (cl_metadata client i cs = None \<or> \<not> cl_aviationstack_enabled client \<longrightarrow>
      fst (lookup_aviationstack_metadata fmt st client i cs now) = fst (prune_flight_info_cache st now) \<and>
      lk_metadata (snd (lookup_aviationstack_metadata fmt st client i cs now)) =
        (if query_cache_aliases i cs = [] then None
         else Option.bind (cached_flight_info st (query_cache_aliases i cs) now) (\<lambda>m. m)))"
proof (intro conjI impI)
  let ?st = "fst (prune_flight_info_cache st now)" and ?qa = "query_cache_aliases i cs"
  have p: "\<forall>e\<in>set (flight_info_cache ?st). \<not> is_expired e now"
    by (simp add: prune_flight_info_cache_def Let_def)
  have up: "\<forall>e\<in>set (flight_info_cache (upsert_flight_info_cache fmt ?st qa m now)). \<not> is_expired e now"
    for qa m
  proof -
    have "e \<in> set (flight_info_cache ?st) \<or> ci_expires_at e = flight_info_cache_expiry m now"
      if "e \<in> set (flight_info_cache (upsert_flight_info_cache fmt ?st qa m now))" for e
      using that set_update_subset_insert
      by (fastforce simp: upsert_flight_info_cache_def Let_def split: if_splits option.splits)
    then show ?thesis using p expiry_in_future [of now m] by (fastforce simp: is_expired_def)
  qed
  show "flights (fst (lookup_aviationstack_metadata fmt st client i cs now)) = flights st" by simp
  show "\<forall>e\<in>set (flight_info_cache (fst (lookup_aviationstack_metadata fmt st client i cs now))).
      \<not> is_expired e now"
    using p up by (simp add: lookup_aviationstack_metadata_def prod.case_eq_if Let_def split: option.split)
  assume "cl_metadata client i cs = None \<or> \<not> cl_aviationstack_enabled client"
  then show "fst (lookup_aviationstack_metadata fmt st client i cs now) = ?st"
    "lk_metadata (snd (lookup_aviationstack_metadata fmt st client i cs now)) =
        (if ?qa = [] then None else Option.bind (cached_flight_info st ?qa now) (\<lambda>m. m))"
    by (auto simp: lookup_aviationstack_metadata_def prod.case_eq_if Let_def info_cache.drop_look
        split: option.split)
qed

definition demo_client :: aviation_client where
  "demo_client = \<lparr>cl_aviationstack_enabled = True, cl_resolve_callsign = (\<lambda>cs. cs),
     cl_metadata = (\<lambda>_ _. Some None), cl_aircraft_by_hex = (\<lambda>_. Got None),
     cl_aircraft_by_callsign = (\<lambda>_. Got None), cl_route = (\<lambda>_. Elapsed)\<rparr>"

definition demo_fmt :: chrono_fmt where
  "demo_fmt = \<lparr>rfc3339_secs = (\<lambda>_. []), hour_minute = (\<lambda>_. []), year_month_day = (\<lambda>_. [])\<rparr>"

lemma demo_query: "query_cache_aliases (Callsign (str ''DLH1A'')) None \<noteq> []"
  by (simp add: query_cache_aliases_def push_cache_alias_def normalize_flight_code_def Let_def
      trim_def trim_start_def trim_end_def is_whitespace_def rstr_simps)

theorem metadata_asked_once_witness:
  "lk_checked (snd (lookup_aviationstack_metadata demo_fmt
     (fst (lookup_aviationstack_metadata demo_fmt default_state demo_client
       (Callsign (str ''DLH1A'')) None 0))
     (demo_client\<lparr>cl_aviationstack_enabled := False\<rparr>) (Callsign (str ''DLH1A'')) None (secs 599)))"
proof -
  have "cache_before 0 default_state"
    "cached_flight_info default_state (query_cache_aliases (Callsign (str ''DLH1A'')) None) 0 = None"
    "cl_aviationstack_enabled demo_client"
    "cl_metadata demo_client (Callsign (str ''DLH1A'')) None = Some None"
    by (simp_all add: cache_before_def default_state_def cached_flight_info_def demo_client_def)
  from metadata_asked_once [OF this(1) demo_query this(2-4), of demo_fmt]
  show ?thesis by (simp add: Let_def flight_info_cache_expiry_def minutes_def secs_def)
qed

theorem metadata_lookup_safe_witness:
  "lk_metadata (snd (lookup_aviationstack_metadata demo_fmt default_state
     (demo_client\<lparr>cl_aviationstack_enabled := False\<rparr>) (Callsign (str ''DLH1A'')) None 0)) = None"
  using metadata_lookup_safe [of demo_fmt default_state "demo_client\<lparr>cl_aviationstack_enabled := False\<rparr>"
      "Callsign (str ''DLH1A'')" None 0]
  by (simp add: cached_flight_info_def default_state_def)

end
