(* ===== verification/Flight_Phase.thy ===== *)
theory Flight_Phase imports Flight_Types begin

text \<open>
  \<^verbatim>\<open>aviation/tracker/phase.rs\<close>: the flight phase read off one ADS-B sample, the emergency
  squawks and the counter behind the diversion alert.
\<close>

definition CLIMB_RATE_THRESHOLD :: i64 where "CLIMB_RATE_THRESHOLD = 500"
definition DESCENT_RATE_THRESHOLD :: i64 where "DESCENT_RATE_THRESHOLD = - 500"
definition CRUISE_RATE_THRESHOLD :: i64 where "CRUISE_RATE_THRESHOLD = 300"
definition CRUISE_MIN_ALTITUDE :: i64 where "CRUISE_MIN_ALTITUDE = 10000"
definition APPROACH_MAX_ALTITUDE :: i64 where "APPROACH_MAX_ALTITUDE = 10000"
definition GROUND_MAX_ALTITUDE :: i64 where "GROUND_MAX_ALTITUDE = 200"
definition GROUND_MAX_SPEED :: f64 where "GROUND_MAX_SPEED = 30"
definition TAKEOFF_MIN_SPEED :: f64 where "TAKEOFF_MIN_SPEED = 60"
definition CRUISE_STABLE_POLLS :: u32 where "CRUISE_STABLE_POLLS = 2"

lemmas phase_consts = CLIMB_RATE_THRESHOLD_def DESCENT_RATE_THRESHOLD_def CRUISE_RATE_THRESHOLD_def
  CRUISE_MIN_ALTITUDE_def APPROACH_MAX_ALTITUDE_def GROUND_MAX_ALTITUDE_def GROUND_MAX_SPEED_def
  TAKEOFF_MIN_SPEED_def CRUISE_STABLE_POLLS_def

definition altitude_ft :: "NearbyAircraft \<Rightarrow> i64 option" where
  "altitude_ft ac =
     (case ac_alt_baro ac of Some (Feet ft) \<Rightarrow> Some ft | Some AltGround \<Rightarrow> Some 0 | None \<Rightarrow> None)"

definition vertical_rate :: "NearbyAircraft \<Rightarrow> i64 option" where
  "vertical_rate ac = or_else (ac_baro_rate ac) (ac_geom_rate ac)"

definition unwrap_or :: "'a option \<Rightarrow> 'a \<Rightarrow> 'a" where
  "unwrap_or x d = (case x of Some a \<Rightarrow> a | None \<Rightarrow> d)"

definition is_on_ground :: "NearbyAircraft \<Rightarrow> bool" where
  "is_on_ground ac =
     (case ac_alt_baro ac of
        Some AltGround \<Rightarrow> True
      | Some (Feet ft) \<Rightarrow> ft < GROUND_MAX_ALTITUDE \<and> unwrap_or (ac_gs ac) 0 < GROUND_MAX_SPEED
      | None \<Rightarrow> False)"

definition is_airborne_phase :: "FlightPhase \<Rightarrow> bool" where
  "is_airborne_phase p = (p \<in> {Takeoff, Climb, Cruise, Descent, Approach})"

definition update_divert_counter :: "u32 \<Rightarrow> bool \<Rightarrow> u32 \<times> bool" where
  "update_divert_counter n is_anomalous =
     (if is_anomalous then (let n = saturating_inc n in (n, n \<ge> DIVERT_CONSECUTIVE_POLLS))
      else (0, False))"

definition detect_phase :: "TrackedFlight \<Rightarrow> NearbyAircraft \<Rightarrow> FlightPhase" where
  "detect_phase f ac =
     (let on_ground = is_on_ground ac;
          alt = altitude_ft ac;
          vrate = vertical_rate ac;
          gs = unwrap_or (ac_gs ac) 0;
          has_approach_mode =
            is_some_and (ac_nav_modes ac) (\<lambda>modes. \<exists>m\<in>set modes. m = str ''approach'')
      in
      if on_ground \<and> fl_phase f \<notin> {Ground, Unknown} then Landing
      else if on_ground then Ground
      else if fl_phase f \<in> {Ground, Unknown} \<and> gs > TAKEOFF_MIN_SPEED \<and> unwrap_or vrate 0 > 0
      then Takeoff
      else if is_some_and vrate (\<lambda>vr. vr < DESCENT_RATE_THRESHOLD)
      then (if is_some_and alt (\<lambda>alt_val. alt_val < APPROACH_MAX_ALTITUDE \<or> has_approach_mode \<or>
                 fl_phase f = Approach)
            then Approach else Descent)
      else if has_approach_mode \<and> unwrap_or vrate 0 < 0 then Approach
      else if is_some_and alt (\<lambda>alt_val. is_some_and vrate (\<lambda>vr.
                 alt_val > CRUISE_MIN_ALTITUDE \<and> \<bar>vr\<bar> < CRUISE_RATE_THRESHOLD \<and>
                 fl_polls_since_change f \<ge> CRUISE_STABLE_POLLS \<and>
                 fl_phase f \<notin> {Descent, Approach}))
      then Cruise
      else if is_some_and vrate (\<lambda>vr. vr > CLIMB_RATE_THRESHOLD) then Climb
      else fl_phase f)"

definition emergency_squawk_meaning :: "rstr \<Rightarrow> rstr option" where
  "emergency_squawk_meaning squawk =
     (if squawk = str ''7500'' then Some (str ''Hijack'')
      else if squawk = str ''7600'' then Some (str ''Radio Failure'')
      else if squawk = str ''7700'' then Some (str ''Emergency'')
      else None)"

section \<open>Lemmas\<close>

text \<open>Which phase can follow which: the specification of the phase machine.\<close>

definition phase_step :: "FlightPhase \<Rightarrow> FlightPhase \<Rightarrow> bool" where
  "phase_step old new =
     (case new of
        Landing \<Rightarrow> old \<notin> {Ground, Unknown}
      | Ground \<Rightarrow> old \<in> {Ground, Unknown}
      | Takeoff \<Rightarrow> old \<in> {Ground, Unknown, Takeoff}
      | Cruise \<Rightarrow> old \<notin> {Descent, Approach}
      | Unknown \<Rightarrow> old = Unknown
      | _ \<Rightarrow> True)"

lemma detect_phase_step: "phase_step (fl_phase f) (detect_phase f ac)"
  by (cases "fl_phase f") (simp_all add: phase_step_def detect_phase_def Let_def is_some_and_iff)

lemma detect_phase_on_ground:
  "is_on_ground ac \<Longrightarrow>
   detect_phase f ac = (if fl_phase f \<in> {Ground, Unknown} then Ground else Landing)"
  by (simp add: detect_phase_def Let_def)

lemma detect_phase_Landing_iff:
  "detect_phase f ac = Landing \<longleftrightarrow>
     (is_on_ground ac \<and> fl_phase f \<notin> {Ground, Unknown}) \<or> (\<not> is_on_ground ac \<and> fl_phase f = Landing \<and>
      detect_phase f ac = Landing)"
  by (auto simp: detect_phase_def Let_def)

lemma detect_phase_Landing:
  "fl_phase f \<noteq> Landing \<Longrightarrow>
   detect_phase f ac = Landing \<longleftrightarrow> is_on_ground ac \<and> fl_phase f \<notin> {Ground, Unknown}"
  by (auto simp: detect_phase_def Let_def)

text \<open>
  The diversion counter over a run of samples: an alert is raised exactly when the last three
  samples, or more, were anomalous.
\<close>

fun divert_run :: "u32 \<Rightarrow> bool list \<Rightarrow> u32 \<times> bool" where
  "divert_run n [] = (n, False)"
| "divert_run n [a] = update_divert_counter n a"
| "divert_run n (a # b # as) = divert_run (fst (update_divert_counter n a)) (b # as)"

definition trailing_anomalies :: "bool list \<Rightarrow> nat" where
  "trailing_anomalies as = length (takeWhile id (rev as))"

lemma divert_run_snoc: "divert_run n (as @ [a]) = update_divert_counter (fst (divert_run n as)) a"
proof (induction n as rule: divert_run.induct)
  case (3 n a b as)
  then show ?case by (cases as) auto
qed auto

lemma divert_run_count:
  "unat (fst (divert_run 0 as)) = min (trailing_anomalies as) (2 ^ 32 - 1)"
proof (induction as rule: rev_induct)
  case Nil
  then show ?case by (simp add: trailing_anomalies_def)
next
  case (snoc a as)
  show ?case
  proof (cases a)
    case True
    then have "unat (fst (divert_run 0 (as @ [a]))) = min (unat (fst (divert_run 0 as)) + 1) (2 ^ 32 - 1)"
      by (simp add: divert_run_snoc update_divert_counter_def Let_def unat_saturating_inc)
    with snoc True show ?thesis by (simp add: trailing_anomalies_def)
  next
    case False
    then show ?thesis by (simp add: divert_run_snoc update_divert_counter_def trailing_anomalies_def)
  qed
qed

lemma update_divert_counter_alert:
  "snd (update_divert_counter n a) \<longleftrightarrow> a \<and> 3 \<le> unat (fst (update_divert_counter n a))"
  by (simp add: update_divert_counter_def Let_def DIVERT_CONSECUTIVE_POLLS_def word_le_nat_alt)

lemma divert_run_alert:
  "as \<noteq> [] \<Longrightarrow> snd (divert_run 0 as) \<longleftrightarrow> 3 \<le> trailing_anomalies as"
proof -
  assume "as \<noteq> []"
  then obtain bs a where as: "as = bs @ [a]" by (meson rev_exhaust)
  have "snd (divert_run 0 as) \<longleftrightarrow> a \<and> 3 \<le> unat (fst (divert_run 0 as))"
    unfolding as divert_run_snoc by (rule update_divert_counter_alert)
  also have "\<dots> \<longleftrightarrow> a \<and> 3 \<le> trailing_anomalies as"
    by (auto simp: divert_run_count)
  also have "\<dots> \<longleftrightarrow> 3 \<le> trailing_anomalies as"
    unfolding as by (auto simp: trailing_anomalies_def)
  finally show ?thesis .
qed

lemma emergency_squawk_domain:
  "emergency_squawk_meaning s \<noteq> None \<longleftrightarrow> s \<in> {str ''7500'', str ''7600'', str ''7700''}"
  by (simp add: emergency_squawk_meaning_def)

text \<open>
  Whatever an aircraft reports, the next phase is one that can follow: no landing without
  having been airborne, no return to the ground without a landing, a takeoff only from the ground,
  and no cruise out of a descent or an approach.
\<close>

theorem phase_machine_respected:
  "(detect_phase f ac = Landing \<longrightarrow> fl_phase f \<notin> {Ground, Unknown}) \<and>
   (detect_phase f ac = Ground \<longrightarrow> fl_phase f \<in> {Ground, Unknown}) \<and>
   (detect_phase f ac = Takeoff \<longrightarrow> fl_phase f \<in> {Ground, Unknown, Takeoff}) \<and>
   (detect_phase f ac = Cruise \<longrightarrow> fl_phase f \<notin> {Descent, Approach}) \<and>
   (detect_phase f ac = Unknown \<longrightarrow> fl_phase f = Unknown) \<and>
   (is_on_ground ac \<longrightarrow> detect_phase f ac \<in> {Ground, Landing})"
  using detect_phase_step [of f ac] detect_phase_on_ground [of ac f]
  by (auto simp: phase_step_def)

theorem phase_machine_respected_witness:
  "detect_phase ((new_flight (Callsign []) None [] 0 False)\<lparr>fl_phase := Approach\<rparr>)
     \<lparr>ac_hex = None, ac_flight = None, ac_r = None, ac_t = None, ac_alt_baro = Some AltGround,
      ac_lat = None, ac_lon = None, ac_gs = None, ac_baro_rate = None, ac_geom_rate = None,
      ac_squawk = None, ac_nav_modes = None, ac_rssi = None, ac_seen_pos = None\<rparr> \<in> {Ground, Landing}"
  (is "detect_phase ?f ?ac \<in> _")
proof -
  have "is_on_ground ?ac" by (simp add: is_on_ground_def)
  then show ?thesis using phase_machine_respected [of ?f ?ac] by blast
qed

text \<open>
  Over any run of position samples, the diversion alert is raised with a sample exactly
  when it and at least the two before it head away from the destination; the 32-bit counter
  saturates, so a longer run never wraps round and falls silent.
\<close>

theorem divert_alert_exact:
  assumes "as \<noteq> []"
  shows "snd (divert_run 0 as) \<longleftrightarrow> 3 \<le> trailing_anomalies as"
  by (rule divert_run_alert [OF assms])

theorem divert_alert_exact_witness:
  "snd (divert_run 0 [True, False, True, True, True]) \<and> \<not> snd (divert_run 0 [True, True])"
  using divert_alert_exact [of "[True, False, True, True, True]"] divert_alert_exact [of "[True, True]"]
  by (simp add: trailing_anomalies_def)

end
