(* ===== verification/Poll_Schedule.thy ===== *)
theory Poll_Schedule imports Flight_Types begin

text \<open>
  \<^verbatim>\<open>aviation/tracker/schedule.rs\<close>: when a tracked flight is polled next. A flight whose
  aircraft has not been seen follows the pending schedule around its departure and expires;
  any other flight is polled at an interval that depends on its phase.
\<close>

definition PENDING_POLL_60_SEC :: duration where [time_simps]: "PENDING_POLL_60_SEC = secs 60"
definition PENDING_POLL_2_MIN :: duration where [time_simps]: "PENDING_POLL_2_MIN = secs 120"
definition PENDING_POLL_5_MIN :: duration where [time_simps]: "PENDING_POLL_5_MIN = secs 300"
definition PENDING_POLL_10_MIN :: duration where [time_simps]: "PENDING_POLL_10_MIN = secs 600"
definition PENDING_POLL_15_MIN :: duration where [time_simps]: "PENDING_POLL_15_MIN = secs 900"
definition PENDING_POLL_30_MIN :: duration where [time_simps]: "PENDING_POLL_30_MIN = secs 1800"

definition PENDING_SCHEDULED_WAKE_BEFORE :: duration where
  [time_simps]: "PENDING_SCHEDULED_WAKE_BEFORE = secs (3 * 60 * 60)"
definition PENDING_SCHEDULED_LOCK_IN_BEFORE :: duration where
  [time_simps]: "PENDING_SCHEDULED_LOCK_IN_BEFORE = secs (60 * 60)"
definition PENDING_SCHEDULED_HUNT_BEFORE :: duration where
  [time_simps]: "PENDING_SCHEDULED_HUNT_BEFORE = secs (30 * 60)"
definition PENDING_SCHEDULED_NEAR_AFTER :: duration where
  [time_simps]: "PENDING_SCHEDULED_NEAR_AFTER = secs (45 * 60)"
definition PENDING_SCHEDULED_MID_AFTER :: duration where
  [time_simps]: "PENDING_SCHEDULED_MID_AFTER = secs (3 * 60 * 60)"
definition PENDING_SCHEDULED_EXPIRE_AFTER :: duration where
  [time_simps]: "PENDING_SCHEDULED_EXPIRE_AFTER = secs (12 * 60 * 60)"
definition PENDING_UNKNOWN_FAST_AFTER_TRACK :: duration where
  [time_simps]: "PENDING_UNKNOWN_FAST_AFTER_TRACK = secs (10 * 60)"
definition PENDING_UNKNOWN_NORMAL_AFTER_TRACK :: duration where
  [time_simps]: "PENDING_UNKNOWN_NORMAL_AFTER_TRACK = secs (6 * 60 * 60)"
definition PENDING_UNKNOWN_EXPIRE_AFTER :: duration where
  [time_simps]: "PENDING_UNKNOWN_EXPIRE_AFTER = secs (24 * 60 * 60)"

text \<open>\<open>Active interval starts_at refresh_at expires_at\<close>\<close>

datatype PendingPollSchedule =
  Active duration instant "instant option" instant | ScheduleExpired

datatype PollReadiness = Due | NotDue instant | Expired

definition is_pending_adsb :: "TrackedFlight \<Rightarrow> bool" where
  "is_pending_adsb f =
     (fl_target_confirmation f = Pending \<or>
      (fl_target_confirmation f = AircraftVisible \<and> fl_last_visible_at f = None))"

definition live_poll_interval :: "TrackedFlight \<Rightarrow> duration" where
  "live_poll_interval f =
     (if fl_polls_since_change f < 5 \<or> fl_phase f \<in> {Takeoff, Approach, Landing} then POLL_FAST
      else if fl_phase f \<in> {Climb, Descent} then POLL_NORMAL
      else POLL_SLOW)"

definition pending_unknown_poll_schedule :: "TrackedFlight \<Rightarrow> instant \<Rightarrow> PendingPollSchedule" where
  "pending_unknown_poll_schedule f now =
     (let expires_at = fl_tracked_at f + PENDING_UNKNOWN_EXPIRE_AFTER in
      if now \<ge> expires_at then ScheduleExpired
      else
        let age = now - fl_tracked_at f;
            interval = (if age < PENDING_UNKNOWN_FAST_AFTER_TRACK then PENDING_POLL_2_MIN
                        else if age < PENDING_UNKNOWN_NORMAL_AFTER_TRACK then PENDING_POLL_10_MIN
                        else PENDING_POLL_30_MIN)
        in Active interval (fl_tracked_at f) None expires_at)"

definition pending_poll_schedule :: "TrackedFlight \<Rightarrow> instant \<Rightarrow> PendingPollSchedule" where
  "pending_poll_schedule f now =
     (case fl_scheduled_departure_at f of
        Some sched \<Rightarrow>
          (let expires_at = sched + PENDING_SCHEDULED_EXPIRE_AFTER in
           if fl_tracked_at f \<ge> expires_at then pending_unknown_poll_schedule f now
           else if now \<ge> expires_at then ScheduleExpired
           else
             let until_departure = sched - now;
                 since_departure = now - sched;
                 wake_at = sched - PENDING_SCHEDULED_WAKE_BEFORE;
                 lock_in_at = sched - PENDING_SCHEDULED_LOCK_IN_BEFORE;
                 hunt_at = sched - PENDING_SCHEDULED_HUNT_BEFORE;
                 near_after_ends_at = sched + PENDING_SCHEDULED_NEAR_AFTER;
                 mid_after_ends_at = sched + PENDING_SCHEDULED_MID_AFTER
             in
             if until_departure > PENDING_SCHEDULED_WAKE_BEFORE
             then Active PENDING_POLL_15_MIN wake_at (Some wake_at) expires_at
             else if until_departure > PENDING_SCHEDULED_LOCK_IN_BEFORE
             then Active PENDING_POLL_15_MIN wake_at (Some lock_in_at) expires_at
             else if until_departure > PENDING_SCHEDULED_HUNT_BEFORE
             then Active PENDING_POLL_5_MIN lock_in_at (Some hunt_at) expires_at
             else if now \<le> sched
             then Active PENDING_POLL_60_SEC hunt_at (Some sched) expires_at
             else if since_departure \<le> PENDING_SCHEDULED_NEAR_AFTER
             then Active PENDING_POLL_2_MIN sched (Some near_after_ends_at) expires_at
             else if since_departure \<le> PENDING_SCHEDULED_MID_AFTER
             then Active PENDING_POLL_5_MIN near_after_ends_at (Some mid_after_ends_at) expires_at
             else Active PENDING_POLL_15_MIN mid_after_ends_at None expires_at)
      | None \<Rightarrow> pending_unknown_poll_schedule f now)"

definition next_due_after_last_poll :: "instant option \<Rightarrow> duration \<Rightarrow> instant \<Rightarrow> instant" where
  "next_due_after_last_poll last_poll interval now =
     (case last_poll of Some t \<Rightarrow> t + interval | None \<Rightarrow> now)"

definition readiness_at :: "instant \<Rightarrow> instant \<Rightarrow> PollReadiness" where
  "readiness_at next_due now = (if next_due \<le> now then Due else NotDue next_due)"

definition pending_due_at ::
  "TrackedFlight \<Rightarrow> instant \<Rightarrow> duration \<Rightarrow> instant \<Rightarrow> instant option \<Rightarrow> instant \<Rightarrow> instant" where
  "pending_due_at f now interval starts_at refresh_at expires_at =
     (let due_at = next_due_after_last_poll (fl_last_adsb_poll_at f) interval now;
          due_at = max due_at starts_at;
          due_at = (case refresh_at of
                      Some r \<Rightarrow> if r > now \<and> r < due_at then r else due_at
                    | None \<Rightarrow> due_at)
      in if due_at \<le> expires_at then due_at else expires_at)"

definition poll_readiness :: "TrackedFlight \<Rightarrow> instant \<Rightarrow> PollReadiness" where
  "poll_readiness f now =
     (if is_pending_adsb f then
        (case pending_poll_schedule f now of
           ScheduleExpired \<Rightarrow> Expired
         | Active interval starts_at refresh_at expires_at \<Rightarrow>
             readiness_at (pending_due_at f now interval starts_at refresh_at expires_at) now)
      else readiness_at
             (next_due_after_last_poll (fl_last_adsb_poll_at f) (live_poll_interval f) now) now)"

fun min_opt :: "instant list \<Rightarrow> instant option" where
  "min_opt [] = None"
| "min_opt (x # xs) = (case min_opt xs of None \<Rightarrow> Some x | Some m \<Rightarrow> Some (min x m))"

definition wake_time :: "instant \<Rightarrow> PollReadiness \<Rightarrow> instant" where
  "wake_time now r = (case r of NotDue t \<Rightarrow> t | _ \<Rightarrow> now)"

definition next_poll_at :: "TrackedFlight list \<Rightarrow> instant \<Rightarrow> instant option" where
  "next_poll_at fs now = min_opt (map (\<lambda>f. wake_time now (poll_readiness f now)) fs)"

section \<open>Lemmas\<close>

lemma readiness_at_NotDue [simp]: "readiness_at d now = NotDue t \<longleftrightarrow> t = d \<and> now < d"
  by (auto simp: readiness_at_def)

lemma readiness_at_not_Expired [simp]: "readiness_at d now \<noteq> Expired"
  by (simp add: readiness_at_def)

lemma poll_readiness_NotDue_future: "poll_readiness f now = NotDue t \<Longrightarrow> now < t"
  by (auto simp: poll_readiness_def split: if_splits PendingPollSchedule.splits)

lemma min_opt_None [simp]: "min_opt xs = None \<longleftrightarrow> xs = []"
  by (cases xs) (auto split: option.splits)

lemma min_opt_eq: "min_opt xs = (if xs = [] then None else Some (Min (set xs)))"
proof (induction xs)
  case (Cons x xs)
  then show ?case by (cases "xs = []") simp_all
qed simp

text \<open>The tracker's sleep ends at the earliest wake-up of its flights and never in the past.\<close>

lemma next_poll_at_least:
  "next_poll_at fs now = Some t \<Longrightarrow> f \<in> set fs \<Longrightarrow> t \<le> wake_time now (poll_readiness f now)"
  by (auto simp: next_poll_at_def min_opt_eq split: if_splits)

lemma wake_time_ge: "now \<le> wake_time now (poll_readiness f now)"
  using poll_readiness_NotDue_future [of f now]
  by (auto simp: wake_time_def less_imp_le split: PollReadiness.split)

lemma next_poll_at_now: "next_poll_at fs now = Some t \<Longrightarrow> now \<le> t"
proof -
  assume a: "next_poll_at fs now = Some t"
  then have ne: "fs \<noteq> []" and t: "t = Min ((\<lambda>f. wake_time now (poll_readiness f now)) ` set fs)"
    by (auto simp: next_poll_at_def min_opt_eq split: if_splits)
  from ne wake_time_ge show ?thesis unfolding t by (subst Min_ge_iff) auto
qed

text \<open>The pending schedule: its shape in every branch.\<close>

lemma pending_unknown_cases:
  assumes "pending_unknown_poll_schedule f now = Active iv st rf ex"
  shows "ex = fl_tracked_at f + secs 86400 \<and> now < ex \<and> secs 60 \<le> iv \<and> iv \<le> secs 1800 \<and>
    st = fl_tracked_at f \<and> rf = None"
  using assms
  by (auto simp: pending_unknown_poll_schedule_def Let_def time_simps split: if_splits)

lemma pending_schedule_interval:
  assumes "pending_poll_schedule f now = Active iv st rf ex"
  shows "secs 60 \<le> iv \<and> iv \<le> secs 1800"
  using assms
  by (auto simp: pending_poll_schedule_def Let_def time_simps split: option.splits if_splits
      dest!: pending_unknown_cases)

lemma pending_schedule_now:
  assumes "pending_poll_schedule f now = Active iv st rf ex"
  shows "now < ex"
  using assms
  by (auto simp: pending_poll_schedule_def Let_def split: option.splits if_splits
      dest!: pending_unknown_cases)

lemma pending_schedule_start:
  assumes "pending_poll_schedule f now = Active iv st rf ex" and "now < st"
    and "fl_tracked_at f \<le> now"
  shows "rf = Some st"
  using assms
  by (auto simp: pending_poll_schedule_def Let_def time_simps split: option.splits if_splits
      dest!: pending_unknown_cases)

text \<open>The instant at which a flight that is still pending is given up.\<close>

definition pending_deadline :: "TrackedFlight \<Rightarrow> instant" where
  "pending_deadline f =
     (case fl_scheduled_departure_at f of
        Some sched \<Rightarrow>
          if fl_tracked_at f \<ge> sched + secs 43200 then fl_tracked_at f + secs 86400
          else sched + secs 43200
      | None \<Rightarrow> fl_tracked_at f + secs 86400)"

lemma pending_schedule_expired_iff:
  "pending_poll_schedule f now = ScheduleExpired \<longleftrightarrow> pending_deadline f \<le> now"
  by (auto simp: pending_poll_schedule_def pending_unknown_poll_schedule_def pending_deadline_def
      Let_def time_simps split: option.splits)

lemma poll_readiness_Expired_iff:
  "poll_readiness f now = Expired \<longleftrightarrow> is_pending_adsb f \<and> pending_deadline f \<le> now"
  by (auto simp: poll_readiness_def pending_schedule_expired_iff [symmetric]
      split: PendingPollSchedule.splits)

lemma pending_deadline_future: "fl_tracked_at f < pending_deadline f"
  by (auto simp: pending_deadline_def time_simps split: option.splits)

lemma pending_schedule_expires:
  "pending_poll_schedule f now = Active iv st rf ex \<Longrightarrow> ex = pending_deadline f"
  by (auto simp: pending_poll_schedule_def pending_deadline_def Let_def time_simps
      split: option.splits if_splits dest!: pending_unknown_cases)

lemma pending_due_le_deadline:
  "pending_due_at f now iv st rf ex \<le> ex"
  by (simp add: pending_due_at_def Let_def)

lemma pending_NotDue_bound:
  assumes "poll_readiness f now = NotDue t" and "is_pending_adsb f"
  shows "t \<le> pending_deadline f"
  using assms pending_due_le_deadline
  by (auto simp: poll_readiness_def dest: pending_schedule_expires split: PendingPollSchedule.splits)

lemma live_poll_interval_bounds: "secs 30 \<le> live_poll_interval f \<and> live_poll_interval f \<le> secs 120"
  by (simp add: live_poll_interval_def time_simps)

lemma pending_Due:
  assumes "pending_due_at f now iv st rf ex \<le> now" and "now < ex" and "fl_last_adsb_poll_at f = Some p"
  shows "p + iv \<le> now \<and> st \<le> now"
  using assms
  by (auto simp: pending_due_at_def next_due_after_last_poll_def Let_def split: option.splits if_splits)

section \<open>Properties\<close>

text \<open>
  A flight expires exactly when its aircraft was never seen and its deadline has passed:
  twelve hours after the scheduled departure, or twenty-four hours after it was tracked when no
  departure is known or the departure was already that far in the past.
\<close>

theorem pending_expiry_exact:
  "poll_readiness f now = Expired \<longleftrightarrow>
     (fl_target_confirmation f = Pending \<or>
      (fl_target_confirmation f = AircraftVisible \<and> fl_last_visible_at f = None)) \<and>
     (case fl_scheduled_departure_at f of
        Some sched \<Rightarrow> if fl_tracked_at f \<ge> sched + hours 12 then fl_tracked_at f + hours 24 \<le> now
                       else sched + hours 12 \<le> now
      | None \<Rightarrow> fl_tracked_at f + hours 24 \<le> now)"
  by (simp add: poll_readiness_Expired_iff is_pending_adsb_def pending_deadline_def time_simps
      split: option.split)

text \<open>
  The service is never asked about a flight again before its interval has passed: thirty
  seconds for a flight that is followed, one minute for one that is still awaited.
\<close>

theorem poll_rate_limited:
  assumes "poll_readiness f now = Due" and "fl_last_adsb_poll_at f = Some p"
  shows "p + secs 30 \<le> now \<and> (is_pending_adsb f \<longrightarrow> p + secs 60 \<le> now)"
proof (cases "is_pending_adsb f")
  case False
  then show ?thesis
    using assms live_poll_interval_bounds [of f]
    by (auto simp: poll_readiness_def readiness_at_def next_due_after_last_poll_def split: if_splits)
next
  case True
  then obtain iv st rf ex where a: "pending_poll_schedule f now = Active iv st rf ex"
    and d: "pending_due_at f now iv st rf ex \<le> now"
    using assms(1) by (auto simp: poll_readiness_def readiness_at_def split: PendingPollSchedule.splits if_splits)
  have "p + iv \<le> now" using pending_Due [OF d pending_schedule_now [OF a] assms(2)] by simp
  with pending_schedule_interval [OF a] show ?thesis by (simp add: secs_def)
qed

text \<open>
  Claim C14. The tracker sleeps exactly until the earliest of its flights needs it: never into the
  past, never past the time any flight is due, and never past the deadline of an awaited flight.
\<close>

theorem sleep_until_first_due:
  assumes "next_poll_at fs now = Some t"
  shows "now \<le> t \<and> (\<forall>f\<in>set fs. t \<le> wake_time now (poll_readiness f now)) \<and>
     (\<exists>f\<in>set fs. t = wake_time now (poll_readiness f now)) \<and>
     (\<forall>f\<in>set fs. is_pending_adsb f \<and> now < pending_deadline f \<longrightarrow> t \<le> pending_deadline f)"
proof (intro conjI ballI impI)
  show "now \<le> t" using next_poll_at_now [OF assms] .
  show le: "t \<le> wake_time now (poll_readiness f now)" if "f \<in> set fs" for f
    using next_poll_at_least [OF assms that] .
  have "t \<in> (\<lambda>f. wake_time now (poll_readiness f now)) ` set fs"
    using assms by (auto simp: next_poll_at_def min_opt_eq split: if_splits)
  then show "\<exists>f\<in>set fs. t = wake_time now (poll_readiness f now)" by auto
  show "t \<le> pending_deadline f" if "f \<in> set fs" and "is_pending_adsb f \<and> now < pending_deadline f" for f
    using le [OF that(1)] that(2) pending_NotDue_bound [of f now]
    by (cases "poll_readiness f now") (auto simp: wake_time_def)
qed

theorem poll_rate_limited_witness:
  "\<exists>f. is_pending_adsb f \<and> poll_readiness f (secs 120) = Due \<and> 0 + secs 60 \<le> secs 120"
proof -
  let ?f = "(new_flight (Callsign (str ''DLH1A'')) None (str ''alice'') 0 False)
    \<lparr>fl_last_adsb_poll_at := Some 0\<rparr>"
  have p: "is_pending_adsb ?f" by (simp add: is_pending_adsb_def new_flight_def)
  have d: "poll_readiness ?f (secs 120) = Due"
    by (simp add: poll_readiness_def pending_poll_schedule_def pending_unknown_poll_schedule_def
        is_pending_adsb_def new_flight_def time_simps pending_due_at_def
        next_due_after_last_poll_def readiness_at_def Let_def)
  have l: "fl_last_adsb_poll_at ?f = Some 0" by simp
  from poll_rate_limited [OF d l] p d show ?thesis by blast
qed

theorem sleep_until_first_due_witness:
  "\<exists>f t. next_poll_at [f] 0 = Some t \<and> 0 \<le> t"
proof -
  let ?f = "new_flight (Callsign (str ''DLH1A'')) None (str ''alice'') 0 False"
  have "next_poll_at [?f] 0 = Some (wake_time 0 (poll_readiness ?f 0))" by (simp add: next_poll_at_def)
  from this sleep_until_first_due [OF this] show ?thesis by blast
qed

end
