(* ===== verification/Flight_Advance.thy ===== *)
theory Flight_Advance imports Flight_Phase Poll_Schedule Debug_Journal Flight_Format begin

text \<open>
  \<^verbatim>\<open>aviation/tracker/advance.rs\<close>: the Advance, the pure transition of a tracked flight by one
  observation. Parameters (\<open>advance_env\<close>): the text forms of chrono, the airport table and the
  great-circle bearing of the crate \<^verbatim>\<open>random_flight\<close>. The one function of the source is split
  into its consecutive blocks; \<open>advance_flight\<close> composes them in the order of the code.
\<close>

record advance_env =
  en_fmt :: chrono_fmt
  en_airports :: airport_table
  en_bearing :: "f64 \<Rightarrow> f64 \<Rightarrow> f64 \<Rightarrow> f64 \<Rightarrow> f64"

datatype PollOutcome = Hit NearbyAircraft | Miss | PollError | Timeout

record Observation =
  used_hex :: bool
  outcome :: PollOutcome

datatype Emit =
    EmitAdsbVisible
  | EmitTakeoff
  | EmitCruise
  | EmitDescent
  | EmitApproach
  | EmitLanding "instant option"
  | EmitSquawkEmergency rstr rstr
  | EmitPossibleDivert
  | EmitTrackingLost
  | EmitPendingExpired

datatype RemovalReason = TrackingLost int

datatype Followup = FetchRoute rstr

record FlightUpdate =
  emits :: "Emit list"
  debug :: "FlightTrackerDebugEvent list"
  followups :: "Followup list"
  removal :: "RemovalReason option"

definition empty_update :: FlightUpdate where
  "empty_update = \<lparr>emits = [], debug = [], followups = [], removal = None\<rparr>"

fun format_emit :: "TrackedFlight \<Rightarrow> Emit \<Rightarrow> instant \<Rightarrow> rstr" where
  "format_emit f EmitAdsbVisible now = msg_adsb_visible f"
| "format_emit f EmitTakeoff now = msg_takeoff f"
| "format_emit f EmitCruise now = msg_cruise f"
| "format_emit f EmitDescent now = msg_descent f"
| "format_emit f EmitApproach now = msg_approach f"
| "format_emit f (EmitLanding takeoff_at) now = msg_landing f takeoff_at now"
| "format_emit f (EmitSquawkEmergency code meaning) now = msg_squawk_emergency f code meaning"
| "format_emit f EmitPossibleDivert now = msg_possible_divert f"
| "format_emit f EmitTrackingLost now = msg_tracking_lost f"
| "format_emit f EmitPendingExpired now = msg_pending_expired f"

definition apply_route :: "airport_table \<Rightarrow> TrackedFlight \<Rightarrow> rstr \<Rightarrow> rstr \<Rightarrow> TrackedFlight" where
  "apply_route airports f origin dest = set_route_from_iata airports f origin dest"

section \<open>Matching an aircraft to the target\<close>

definition flight_matches_callsign :: "TrackedFlight \<Rightarrow> rstr \<Rightarrow> bool" where
  "flight_matches_callsign f actual =
     (is_some_and (fl_callsign f) (\<lambda>c. eq_ignore_ascii_case c actual) \<or>
      (\<exists>alias\<in>set (fl_alias_callsigns f). eq_ignore_ascii_case alias actual) \<or>
      (case fl_identifier f of Callsign c \<Rightarrow> eq_ignore_ascii_case c actual | Hex _ \<Rightarrow> False))"

definition candidate_callsign_matches_flight :: "TrackedFlight \<Rightarrow> rstr \<Rightarrow> bool" where
  "candidate_callsign_matches_flight f candidate =
     (flight_matches_callsign f candidate \<or>
      is_some_and (fl_observed_callsign f) (\<lambda>observed. eq_ignore_ascii_case observed candidate))"

fun identifier_callsign :: "FlightIdentifier \<Rightarrow> rstr option" where
  "identifier_callsign (Callsign c) = Some c"
| "identifier_callsign (Hex _) = None"

definition inferred_by_hex_window :: "TrackedFlight \<Rightarrow> instant \<Rightarrow> bool" where
  "inferred_by_hex_window f now =
     (if is_hex_id (fl_identifier f) then True
      else case fl_scheduled_departure_at f of
             None \<Rightarrow> False
           | Some sched \<Rightarrow> now \<ge> sched - minutes 30 \<and> now \<le> sched + hours 3)"

definition last_seen_age_secs :: "TrackedFlight \<Rightarrow> instant \<Rightarrow> int option" where
  "last_seen_age_secs f now = map_option (\<lambda>seen. max (num_seconds (now - seen)) 0) (fl_last_seen f)"

definition should_keep_prior_confirmation ::
  "TrackedFlight \<Rightarrow> TargetConfirmation \<Rightarrow> bool \<Rightarrow> instant \<Rightarrow> bool" where
  "should_keep_prior_confirmation f confirmation uh now =
     (uh \<and> is_target_confirmed (fl_target_confirmation f) \<and> confirmation = AircraftVisible \<and>
      is_some_and (fl_last_seen f) (\<lambda>seen. now - seen \<le> TRACKING_LOST_THRESHOLD))"

definition target_confirmation_for_aircraft ::
  "TrackedFlight \<Rightarrow> NearbyAircraft \<Rightarrow> bool \<Rightarrow> instant \<Rightarrow> TargetConfirmation option" where
  "target_confirmation_for_aircraft f ac uh now =
     (if is_some_and (aircraft_callsign ac) (flight_matches_callsign f)
      then Some ConfirmedByCallsign
      else if \<not> uh then None
      else if is_hex_id (fl_identifier f) \<or> aircraft_callsign ac = None
      then (if inferred_by_hex_window f now then Some InferredByAssignedHex else Some AircraftVisible)
      else Some AircraftVisible)"

section \<open>Seeding a flight from an aircraft\<close>

definition resolve_callsign_from ::
  "TrackedFlight \<Rightarrow> TargetConfirmation \<Rightarrow> TrackedFlight \<times> rstr option" where
  "resolve_callsign_from f confirmation =
     (if (confirmation = ConfirmedByCallsign \<or> is_hex_id (fl_identifier f)) \<and> fl_callsign f = None
      then (case fl_observed_callsign f of
              Some cs \<Rightarrow> (add_alias_callsign (f\<lparr>fl_callsign := Some cs\<rparr>) cs, Some cs)
            | None \<Rightarrow> (f, None))
      else (f, None))"

definition seed_telemetry :: "TrackedFlight \<Rightarrow> NearbyAircraft \<Rightarrow> TrackedFlight" where
  "seed_telemetry f ac =
     f\<lparr>fl_altitude_ft := altitude_ft ac, fl_vertical_rate_fpm := vertical_rate ac,
       fl_ground_speed_kts := ac_gs ac, fl_lat := ac_lat ac, fl_lon := ac_lon ac,
       fl_squawk := ac_squawk ac\<rparr>"

definition seed_hex :: "TrackedFlight \<Rightarrow> NearbyAircraft \<Rightarrow> bool \<Rightarrow> TrackedFlight" where
  "seed_hex f ac direct =
     (case ac_hex ac of Some hex \<Rightarrow> fst (set_hex_if_consistent f hex Adsb direct) | None \<Rightarrow> f)"

definition seed_aircraft_type :: "TrackedFlight \<Rightarrow> NearbyAircraft \<Rightarrow> TrackedFlight" where
  "seed_aircraft_type f ac =
     (case (fl_aircraft_type f, ac_t ac) of
        (None, Some t) \<Rightarrow> f\<lparr>fl_aircraft_type := Some t\<rparr>
      | _ \<Rightarrow> f)"

definition apply_observed_aircraft ::
  "TrackedFlight \<Rightarrow> NearbyAircraft \<Rightarrow> TargetConfirmation \<Rightarrow> bool \<Rightarrow> TrackedFlight \<times> rstr option" where
  "apply_observed_aircraft f ac confirmation direct =
     (let f = f\<lparr>fl_target_confirmation := confirmation,
                fl_observed_callsign := aircraft_callsign ac\<rparr>;
          (f, newly_resolved) = resolve_callsign_from f confirmation;
          f = seed_hex f ac direct;
          f = seed_aircraft_type f ac
      in (seed_telemetry f ac, newly_resolved))"

section \<open>The transition\<close>

definition push_emit :: "Emit \<Rightarrow> FlightUpdate \<Rightarrow> FlightUpdate" where
  "push_emit e u = u\<lparr>emits := emits u @ [e]\<rparr>"

definition push_debug :: "FlightTrackerDebugEvent \<Rightarrow> FlightUpdate \<Rightarrow> FlightUpdate" where
  "push_debug e u = u\<lparr>debug := debug u @ [e]\<rparr>"

definition lookup_mode :: "bool \<Rightarrow> rstr" where
  "lookup_mode uh = (if uh then str ''hex'' else str ''callsign'')"

definition poll_result_without_aircraft ::
  "advance_env \<Rightarrow> TrackedFlight \<Rightarrow> bool \<Rightarrow> rstr \<Rightarrow> instant \<Rightarrow> FlightTrackerDebugEvent" where
  "poll_result_without_aircraft env f uh what now = adsb_poll_result_event (en_fmt env) f
     \<lparr>pd_lookup_mode = lookup_mode uh, pd_outcome = what, pd_aircraft = None,
      pd_direct_target_confirmed = None, pd_sticky_confirmation = None,
      pd_phase_sample_eligible = None, pd_last_seen_age_secs = last_seen_age_secs f now\<rparr>"

definition advance_miss ::
  "advance_env \<Rightarrow> TrackedFlight \<Rightarrow> bool \<Rightarrow> instant \<Rightarrow> TrackedFlight \<times> FlightUpdate" where
  "advance_miss env f uh now =
     (let u = push_debug (poll_result_without_aircraft env f uh (str ''miss'') now) empty_update in
      case fl_last_visible_at f of
        None \<Rightarrow> (f\<lparr>fl_polls_since_change := saturating_inc (fl_polls_since_change f)\<rparr>, u)
      | Some last_visible_at \<Rightarrow>
          let lost_duration = now - last_visible_at in
          if lost_duration \<ge> TRACKING_LOST_REMOVAL then
            (f, (push_emit EmitTrackingLost
                  (push_debug (tracking_removal_event (en_fmt env) f (str ''tracking_lost'')
                     (Some (num_seconds lost_duration))) u))
                \<lparr>removal := Some (TrackingLost (num_seconds lost_duration))\<rparr>)
          else (f, u))"

definition advance_failed ::
  "advance_env \<Rightarrow> TrackedFlight \<Rightarrow> bool \<Rightarrow> rstr \<Rightarrow> instant \<Rightarrow> TrackedFlight \<times> FlightUpdate" where
  "advance_failed env f uh what now =
     (f, push_debug (poll_result_without_aircraft env f uh what now) empty_update)"

definition hit_squawk :: "rstr option \<Rightarrow> NearbyAircraft \<Rightarrow> bool \<Rightarrow> FlightUpdate \<Rightarrow> FlightUpdate" where
  "hit_squawk prev_squawk ac sample_confirmed u =
     (case ac_squawk ac of
        None \<Rightarrow> u
      | Some new_squawk \<Rightarrow>
          if sample_confirmed \<and> prev_squawk \<noteq> Some new_squawk
          then (case emergency_squawk_meaning new_squawk of
                  Some meaning \<Rightarrow> push_emit (EmitSquawkEmergency new_squawk meaning) u
                | None \<Rightarrow> u)
          else u)"

definition hit_visible ::
  "bool \<Rightarrow> bool \<Rightarrow> TrackedFlight \<times> FlightUpdate \<Rightarrow> TrackedFlight \<times> FlightUpdate" where
  "hit_visible became_confirmed was_pending fu =
     (let (f, u) = fu in
      if became_confirmed then
        (if was_pending
         then f\<lparr>fl_phase := Unknown, fl_last_phase_change := None, fl_polls_since_change := 0\<rparr>
         else f,
         push_emit EmitAdsbVisible u)
      else (f, u))"

fun phase_emit :: "FlightPhase \<Rightarrow> instant option \<Rightarrow> Emit list" where
  "phase_emit Takeoff _ = [EmitTakeoff]"
| "phase_emit Cruise _ = [EmitCruise]"
| "phase_emit Descent _ = [EmitDescent]"
| "phase_emit Approach _ = [EmitApproach]"
| "phase_emit Landing takeoff_at = [EmitLanding takeoff_at]"
| "phase_emit _ _ = []"

definition phase_changed ::
  "TrackedFlight \<Rightarrow> FlightPhase \<Rightarrow> instant \<Rightarrow> TrackedFlight" where
  "phase_changed f new_phase now =
     (let old_phase = fl_phase f;
          f = f\<lparr>fl_phase := new_phase, fl_last_phase_change := Some now, fl_polls_since_change := 0\<rparr>
      in if old_phase = Ground \<and> is_airborne_phase new_phase \<and> fl_takeoff_at f = None
         then f\<lparr>fl_takeoff_at := Some now\<rparr> else f)"

definition hit_phase ::
  "advance_env \<Rightarrow> NearbyAircraft \<Rightarrow> bool \<Rightarrow> instant \<Rightarrow>
   TrackedFlight \<times> FlightUpdate \<Rightarrow> TrackedFlight \<times> FlightUpdate" where
  "hit_phase env ac sample_confirmed now fu =
     (let (f, u) = fu in
      if sample_confirmed then
        (let new_phase = detect_phase f ac; old_phase = fl_phase f in
         if new_phase \<noteq> old_phase then
           (let f = phase_changed f new_phase now;
                u = u\<lparr>emits := emits u @ phase_emit new_phase (fl_takeoff_at f)\<rparr>;
                f = (if new_phase = Landing then f\<lparr>fl_phase := Ground, fl_takeoff_at := None\<rparr> else f)
            in (f, push_debug (phase_transition_event (en_fmt env) f (phase_name old_phase)
                     (phase_name new_phase) (new_phase = Landing)) u))
         else (f\<lparr>fl_polls_since_change := fl_polls_since_change f + 1\<rparr>, u))
      else (f, u))"

text \<open>The angle between the track flown and the bearing to the destination.\<close>

definition bearing_diff :: "f64 \<Rightarrow> f64 \<Rightarrow> f64" where
  "bearing_diff ground_track bearing_to_dest =
     (let diff = \<bar>ground_track - bearing_to_dest\<bar> in if diff > 180 then 360 - diff else diff)"

definition divert_decision ::
  "advance_env \<Rightarrow> f64 \<times> f64 \<Rightarrow> f64 \<times> f64 \<Rightarrow> f64 \<times> f64 \<Rightarrow>
   TrackedFlight \<times> FlightUpdate \<Rightarrow> TrackedFlight \<times> FlightUpdate" where
  "divert_decision env prev cur dest fu =
     (let (f, u) = fu;
          ground_track = en_bearing env (fst prev) (snd prev) (fst cur) (snd cur);
          bearing_to_dest = en_bearing env (fst cur) (snd cur) (fst dest) (snd dest);
          diff = bearing_diff ground_track bearing_to_dest;
          anomalous = diff > DIVERT_BEARING_THRESHOLD;
          counter_before = fl_divert_consecutive_polls f;
          (counter_after, alert) = update_divert_counter counter_before anomalous;
          f = f\<lparr>fl_divert_consecutive_polls := counter_after\<rparr>;
          u = push_debug (diversion_decision_event (en_fmt env) f
                \<lparr>dd_previous = prev, dd_current = cur, dd_destination = dest,
                 dd_ground_track = ground_track, dd_bearing_to_dest = bearing_to_dest,
                 dd_diff = diff, dd_threshold = DIVERT_BEARING_THRESHOLD, dd_anomalous = anomalous,
                 dd_counter_before = counter_before, dd_counter_after = counter_after,
                 dd_alert_emitted = alert\<rparr>) u
      in (f, if alert then push_emit EmitPossibleDivert u else u))"

definition both :: "'a option \<Rightarrow> 'b option \<Rightarrow> ('a \<times> 'b) option" where
  "both x y = (case (x, y) of (Some a, Some b) \<Rightarrow> Some (a, b) | _ \<Rightarrow> None)"

definition hit_divert ::
  "advance_env \<Rightarrow> f64 option \<Rightarrow> f64 option \<Rightarrow> bool \<Rightarrow>
   TrackedFlight \<times> FlightUpdate \<Rightarrow> TrackedFlight \<times> FlightUpdate" where
  "hit_divert env prev_lat prev_lon sample_confirmed fu =
     (let (f, u) = fu in
      if sample_confirmed \<and> fl_phase f \<in> {Descent, Approach} then
        (case (both (fl_dest_lat f) (fl_dest_lon f), both (fl_lat f) (fl_lon f),
               both prev_lat prev_lon) of
           (Some dest, Some cur, Some prev) \<Rightarrow> divert_decision env prev cur dest (f, u)
         | _ \<Rightarrow> (f, u))
      else (f\<lparr>fl_divert_consecutive_polls := 0\<rparr>, u))"

definition hit_observed ::
  "TrackedFlight \<Rightarrow> NearbyAircraft \<Rightarrow> TargetConfirmation \<Rightarrow> bool \<Rightarrow> FlightUpdate \<Rightarrow>
   TrackedFlight \<times> FlightUpdate" where
  "hit_observed f ac confirmation direct u =
     (case apply_observed_aircraft f ac confirmation direct of
        (f, Some cs) \<Rightarrow>
          (f, if fl_route f = None then u\<lparr>followups := followups u @ [FetchRoute cs]\<rparr> else u)
      | (f, None) \<Rightarrow> (f, u))"

definition advance_hit ::
  "advance_env \<Rightarrow> TrackedFlight \<Rightarrow> NearbyAircraft \<Rightarrow> bool \<Rightarrow> bool \<Rightarrow> bool \<Rightarrow> TargetConfirmation \<Rightarrow>
   instant \<Rightarrow> TrackedFlight \<times> FlightUpdate" where
  "advance_hit env f ac uh was_pending was_confirmed raw now =
     (let f = f\<lparr>fl_last_visible_at := Some now\<rparr>;
          direct = is_target_confirmed raw;
          sticky = should_keep_prior_confirmation f raw uh now;
          confirmation = (if sticky then fl_target_confirmation f else raw);
          sample_confirmed = (direct \<or> (sticky \<and> aircraft_callsign ac = None));
          became_confirmed = (\<not> was_confirmed \<and> direct);
          u = push_debug (adsb_poll_result_event (en_fmt env) f
                \<lparr>pd_lookup_mode = lookup_mode uh, pd_outcome = str ''hit'', pd_aircraft = Some ac,
                 pd_direct_target_confirmed = Some direct, pd_sticky_confirmation = Some sticky,
                 pd_phase_sample_eligible = Some sample_confirmed,
                 pd_last_seen_age_secs = last_seen_age_secs f now\<rparr>) empty_update;
          f = (if direct then f\<lparr>fl_last_seen := Some now\<rparr> else f);
          prev_lat = fl_lat f;
          prev_lon = fl_lon f;
          prev_squawk = fl_squawk f;
          (f, u) = hit_observed f ac confirmation direct u;
          u = hit_squawk prev_squawk ac sample_confirmed u
      in hit_divert env prev_lat prev_lon sample_confirmed
           (hit_phase env ac sample_confirmed now (hit_visible became_confirmed was_pending (f, u))))"

definition advance_flight ::
  "advance_env \<Rightarrow> TrackedFlight \<Rightarrow> Observation \<Rightarrow> instant \<Rightarrow> TrackedFlight \<times> FlightUpdate" where
  "advance_flight env f obs now =
     (let was_pending = is_pending_adsb f;
          was_confirmed = is_target_confirmed (fl_target_confirmation f);
          f = f\<lparr>fl_last_adsb_poll_at := Some now\<rparr>
      in case outcome obs of
           Miss \<Rightarrow> advance_miss env f (used_hex obs) now
         | PollError \<Rightarrow> advance_failed env f (used_hex obs) (str ''error'') now
         | Timeout \<Rightarrow> advance_failed env f (used_hex obs) (str ''timeout'') now
         | Hit ac \<Rightarrow>
             (case target_confirmation_for_aircraft f ac (used_hex obs) now of
                None \<Rightarrow> (f, empty_update)
              | Some raw \<Rightarrow>
                  advance_hit env f ac (used_hex obs) was_pending was_confirmed raw now))"

section \<open>Frames of the blocks\<close>

named_theorems advance_simps \<open>what each block of the transition leaves alone\<close>

text \<open>The identity and the three sighting instants of a flight.\<close>

definition timeline ::
  "TrackedFlight \<Rightarrow> (FlightIdentifier \<times> rstr \<times> instant) \<times> instant option \<times> instant option \<times> instant option" where
  "timeline f = (identity_of f, fl_last_seen f, fl_last_visible_at f, fl_last_adsb_poll_at f)"

text \<open>What \<open>apply_observed_aircraft\<close> documents that it does not touch.\<close>

definition transition_state ::
  "TrackedFlight \<Rightarrow> FlightPhase \<times> instant option \<times> u32 \<times> u32 \<times> instant option \<times> (rstr \<times> rstr) option" where
  "transition_state f = (fl_phase f, fl_takeoff_at f, fl_polls_since_change f,
     fl_divert_consecutive_polls f, fl_last_phase_change f, fl_route f)"

lemma last_phase_change_frame [fl_frame]:
  "fl_last_phase_change (add_alias_callsign f v) = fl_last_phase_change f"
  "fl_last_phase_change (fst (set_hex_if_consistent f c s p)) = fl_last_phase_change f"
  by (simp_all add: add_alias_callsign_def set_hex_if_consistent_def split: option.split)

lemmas snapshot_defs = timeline_def transition_state_def identity_of_def

lemma resolve_callsign_frame [advance_simps]:
  "timeline (fst (resolve_callsign_from f c)) = timeline f"
  "transition_state (fst (resolve_callsign_from f c)) = transition_state f"
  "fl_target_confirmation (fst (resolve_callsign_from f c)) = fl_target_confirmation f"
  by (simp_all add: resolve_callsign_from_def snapshot_defs fl_frame split: option.split)

lemma seed_frames [advance_simps]:
  "timeline (seed_hex f ac d) = timeline f"
  "transition_state (seed_hex f ac d) = transition_state f"
  "fl_target_confirmation (seed_hex f ac d) = fl_target_confirmation f"
  "timeline (seed_aircraft_type f ac) = timeline f"
  "transition_state (seed_aircraft_type f ac) = transition_state f"
  "fl_target_confirmation (seed_aircraft_type f ac) = fl_target_confirmation f"
  "timeline (seed_telemetry f ac) = timeline f"
  "transition_state (seed_telemetry f ac) = transition_state f"
  "fl_target_confirmation (seed_telemetry f ac) = fl_target_confirmation f"
  by (simp_all add: seed_hex_def seed_aircraft_type_def seed_telemetry_def snapshot_defs fl_frame
      split: option.split)

lemma apply_observed_unfold:
  "apply_observed_aircraft f ac c d =
     (let r = resolve_callsign_from
                (f\<lparr>fl_target_confirmation := c, fl_observed_callsign := aircraft_callsign ac\<rparr>) c
      in (seed_telemetry (seed_aircraft_type (seed_hex (fst r) ac d) ac) ac, snd r))"
  by (simp add: apply_observed_aircraft_def Let_def split: prod.split)

lemma apply_observed_frame [advance_simps]:
  "timeline (fst (apply_observed_aircraft f ac c d)) = timeline f"
  "transition_state (fst (apply_observed_aircraft f ac c d)) = transition_state f"
  "fl_target_confirmation (fst (apply_observed_aircraft f ac c d)) = c"
  by (simp_all add: apply_observed_unfold Let_def advance_simps)
    (simp_all add: snapshot_defs)

lemma hit_observed_unfold:
  "hit_observed f ac c d u =
     (let r = apply_observed_aircraft f ac c d
      in (fst r, case snd r of
                   Some cs \<Rightarrow> if fl_route (fst r) = None
                              then u\<lparr>followups := followups u @ [FetchRoute cs]\<rparr> else u
                 | None \<Rightarrow> u))"
  by (simp add: hit_observed_def Let_def split: prod.split option.split)

lemma hit_observed_frame [advance_simps]:
  "fst (hit_observed f ac c d u) = fst (apply_observed_aircraft f ac c d)"
  "emits (snd (hit_observed f ac c d u)) = emits u"
  "removal (snd (hit_observed f ac c d u)) = removal u"
  by (simp_all add: hit_observed_unfold Let_def split: option.split)

lemma push_simps [advance_simps]:
  "emits (push_emit e u) = emits u @ [e]" "removal (push_emit e u) = removal u"
  "emits (push_debug d u) = emits u" "removal (push_debug d u) = removal u"
  "followups (push_emit e u) = followups u" "followups (push_debug d u) = followups u"
  "emits empty_update = []" "removal empty_update = None" "followups empty_update = []"
  by (simp_all add: push_emit_def push_debug_def empty_update_def)

lemma hit_squawk_removal [advance_simps]: "removal (hit_squawk p ac sc u) = removal u"
  by (simp add: hit_squawk_def advance_simps split: option.split)

definition squawk_emits :: "rstr option \<Rightarrow> NearbyAircraft \<Rightarrow> bool \<Rightarrow> Emit list" where
  "squawk_emits prev ac sc =
     (case ac_squawk ac of
        Some code \<Rightarrow>
          (case emergency_squawk_meaning code of
             Some meaning \<Rightarrow> if sc \<and> prev \<noteq> Some code then [EmitSquawkEmergency code meaning] else []
           | None \<Rightarrow> [])
      | None \<Rightarrow> [])"

lemma hit_squawk_emits [advance_simps]:
  "emits (hit_squawk p ac sc u) = emits u @ squawk_emits p ac sc"
  by (simp add: hit_squawk_def squawk_emits_def advance_simps split: option.split)

lemma hit_visible_frame [advance_simps]:
  "timeline (fst (hit_visible b w fu)) = timeline (fst fu)"
  "fl_target_confirmation (fst (hit_visible b w fu)) = fl_target_confirmation (fst fu)"
  "fl_phase (fst (hit_visible b w fu)) = (if b \<and> w then Unknown else fl_phase (fst fu))"
  "fl_takeoff_at (fst (hit_visible b w fu)) = fl_takeoff_at (fst fu)"
  "fl_divert_consecutive_polls (fst (hit_visible b w fu)) = fl_divert_consecutive_polls (fst fu)"
  "emits (snd (hit_visible b w fu)) = emits (snd fu) @ (if b then [EmitAdsbVisible] else [])"
  "removal (snd (hit_visible b w fu)) = removal (snd fu)"
  by (simp_all add: hit_visible_def snapshot_defs advance_simps split: prod.split)

lemma phase_changed_frame [advance_simps]:
  "timeline (phase_changed f p now) = timeline f"
  "fl_target_confirmation (phase_changed f p now) = fl_target_confirmation f"
  "fl_phase (phase_changed f p now) = p"
  "fl_divert_consecutive_polls (phase_changed f p now) = fl_divert_consecutive_polls f"
  "fl_takeoff_at (phase_changed f p now) =
     (if fl_phase f = Ground \<and> is_airborne_phase p \<and> fl_takeoff_at f = None then Some now
      else fl_takeoff_at f)"
  by (simp_all add: phase_changed_def Let_def snapshot_defs)

definition hit_phase_emits :: "TrackedFlight \<Rightarrow> NearbyAircraft \<Rightarrow> bool \<Rightarrow> instant \<Rightarrow> Emit list" where
  "hit_phase_emits f ac sc now =
     (if sc \<and> detect_phase f ac \<noteq> fl_phase f
      then phase_emit (detect_phase f ac) (fl_takeoff_at (phase_changed f (detect_phase f ac) now))
      else [])"

lemma hit_phase_frame [advance_simps]:
  "timeline (fst (hit_phase env ac sc now fu)) = timeline (fst fu)"
  "fl_target_confirmation (fst (hit_phase env ac sc now fu)) = fl_target_confirmation (fst fu)"
  "fl_divert_consecutive_polls (fst (hit_phase env ac sc now fu)) =
     fl_divert_consecutive_polls (fst fu)"
  "emits (snd (hit_phase env ac sc now fu)) =
     emits (snd fu) @ hit_phase_emits (fst fu) ac sc now"
  "removal (snd (hit_phase env ac sc now fu)) = removal (snd fu)"
proof -
  obtain f u where fu: "fu = (f, u)" by (cases fu) auto
  have t: "timeline (g\<lparr>fl_phase := Ground, fl_takeoff_at := None\<rparr>) = timeline g"
    "timeline (g\<lparr>fl_polls_since_change := n\<rparr>) = timeline g" for g n
    by (simp_all add: snapshot_defs)
  show "timeline (fst (hit_phase env ac sc now fu)) = timeline (fst fu)"
    by (simp add: fu hit_phase_def Let_def advance_simps t)
  show "fl_target_confirmation (fst (hit_phase env ac sc now fu)) = fl_target_confirmation (fst fu)"
    "fl_divert_consecutive_polls (fst (hit_phase env ac sc now fu)) =
     fl_divert_consecutive_polls (fst fu)"
    "emits (snd (hit_phase env ac sc now fu)) =
     emits (snd fu) @ hit_phase_emits (fst fu) ac sc now"
    "removal (snd (hit_phase env ac sc now fu)) = removal (snd fu)"
    by (simp_all add: fu hit_phase_def Let_def advance_simps hit_phase_emits_def)
qed

lemma hit_phase_phase:
  "fl_phase (fst (hit_phase env ac sc now fu)) =
     (if sc then (if detect_phase (fst fu) ac = Landing \<and> fl_phase (fst fu) \<noteq> Landing then Ground
                  else detect_phase (fst fu) ac)
      else fl_phase (fst fu))"
  by (simp add: hit_phase_def Let_def advance_simps split: prod.split)

lemma hit_phase_takeoff:
  "fl_takeoff_at (fst (hit_phase env ac sc now fu)) =
     (let f = fst fu; p = detect_phase f ac in
      if sc \<and> p = Landing \<and> fl_phase f \<noteq> Landing then None
      else if sc \<and> fl_phase f = Ground \<and> is_airborne_phase p \<and> fl_takeoff_at f = None then Some now
      else fl_takeoff_at f)"
  by (auto simp: hit_phase_def Let_def advance_simps is_airborne_phase_def split: prod.split)

lemma divert_decision_frame [advance_simps]:
  "timeline (fst (divert_decision env p c d fu)) = timeline (fst fu)"
  "fl_target_confirmation (fst (divert_decision env p c d fu)) = fl_target_confirmation (fst fu)"
  "fl_phase (fst (divert_decision env p c d fu)) = fl_phase (fst fu)"
  "fl_takeoff_at (fst (divert_decision env p c d fu)) = fl_takeoff_at (fst fu)"
  "removal (snd (divert_decision env p c d fu)) = removal (snd fu)"
  by (simp_all add: divert_decision_def Let_def snapshot_defs advance_simps split: prod.split)

lemma hit_divert_frame [advance_simps]:
  "timeline (fst (hit_divert env la lo sc fu)) = timeline (fst fu)"
  "fl_target_confirmation (fst (hit_divert env la lo sc fu)) = fl_target_confirmation (fst fu)"
  "fl_phase (fst (hit_divert env la lo sc fu)) = fl_phase (fst fu)"
  "fl_takeoff_at (fst (hit_divert env la lo sc fu)) = fl_takeoff_at (fst fu)"
  "removal (snd (hit_divert env la lo sc fu)) = removal (snd fu)"
proof -
  have t: "timeline (g\<lparr>fl_divert_consecutive_polls := n\<rparr>) = timeline g" for g n
    by (simp add: snapshot_defs)
  show "timeline (fst (hit_divert env la lo sc fu)) = timeline (fst fu)"
    "fl_target_confirmation (fst (hit_divert env la lo sc fu)) = fl_target_confirmation (fst fu)"
    "fl_phase (fst (hit_divert env la lo sc fu)) = fl_phase (fst fu)"
    "fl_takeoff_at (fst (hit_divert env la lo sc fu)) = fl_takeoff_at (fst fu)"
    "removal (snd (hit_divert env la lo sc fu)) = removal (snd fu)"
    by (simp_all add: hit_divert_def advance_simps t split: prod.split option.split)
qed

text \<open>Reading a field through the update of another, for proofs that must not touch anything else.\<close>

lemma field_updates:
  "fl_divert_consecutive_polls (f\<lparr>fl_divert_consecutive_polls := n\<rparr>) = n"
  "fl_lat (f\<lparr>fl_last_visible_at := v\<rparr>) = fl_lat f" "fl_lat (f\<lparr>fl_last_seen := v\<rparr>) = fl_lat f"
  "fl_lon (f\<lparr>fl_last_visible_at := v\<rparr>) = fl_lon f" "fl_lon (f\<lparr>fl_last_seen := v\<rparr>) = fl_lon f"
  "fl_squawk (f\<lparr>fl_last_visible_at := v\<rparr>) = fl_squawk f"
  "fl_squawk (f\<lparr>fl_last_seen := v\<rparr>) = fl_squawk f"
  "fl_target_confirmation (f\<lparr>fl_last_visible_at := v\<rparr>) = fl_target_confirmation f"
  by simp_all

lemma alert_shape:
  assumes "snd r \<longrightarrow> 3 \<le> unat (fst r)" and "emits v = es0"
  shows "\<exists>es. emits (if snd r then push_emit EmitPossibleDivert v else v) = es0 @ es \<and>
     (es = [] \<or> (es = [EmitPossibleDivert] \<and> 3 \<le> unat (fst r)))"
  using assms by (simp add: advance_simps)

lemma divert_decision_emits:
  "\<exists>es. emits (snd (divert_decision env p c d fu)) = emits (snd fu) @ es \<and>
     (es = [] \<or> (es = [EmitPossibleDivert] \<and>
       3 \<le> unat (fl_divert_consecutive_polls (fst (divert_decision env p c d fu)))))"
proof -
  define r where "r = update_divert_counter (fl_divert_consecutive_polls (fst fu))
    (bearing_diff (en_bearing env (fst p) (snd p) (fst c) (snd c))
      (en_bearing env (fst c) (snd c) (fst d) (snd d)) > DIVERT_BEARING_THRESHOLD)"
  have "snd r \<longrightarrow> 3 \<le> unat (fst r)" unfolding r_def using update_divert_counter_alert by blast
  then show ?thesis
    unfolding divert_decision_def Let_def prod.case_eq_if fst_conv snd_conv r_def [symmetric]
      field_updates
    by (rule alert_shape) (simp add: advance_simps)
qed

lemma hit_divert_emits:
  "\<exists>es. emits (snd (hit_divert env la lo sc fu)) = emits (snd fu) @ es \<and>
     (es = [] \<or> (es = [EmitPossibleDivert] \<and>
       3 \<le> unat (fl_divert_consecutive_polls (fst (hit_divert env la lo sc fu)))))"
proof -
  obtain f u where fu: "fu = (f, u)" by (cases fu) auto
  show ?thesis
    using divert_decision_emits [of env _ _ _ "(f, u)"]
    by (simp add: fu hit_divert_def split: option.split)
qed

section \<open>The whole transition\<close>

text \<open>The flight the blocks of a hit start from, after the aircraft has been applied.\<close>

definition after_observed ::
  "TrackedFlight \<Rightarrow> NearbyAircraft \<Rightarrow> bool \<Rightarrow> TargetConfirmation \<Rightarrow> instant \<Rightarrow> TrackedFlight" where
  "after_observed f ac uh raw now =
     fst (apply_observed_aircraft
       (if is_target_confirmed raw then f\<lparr>fl_last_visible_at := Some now, fl_last_seen := Some now\<rparr>
        else f\<lparr>fl_last_visible_at := Some now\<rparr>) ac
       (if should_keep_prior_confirmation f raw uh now then fl_target_confirmation f else raw)
       (is_target_confirmed raw))"

definition sample_confirmed ::
  "TrackedFlight \<Rightarrow> NearbyAircraft \<Rightarrow> bool \<Rightarrow> TargetConfirmation \<Rightarrow> instant \<Rightarrow> bool" where
  "sample_confirmed f ac uh raw now =
     (is_target_confirmed raw \<or>
      (should_keep_prior_confirmation f raw uh now \<and> aircraft_callsign ac = None))"

lemma is_some_and_cong: "x = y \<Longrightarrow> (\<And>a. y = Some a \<Longrightarrow> P a = Q a) \<Longrightarrow> is_some_and x P = is_some_and y Q"
  by (cases y) auto

lemma should_keep_visible [simp]:
  "should_keep_prior_confirmation (f\<lparr>fl_last_visible_at := v\<rparr>) c uh now =
   should_keep_prior_confirmation f c uh now"
  by (simp add: should_keep_prior_confirmation_def)

text \<open>The update the blocks of a hit start from: the poll event and a route follow-up, if any.\<close>

lemma advance_hit_unfold:
  "\<exists>e. advance_hit env f ac uh wp wc raw now =
       hit_divert env (fl_lat f) (fl_lon f) (sample_confirmed f ac uh raw now)
         (hit_phase env ac (sample_confirmed f ac uh raw now) now
           (hit_visible (\<not> wc \<and> is_target_confirmed raw) wp (after_observed f ac uh raw now,
             hit_squawk (fl_squawk f) ac (sample_confirmed f ac uh raw now)
               (snd (hit_observed
                 (if is_target_confirmed raw
                  then f\<lparr>fl_last_visible_at := Some now, fl_last_seen := Some now\<rparr>
                  else f\<lparr>fl_last_visible_at := Some now\<rparr>) ac
                 (if should_keep_prior_confirmation f raw uh now
                  then fl_target_confirmation f else raw)
                 (is_target_confirmed raw) (push_debug e empty_update))))))"
  unfolding advance_hit_def Let_def prod.case_eq_if advance_simps after_observed_def
    sample_confirmed_def should_keep_visible
  by (cases "is_target_confirmed raw")
    (simp_all only: if_True if_False field_updates simp_thms, (rule exI, rule refl)+)

lemma advance_hit_shape:
  "\<exists>u. advance_hit env f ac uh wp wc raw now =
       hit_divert env (fl_lat f) (fl_lon f) (sample_confirmed f ac uh raw now)
         (hit_phase env ac (sample_confirmed f ac uh raw now) now
           (hit_visible (\<not> wc \<and> is_target_confirmed raw) wp (after_observed f ac uh raw now, u))) \<and>
     emits u = squawk_emits (fl_squawk f) ac (sample_confirmed f ac uh raw now) \<and>
     removal u = None"
proof -
  obtain e where "advance_hit env f ac uh wp wc raw now =
       hit_divert env (fl_lat f) (fl_lon f) (sample_confirmed f ac uh raw now)
         (hit_phase env ac (sample_confirmed f ac uh raw now) now
           (hit_visible (\<not> wc \<and> is_target_confirmed raw) wp (after_observed f ac uh raw now,
             hit_squawk (fl_squawk f) ac (sample_confirmed f ac uh raw now)
               (snd (hit_observed
                 (if is_target_confirmed raw
                  then f\<lparr>fl_last_visible_at := Some now, fl_last_seen := Some now\<rparr>
                  else f\<lparr>fl_last_visible_at := Some now\<rparr>) ac
                 (if should_keep_prior_confirmation f raw uh now
                  then fl_target_confirmation f else raw)
                 (is_target_confirmed raw) (push_debug e empty_update))))))"
    using advance_hit_unfold by blast
  then show ?thesis
    by (intro exI conjI) (assumption, simp_all add: advance_simps)
qed

lemma after_observed_frame [advance_simps]:
  "identity_of (after_observed f ac uh raw now) = identity_of f"
  "fl_last_seen (after_observed f ac uh raw now) =
     (if is_target_confirmed raw then Some now else fl_last_seen f)"
  "fl_last_visible_at (after_observed f ac uh raw now) = Some now"
  "fl_last_adsb_poll_at (after_observed f ac uh raw now) = fl_last_adsb_poll_at f"
  "fl_target_confirmation (after_observed f ac uh raw now) =
     (if should_keep_prior_confirmation f raw uh now then fl_target_confirmation f else raw)"
  "transition_state (after_observed f ac uh raw now) = transition_state f"
proof -
  let ?f = "if is_target_confirmed raw
            then f\<lparr>fl_last_visible_at := Some now, fl_last_seen := Some now\<rparr>
            else f\<lparr>fl_last_visible_at := Some now\<rparr>"
  have "timeline (after_observed f ac uh raw now) = timeline ?f"
    "transition_state (after_observed f ac uh raw now) = transition_state ?f"
    unfolding after_observed_def advance_simps by (rule refl)+
  then show "identity_of (after_observed f ac uh raw now) = identity_of f"
    "fl_last_seen (after_observed f ac uh raw now) =
       (if is_target_confirmed raw then Some now else fl_last_seen f)"
    "fl_last_visible_at (after_observed f ac uh raw now) = Some now"
    "fl_last_adsb_poll_at (after_observed f ac uh raw now) = fl_last_adsb_poll_at f"
    "transition_state (after_observed f ac uh raw now) = transition_state f"
    by (auto simp: snapshot_defs split: if_splits)
  show "fl_target_confirmation (after_observed f ac uh raw now) =
     (if should_keep_prior_confirmation f raw uh now then fl_target_confirmation f else raw)"
    unfolding after_observed_def advance_simps by (rule refl)
qed

lemma timeline_eqD:
  "timeline g = timeline f \<Longrightarrow> identity_of g = identity_of f \<and> fl_last_seen g = fl_last_seen f \<and>
     fl_last_visible_at g = fl_last_visible_at f \<and> fl_last_adsb_poll_at g = fl_last_adsb_poll_at f"
  by (simp add: timeline_def)

lemma advance_hit_timeline:
  "identity_of (fst (advance_hit env f ac uh wp wc raw now)) = identity_of f"
  "fl_last_seen (fst (advance_hit env f ac uh wp wc raw now)) =
     (if is_target_confirmed raw then Some now else fl_last_seen f)"
  "fl_last_visible_at (fst (advance_hit env f ac uh wp wc raw now)) = Some now"
  "fl_last_adsb_poll_at (fst (advance_hit env f ac uh wp wc raw now)) = fl_last_adsb_poll_at f"
  "fl_target_confirmation (fst (advance_hit env f ac uh wp wc raw now)) =
     (if should_keep_prior_confirmation f raw uh now then fl_target_confirmation f else raw)"
  "removal (snd (advance_hit env f ac uh wp wc raw now)) = None"
proof -
  obtain u where u: "advance_hit env f ac uh wp wc raw now =
       hit_divert env (fl_lat f) (fl_lon f) (sample_confirmed f ac uh raw now)
         (hit_phase env ac (sample_confirmed f ac uh raw now) now
           (hit_visible (\<not> wc \<and> is_target_confirmed raw) wp (after_observed f ac uh raw now, u)))"
    and r: "removal u = None" using advance_hit_shape by blast
  have "timeline (fst (advance_hit env f ac uh wp wc raw now)) =
      timeline (after_observed f ac uh raw now)"
    unfolding u advance_simps by simp
  from timeline_eqD [OF this] show
    "identity_of (fst (advance_hit env f ac uh wp wc raw now)) = identity_of f"
    "fl_last_seen (fst (advance_hit env f ac uh wp wc raw now)) =
       (if is_target_confirmed raw then Some now else fl_last_seen f)"
    "fl_last_visible_at (fst (advance_hit env f ac uh wp wc raw now)) = Some now"
    "fl_last_adsb_poll_at (fst (advance_hit env f ac uh wp wc raw now)) = fl_last_adsb_poll_at f"
    by (simp_all add: advance_simps)
  show "fl_target_confirmation (fst (advance_hit env f ac uh wp wc raw now)) =
     (if should_keep_prior_confirmation f raw uh now then fl_target_confirmation f else raw)"
    "removal (snd (advance_hit env f ac uh wp wc raw now)) = None"
    unfolding u advance_simps by (simp_all add: advance_simps r)
qed

text \<open>The transition by outcome; \<open>polled\<close> is the flight with the time of the poll stamped.\<close>

definition polled :: "TrackedFlight \<Rightarrow> instant \<Rightarrow> TrackedFlight" where
  "polled f now = f\<lparr>fl_last_adsb_poll_at := Some now\<rparr>"

lemma polled_simps [simp]:
  "identity_of (polled f now) = identity_of f" "fl_last_seen (polled f now) = fl_last_seen f"
  "fl_last_visible_at (polled f now) = fl_last_visible_at f"
  "fl_last_adsb_poll_at (polled f now) = Some now"
  "fl_target_confirmation (polled f now) = fl_target_confirmation f"
  "fl_phase (polled f now) = fl_phase f" "fl_takeoff_at (polled f now) = fl_takeoff_at f"
  "fl_squawk (polled f now) = fl_squawk f" "fl_identifier (polled f now) = fl_identifier f"
  "fl_alias_callsigns (polled f now) = fl_alias_callsigns f"
  "transition_state (polled f now) = transition_state f"
  "target_confirmation_for_aircraft (polled f now) = target_confirmation_for_aircraft f"
  "should_keep_prior_confirmation (polled f now) = should_keep_prior_confirmation f"
  by (simp_all add: polled_def snapshot_defs target_confirmation_for_aircraft_def fun_eq_iff
      flight_matches_callsign_def inferred_by_hex_window_def should_keep_prior_confirmation_def
      cong: is_some_and_cong)

lemma advance_flight_cases:
  "advance_flight env f \<lparr>used_hex = uh, outcome = Miss\<rparr> now = advance_miss env (polled f now) uh now"
  "advance_flight env f \<lparr>used_hex = uh, outcome = PollError\<rparr> now =
     advance_failed env (polled f now) uh (str ''error'') now"
  "advance_flight env f \<lparr>used_hex = uh, outcome = Timeout\<rparr> now =
     advance_failed env (polled f now) uh (str ''timeout'') now"
  "advance_flight env f \<lparr>used_hex = uh, outcome = Hit ac\<rparr> now =
     (case target_confirmation_for_aircraft f ac uh now of
        None \<Rightarrow> (polled f now, empty_update)
      | Some raw \<Rightarrow> advance_hit env (polled f now) ac uh (is_pending_adsb f)
          (is_target_confirmed (fl_target_confirmation f)) raw now)"
  by (simp_all add: advance_flight_def Let_def polled_def [symmetric] split: option.split)

lemma observation_cases:
  obtains (Hit) uh ac where "obs = \<lparr>used_hex = uh, outcome = Hit ac\<rparr>"
  | (Miss) uh where "obs = \<lparr>used_hex = uh, outcome = Miss\<rparr>"
  | (PollError) uh where "obs = \<lparr>used_hex = uh, outcome = PollError\<rparr>"
  | (Timeout) uh where "obs = \<lparr>used_hex = uh, outcome = Timeout\<rparr>"
  by (cases obs; cases "outcome obs") auto

lemma advance_failed_simps [simp]:
  "fst (advance_failed env f uh w now) = f" "emits (snd (advance_failed env f uh w now)) = []"
  "removal (snd (advance_failed env f uh w now)) = None"
  "followups (snd (advance_failed env f uh w now)) = []"
  by (simp_all add: advance_failed_def advance_simps)

lemma advance_miss_simps [simp]:
  "timeline (fst (advance_miss env f uh now)) = timeline f"
  "fl_target_confirmation (fst (advance_miss env f uh now)) = fl_target_confirmation f"
  "fl_phase (fst (advance_miss env f uh now)) = fl_phase f"
  "fl_takeoff_at (fst (advance_miss env f uh now)) = fl_takeoff_at f"
  "fl_alias_callsigns (fst (advance_miss env f uh now)) = fl_alias_callsigns f"
  by (simp_all add: advance_miss_def Let_def snapshot_defs split: option.split)

definition lost_for :: "TrackedFlight \<Rightarrow> instant \<Rightarrow> int option" where
  "lost_for f now =
     (case fl_last_visible_at f of
        Some t \<Rightarrow> if now - t \<ge> TRACKING_LOST_REMOVAL then Some (num_seconds (now - t)) else None
      | None \<Rightarrow> None)"

lemma advance_miss_lost:
  "removal (snd (advance_miss env f uh now)) = map_option TrackingLost (lost_for f now)"
  "emits (snd (advance_miss env f uh now)) =
     (if lost_for f now = None then [] else [EmitTrackingLost])"
  by (simp_all add: advance_miss_def Let_def lost_for_def advance_simps split: option.split)

text \<open>The observation shows the target: with which confirmation.\<close>

definition sighting :: "TrackedFlight \<Rightarrow> Observation \<Rightarrow> instant \<Rightarrow> TargetConfirmation option" where
  "sighting f obs now =
     (case outcome obs of
        Hit ac \<Rightarrow> target_confirmation_for_aircraft f ac (used_hex obs) now
      | _ \<Rightarrow> None)"

lemma advance_timeline:
  "identity_of (fst (advance_flight env f obs now)) = identity_of f"
  "fl_last_adsb_poll_at (fst (advance_flight env f obs now)) = Some now"
  "fl_last_visible_at (fst (advance_flight env f obs now)) =
     (if sighting f obs now = None then fl_last_visible_at f else Some now)"
  "fl_last_seen (fst (advance_flight env f obs now)) =
     (if is_some_and (sighting f obs now) is_target_confirmed then Some now else fl_last_seen f)"
proof -
  have m: "identity_of (fst (advance_miss env g uh now)) = identity_of g"
    "fl_last_adsb_poll_at (fst (advance_miss env g uh now)) = fl_last_adsb_poll_at g"
    "fl_last_visible_at (fst (advance_miss env g uh now)) = fl_last_visible_at g"
    "fl_last_seen (fst (advance_miss env g uh now)) = fl_last_seen g" for g uh
    using advance_miss_simps(1) [of env g uh now] by (simp_all add: timeline_def)
  show "identity_of (fst (advance_flight env f obs now)) = identity_of f"
    "fl_last_adsb_poll_at (fst (advance_flight env f obs now)) = Some now"
    "fl_last_visible_at (fst (advance_flight env f obs now)) =
       (if sighting f obs now = None then fl_last_visible_at f else Some now)"
    "fl_last_seen (fst (advance_flight env f obs now)) =
       (if is_some_and (sighting f obs now) is_target_confirmed then Some now else fl_last_seen f)"
    by (cases obs rule: observation_cases;
        simp add: advance_flight_cases sighting_def m advance_hit_timeline split: option.split)+
qed

lemma advance_removal:
  "removal (snd (advance_flight env f obs now)) =
     (if outcome obs = Miss then map_option TrackingLost (lost_for f now) else None)"
  by (cases obs rule: observation_cases)
    (simp_all add: advance_flight_cases advance_miss_lost advance_hit_timeline lost_for_def
      advance_simps split: option.split)

text \<open>What a hit announces, in the order it is announced.\<close>

definition became_visible :: "TrackedFlight \<Rightarrow> Observation \<Rightarrow> instant \<Rightarrow> bool" where
  "became_visible f obs now =
     (\<not> is_target_confirmed (fl_target_confirmation f) \<and>
      is_some_and (sighting f obs now) is_target_confirmed)"

definition phase_before :: "TrackedFlight \<Rightarrow> Observation \<Rightarrow> instant \<Rightarrow> FlightPhase" where
  "phase_before f obs now =
     (if became_visible f obs now \<and> is_pending_adsb f then Unknown else fl_phase f)"

lemma transition_stateD:
  "transition_state g = transition_state f \<Longrightarrow>
     fl_phase g = fl_phase f \<and> fl_takeoff_at g = fl_takeoff_at f \<and>
     fl_divert_consecutive_polls g = fl_divert_consecutive_polls f"
  by (simp add: transition_state_def)

text \<open>The flight that the phase block of a hit sees.\<close>

lemma hit_visible_phase:
  "fl_phase (fst (hit_visible b w (after_observed f ac uh raw now, u))) =
     (if b \<and> w then Unknown else fl_phase f)"
  "fl_takeoff_at (fst (hit_visible b w (after_observed f ac uh raw now, u))) = fl_takeoff_at f"
  using transition_stateD [OF after_observed_frame(6)] by (simp_all add: advance_simps)

lemma advance_hit_phase_not_landing:
  assumes "fl_phase f \<noteq> Landing"
  shows "fl_phase (fst (advance_hit env f ac uh wp wc raw now)) \<noteq> Landing"
proof -
  obtain u where u: "advance_hit env f ac uh wp wc raw now =
       hit_divert env (fl_lat f) (fl_lon f) (sample_confirmed f ac uh raw now)
         (hit_phase env ac (sample_confirmed f ac uh raw now) now
           (hit_visible (\<not> wc \<and> is_target_confirmed raw) wp (after_observed f ac uh raw now, u)))"
    using advance_hit_shape by blast
  let ?g = "fst (hit_visible (\<not> wc \<and> is_target_confirmed raw) wp (after_observed f ac uh raw now, u))"
  have "fl_phase ?g \<noteq> Landing" using assms unfolding hit_visible_phase by simp
  then show ?thesis
    unfolding u hit_divert_frame hit_phase_phase by (simp split: if_split)
qed

lemma advance_phase_not_landing:
  "fl_phase f \<noteq> Landing \<Longrightarrow> fl_phase (fst (advance_flight env f obs now)) \<noteq> Landing"
  by (cases obs rule: observation_cases)
    (simp_all add: advance_flight_cases advance_hit_phase_not_landing split: option.split)

lemma phase_emit_at_most_one: "length (phase_emit p t) \<le> 1"
  by (cases p) simp_all

lemma squawk_emits_at_most_one: "length (squawk_emits prev ac sc) \<le> 1"
  by (simp add: squawk_emits_def split: option.split)

lemma phase_emit_mem:
  "e \<in> set (phase_emit p t) \<Longrightarrow> e \<in> {EmitTakeoff, EmitCruise, EmitDescent, EmitApproach, EmitLanding t}"
  by (cases p) simp_all

lemma advance_hit_report:
  fixes f :: TrackedFlight and raw :: TargetConfirmation and wc wp :: bool
  defines "b \<equiv> \<not> wc \<and> is_target_confirmed raw"
  shows "\<exists>g ds. fl_phase g = (if b \<and> wp then Unknown else fl_phase f) \<and>
     fl_takeoff_at g = fl_takeoff_at f \<and>
     emits (snd (advance_hit env f ac uh wp wc raw now)) =
       squawk_emits (fl_squawk f) ac (sample_confirmed f ac uh raw now) @
       (if b then [EmitAdsbVisible] else []) @
       hit_phase_emits g ac (sample_confirmed f ac uh raw now) now @ ds \<and>
     (ds = [] \<or> (ds = [EmitPossibleDivert] \<and>
       3 \<le> unat (fl_divert_consecutive_polls (fst (advance_hit env f ac uh wp wc raw now))))) \<and>
     fl_phase (fst (advance_hit env f ac uh wp wc raw now)) =
       (if sample_confirmed f ac uh raw now
        then if detect_phase g ac = Landing \<and> fl_phase g \<noteq> Landing then Ground else detect_phase g ac
        else fl_phase g) \<and>
     fl_takeoff_at (fst (advance_hit env f ac uh wp wc raw now)) =
       (if sample_confirmed f ac uh raw now \<and> detect_phase g ac = Landing \<and> fl_phase g \<noteq> Landing
        then None
        else if sample_confirmed f ac uh raw now \<and> fl_phase g = Ground \<and>
          is_airborne_phase (detect_phase g ac) \<and> fl_takeoff_at g = None then Some now
        else fl_takeoff_at g)"
proof -
  obtain u where u: "advance_hit env f ac uh wp wc raw now =
       hit_divert env (fl_lat f) (fl_lon f) (sample_confirmed f ac uh raw now)
         (hit_phase env ac (sample_confirmed f ac uh raw now) now
           (hit_visible b wp (after_observed f ac uh raw now, u)))"
    and e: "emits u = squawk_emits (fl_squawk f) ac (sample_confirmed f ac uh raw now)"
    using advance_hit_shape b_def by blast
  let ?v = "hit_visible b wp (after_observed f ac uh raw now, u)"
  let ?p = "hit_phase env ac (sample_confirmed f ac uh raw now) now ?v"
  obtain ds where ds: "emits (snd (advance_hit env f ac uh wp wc raw now)) = emits (snd ?p) @ ds"
    "ds = [] \<or> (ds = [EmitPossibleDivert] \<and>
       3 \<le> unat (fl_divert_consecutive_polls (fst (advance_hit env f ac uh wp wc raw now))))"
    unfolding u using hit_divert_emits by blast
  have em: "emits (snd ?p) = squawk_emits (fl_squawk f) ac (sample_confirmed f ac uh raw now) @
       (if b then [EmitAdsbVisible] else []) @
       hit_phase_emits (fst ?v) ac (sample_confirmed f ac uh raw now) now"
    unfolding hit_phase_frame hit_visible_frame by (simp add: e)
  show ?thesis
  proof (rule exI [of _ "fst ?v"], rule exI [of _ ds], intro conjI)
    show "fl_phase (fst ?v) = (if b \<and> wp then Unknown else fl_phase f)"
      "fl_takeoff_at (fst ?v) = fl_takeoff_at f" by (rule hit_visible_phase)+
  qed (use ds em in \<open>simp_all only: u hit_divert_frame hit_phase_phase hit_phase_takeoff Let_def
      append_assoc\<close>)
qed

lemma phase_emit_Landing_iff: "EmitLanding t \<in> set (phase_emit p w) \<longleftrightarrow> p = Landing \<and> t = w"
  by (cases p) auto

lemma hit_phase_emits_Landing:
  "EmitLanding t \<in> set (hit_phase_emits g ac sc now) \<longleftrightarrow>
     sc \<and> detect_phase g ac = Landing \<and> fl_phase g \<noteq> Landing \<and> t = fl_takeoff_at g"
  by (auto simp: hit_phase_emits_def phase_emit_Landing_iff advance_simps is_airborne_phase_def)

lemma squawk_emits_not_other: "e \<in> set (squawk_emits p ac sc) \<Longrightarrow> \<exists>c m. e = EmitSquawkEmergency c m"
  by (auto simp: squawk_emits_def split: option.splits if_splits)

lemma advance_hit_landing:
  assumes "EmitLanding t \<in> set (emits (snd (advance_hit env f ac uh wp wc raw now)))"
    and "fl_phase f \<noteq> Landing"
  shows "t = fl_takeoff_at f \<and> is_on_ground ac \<and> fl_phase f \<notin> {Ground, Unknown} \<and>
     fl_phase (fst (advance_hit env f ac uh wp wc raw now)) = Ground \<and>
     fl_takeoff_at (fst (advance_hit env f ac uh wp wc raw now)) = None"
proof -
  obtain g ds where g: "fl_phase g = (if (\<not> wc \<and> is_target_confirmed raw) \<and> wp then Unknown else fl_phase f)"
    "fl_takeoff_at g = fl_takeoff_at f"
    and em: "emits (snd (advance_hit env f ac uh wp wc raw now)) =
       squawk_emits (fl_squawk f) ac (sample_confirmed f ac uh raw now) @
       (if \<not> wc \<and> is_target_confirmed raw then [EmitAdsbVisible] else []) @
       hit_phase_emits g ac (sample_confirmed f ac uh raw now) now @ ds"
    and ds: "ds = [] \<or> ds = [EmitPossibleDivert]"
    and ph: "fl_phase (fst (advance_hit env f ac uh wp wc raw now)) =
       (if sample_confirmed f ac uh raw now
        then if detect_phase g ac = Landing \<and> fl_phase g \<noteq> Landing then Ground else detect_phase g ac
        else fl_phase g)"
    and ta: "fl_takeoff_at (fst (advance_hit env f ac uh wp wc raw now)) =
       (if sample_confirmed f ac uh raw now \<and> detect_phase g ac = Landing \<and> fl_phase g \<noteq> Landing
        then None
        else if sample_confirmed f ac uh raw now \<and> fl_phase g = Ground \<and>
          is_airborne_phase (detect_phase g ac) \<and> fl_takeoff_at g = None then Some now
        else fl_takeoff_at g)"
    using advance_hit_report [of wc raw wp f env ac uh now] by auto
  have "EmitLanding t \<in> set (hit_phase_emits g ac (sample_confirmed f ac uh raw now) now)"
    using assms(1) ds unfolding em by (auto dest: squawk_emits_not_other split: if_splits)
  then have l: "sample_confirmed f ac uh raw now" "detect_phase g ac = Landing" "fl_phase g \<noteq> Landing"
    "t = fl_takeoff_at g"
    by (simp_all add: hit_phase_emits_Landing)
  then have "is_on_ground ac \<and> fl_phase g \<notin> {Ground, Unknown}" using detect_phase_Landing by blast
  with l g ph ta show ?thesis by (simp split: if_splits)
qed

section \<open>Well-formed flights\<close>

lemma alias_frames [advance_simps]:
  "fl_alias_callsigns (fst (hit_visible b w fu)) = fl_alias_callsigns (fst fu)"
  "fl_alias_callsigns (fst (hit_phase env ac sc now fu)) = fl_alias_callsigns (fst fu)"
  "fl_alias_callsigns (fst (divert_decision env p c d fu)) = fl_alias_callsigns (fst fu)"
  "fl_alias_callsigns (fst (hit_divert env la lo sc fu)) = fl_alias_callsigns (fst fu)"
proof -
  show dd: "fl_alias_callsigns (fst (divert_decision env p c d fu)) = fl_alias_callsigns (fst fu)"
    for p c d fu
    unfolding divert_decision_def Let_def prod.case_eq_if fst_conv by simp
  show "fl_alias_callsigns (fst (hit_visible b w fu)) = fl_alias_callsigns (fst fu)"
    "fl_alias_callsigns (fst (hit_phase env ac sc now fu)) = fl_alias_callsigns (fst fu)"
    by (simp_all add: hit_visible_def hit_phase_def phase_changed_def Let_def split: prod.split)
  show "fl_alias_callsigns (fst (hit_divert env la lo sc fu)) = fl_alias_callsigns (fst fu)"
    by (simp add: hit_divert_def dd split: prod.split option.split)
qed

lemma after_observed_aliases:
  assumes "distinct_aliases (fl_alias_callsigns f)"
  shows "distinct_aliases (fl_alias_callsigns (after_observed f ac uh raw now))"
proof -
  have r: "distinct_aliases (fl_alias_callsigns (fst (resolve_callsign_from g c)))"
    if "distinct_aliases (fl_alias_callsigns g)" for g c
    using that by (simp add: resolve_callsign_from_def add_alias_callsign_distinct split: option.split)
  have s: "fl_alias_callsigns (seed_telemetry (seed_aircraft_type (seed_hex g ac d) ac) ac) =
      fl_alias_callsigns g" for g d
    by (simp add: seed_telemetry_def seed_aircraft_type_def seed_hex_def fl_frame split: option.split)
  show ?thesis
    unfolding after_observed_def apply_observed_unfold Let_def fst_conv s
    by (rule r) (simp add: assms)
qed

lemma advance_aliases_distinct:
  assumes d: "distinct_aliases (fl_alias_callsigns f)"
  shows "distinct_aliases (fl_alias_callsigns (fst (advance_flight env f obs now)))"
proof -
  have h: "distinct_aliases (fl_alias_callsigns (fst (advance_hit env g ac uh wp wc raw now)))"
    if g: "distinct_aliases (fl_alias_callsigns g)" for g ac uh wp wc raw
  proof -
    obtain u where u: "advance_hit env g ac uh wp wc raw now =
       hit_divert env (fl_lat g) (fl_lon g) (sample_confirmed g ac uh raw now)
         (hit_phase env ac (sample_confirmed g ac uh raw now) now
           (hit_visible (\<not> wc \<and> is_target_confirmed raw) wp (after_observed g ac uh raw now, u)))"
      using advance_hit_shape by blast
    show ?thesis unfolding u alias_frames fst_conv by (rule after_observed_aliases [OF g])
  qed
  show ?thesis
    using d by (cases obs rule: observation_cases)
      (simp_all add: advance_flight_cases h split: option.split)
qed

fun opt_le :: "'a::linorder option \<Rightarrow> 'a option \<Rightarrow> bool" where
  "opt_le None b = True"
| "opt_le (Some a) (Some b) = (a \<le> b)"
| "opt_le (Some a) None = False"

lemma opt_le_trans: "opt_le a b \<Longrightarrow> opt_le b c \<Longrightarrow> opt_le a c"
  by (cases a; cases b; cases c) auto

text \<open>
  The invariant of a tracked flight at the time \<open>now\<close>: the transient phase Landing is never
  stored, no alias twice, a direct sighting is never younger than the last visibility, no
  instant lies in the future, and a confirmed target has been seen.
\<close>

definition flight_ok :: "instant \<Rightarrow> TrackedFlight \<Rightarrow> bool" where
  "flight_ok now f \<longleftrightarrow>
     fl_phase f \<noteq> Landing \<and> distinct_aliases (fl_alias_callsigns f) \<and>
     opt_le (fl_last_seen f) (fl_last_visible_at f) \<and>
     opt_le (fl_last_visible_at f) (Some now) \<and> opt_le (fl_last_adsb_poll_at f) (Some now) \<and>
     (is_target_confirmed (fl_target_confirmation f) \<longrightarrow> fl_last_seen f \<noteq> None)"

lemma flight_ok_mono: "flight_ok now f \<Longrightarrow> now \<le> later \<Longrightarrow> flight_ok later f"
  unfolding flight_ok_def using opt_le_trans [of _ "Some now" "Some later"] by simp

lemma advance_confirmation:
  "fl_target_confirmation (fst (advance_flight env f obs now)) =
     (case sighting f obs now of
        None \<Rightarrow> fl_target_confirmation f
      | Some raw \<Rightarrow> if should_keep_prior_confirmation f raw (used_hex obs) now
                    then fl_target_confirmation f else raw)"
  by (cases obs rule: observation_cases)
    (simp_all add: advance_flight_cases sighting_def advance_hit_timeline split: option.split)

lemma advance_flight_ok:
  assumes ok: "flight_ok now f" and le: "now \<le> later"
  shows "flight_ok later (fst (advance_flight env f obs later))"
proof -
  have ok': "flight_ok later f" using flight_ok_mono [OF ok le] .
  then have "opt_le (fl_last_seen f) (Some later)" unfolding flight_ok_def using opt_le_trans by blast
  moreover have "is_target_confirmed (fl_target_confirmation (fst (advance_flight env f obs later))) \<Longrightarrow>
      fl_last_seen (fst (advance_flight env f obs later)) \<noteq> None"
    using ok' by (auto simp: advance_confirmation advance_timeline flight_ok_def
        should_keep_prior_confirmation_def is_some_and_iff split: option.splits if_splits)
  ultimately show ?thesis
    using ok' unfolding flight_ok_def
    by (auto simp: advance_timeline advance_phase_not_landing advance_aliases_distinct is_some_and_iff)
qed

section \<open>Runs of observations\<close>

text \<open>A flight polled repeatedly, until it is removed.\<close>

fun advance_run ::
  "advance_env \<Rightarrow> TrackedFlight \<Rightarrow> (Observation \<times> instant) list \<Rightarrow> TrackedFlight \<times> RemovalReason option" where
  "advance_run env f [] = (f, None)"
| "advance_run env f ((obs, now) # rest) =
     (let r = advance_flight env f obs now in
      if removal (snd r) = None then advance_run env (fst r) rest else (fst r, removal (snd r)))"

fun is_hit :: "PollOutcome \<Rightarrow> bool" where
  "is_hit (Hit _) = True"
| "is_hit _ = False"

lemma sighting_not_hit: "\<not> is_hit (outcome obs) \<Longrightarrow> sighting f obs now = None"
  by (cases "outcome obs") (simp_all add: sighting_def)

section \<open>Properties\<close>

text \<open>
  The transition keeps the invariant of a tracked flight at a clock that does not run
  backwards, never changes which flight is tracked, by whom and since when, and stamps the poll.
\<close>

theorem advance_keeps_invariant:
  assumes "flight_ok now f" and "now \<le> later"
  shows "flight_ok later (fst (advance_flight env f obs later)) \<and>
     identity_of (fst (advance_flight env f obs later)) = identity_of f \<and>
     fl_last_adsb_poll_at (fst (advance_flight env f obs later)) = Some later"
  using advance_flight_ok [OF assms] by (simp add: advance_timeline)

text \<open>
  Claim C6. A flight is removed by the transition exactly when the poll found nothing and the
  last aircraft seen for it is at least thirty minutes old; the reason carries the age in whole
  seconds, and the chat is told exactly then.
\<close>

theorem tracking_lost_exactly:
  "(removal (snd (advance_flight env f obs now)) = Some (TrackingLost n) \<longleftrightarrow>
      outcome obs = Miss \<and>
      (\<exists>t. fl_last_visible_at f = Some t \<and> now - t \<ge> secs 1800 \<and> n = (now - t) div secs 1)) \<and>
   (outcome obs = Miss \<longrightarrow> EmitTrackingLost \<in> set (emits (snd (advance_flight env f obs now))) \<longleftrightarrow>
      removal (snd (advance_flight env f obs now)) \<noteq> None)"
proof
  show "removal (snd (advance_flight env f obs now)) = Some (TrackingLost n) \<longleftrightarrow>
      outcome obs = Miss \<and>
      (\<exists>t. fl_last_visible_at f = Some t \<and> now - t \<ge> secs 1800 \<and> n = (now - t) div secs 1)"
    by (auto simp: advance_removal lost_for_def TRACKING_LOST_REMOVAL_def num_seconds_nonneg secs_def
        split: option.splits if_splits)
  show "outcome obs = Miss \<longrightarrow> EmitTrackingLost \<in> set (emits (snd (advance_flight env f obs now))) \<longleftrightarrow>
      removal (snd (advance_flight env f obs now)) \<noteq> None"
    by (cases obs rule: observation_cases) (simp_all add: advance_flight_cases advance_miss_lost)
qed

text \<open>
  Once an aircraft was seen at \<open>t\<close>, any run of polls without an aircraft (misses, errors
  and timeouts in any order) removes the flight at the first miss that comes thirty minutes or
  more after \<open>t\<close>, and otherwise never: errors and timeouts alone never lose a flight.
\<close>

theorem lost_at_first_late_miss:
  assumes "fl_last_visible_at f = Some t" and "\<forall>(obs, now)\<in>set run. \<not> is_hit (outcome obs)"
  shows "snd (advance_run env f run) =
     (case find (\<lambda>(obs, now). outcome obs = Miss \<and> now - t \<ge> secs 1800) run of
        None \<Rightarrow> None
      | Some (obs, now) \<Rightarrow> Some (TrackingLost (num_seconds (now - t))))"
  using assms
proof (induction run arbitrary: f)
  case Nil
  then show ?case by simp
next
  case (Cons p run)
  obtain obs now where p: "p = (obs, now)" by (cases p)
  let ?r = "advance_flight env f obs now"
  have nh: "\<not> is_hit (outcome obs)" using Cons.prems(2) p by simp
  then have "fl_last_visible_at (fst ?r) = Some t"
    by (simp add: advance_timeline sighting_not_hit Cons.prems(1))
  with Cons.IH Cons.prems(2) have ih: "snd (advance_run env (fst ?r) run) =
     (case find (\<lambda>(obs, now). outcome obs = Miss \<and> now - t \<ge> secs 1800) run of
        None \<Rightarrow> None
      | Some (obs, now) \<Rightarrow> Some (TrackingLost (num_seconds (now - t))))" by simp
  show ?case
    using Cons.prems(1) ih
    by (simp add: p Let_def advance_removal lost_for_def TRACKING_LOST_REMOVAL_def)
qed

text \<open>
  An aircraft that transmits a callsign other than the target's and that was not asked
  for by its address alone is not taken for the target: the flight is not counted as seen, keeps
  its phase and nothing is said, whatever the confirmation was before.
\<close>

theorem other_aircraft_is_silent:
  assumes "aircraft_callsign ac = Some c" and "\<not> flight_matches_callsign f c"
    and "\<not> is_hex_id (fl_identifier f)"
  shows "emits (snd (advance_flight env f \<lparr>used_hex = uh, outcome = Hit ac\<rparr> now)) = [] \<and>
     fl_last_seen (fst (advance_flight env f \<lparr>used_hex = uh, outcome = Hit ac\<rparr> now)) = fl_last_seen f \<and>
     fl_phase (fst (advance_flight env f \<lparr>used_hex = uh, outcome = Hit ac\<rparr> now)) = fl_phase f \<and>
     removal (snd (advance_flight env f \<lparr>used_hex = uh, outcome = Hit ac\<rparr> now)) = None"
proof -
  have tc: "target_confirmation_for_aircraft f ac uh now = (if uh then Some AircraftVisible else None)"
    using assms by (simp add: target_confirmation_for_aircraft_def)
  have sc: "\<not> sample_confirmed f ac True AircraftVisible now"
    using assms(1) by (simp add: sample_confirmed_def)
  have h: "emits (snd (advance_hit env (polled f now) ac True wp wc AircraftVisible now)) = [] \<and>
      fl_phase (fst (advance_hit env (polled f now) ac True wp wc AircraftVisible now)) = fl_phase f"
    for wp wc
  proof -
    obtain u where u: "advance_hit env (polled f now) ac True wp wc AircraftVisible now =
       hit_divert env (fl_lat (polled f now)) (fl_lon (polled f now))
           (sample_confirmed (polled f now) ac True AircraftVisible now)
         (hit_phase env ac (sample_confirmed (polled f now) ac True AircraftVisible now) now
           (hit_visible (\<not> wc \<and> is_target_confirmed AircraftVisible) wp
             (after_observed (polled f now) ac True AircraftVisible now, u)))"
      and e: "emits u = squawk_emits (fl_squawk (polled f now)) ac
         (sample_confirmed (polled f now) ac True AircraftVisible now)"
      using advance_hit_shape by blast
    have sp: "\<not> sample_confirmed (polled f now) ac True AircraftVisible now"
      using assms(1) by (simp add: sample_confirmed_def)
    have d: "emits (snd (hit_divert env la lo False fu)) = emits (snd fu)" for la lo fu
      by (simp add: hit_divert_def split: prod.split)
    show ?thesis
      using sp transition_stateD [OF after_observed_frame(6)]
      by (simp add: u e d advance_simps squawk_emits_def hit_phase_emits_def hit_phase_phase
          split: option.split)
  qed
  show ?thesis
    using h by (simp add: advance_flight_cases advance_timeline advance_removal sighting_def tc
        advance_simps advance_hit_timeline)
qed

text \<open>
  Claim C8. A hit found by callsign can only confirm the target by its callsign; by the assigned
  address a target is confirmed without a callsign only within the departure window or for a
  flight tracked by its address; and a flight counts as confirmed after a poll only if this poll
  confirmed it, or it was confirmed before and the sticky window of five minutes still runs, or
  nothing was sighted.
\<close>

theorem confirmation_sound:
  assumes "is_target_confirmed (fl_target_confirmation (fst (advance_flight env f obs now)))"
  shows "(\<exists>ac. outcome obs = Hit ac \<and>
            is_some_and (aircraft_callsign ac) (flight_matches_callsign f)) \<or>
     (\<exists>ac. outcome obs = Hit ac \<and> used_hex obs \<and> inferred_by_hex_window f now \<and>
        (is_hex_id (fl_identifier f) \<or> aircraft_callsign ac = None)) \<or>
     (is_target_confirmed (fl_target_confirmation f) \<and>
        (sighting f obs now = None \<or>
         (used_hex obs \<and> (\<exists>t. fl_last_seen f = Some t \<and> now - t \<le> secs 300))))"
  using assms
  by (auto simp: advance_confirmation should_keep_prior_confirmation_def is_some_and_iff
      sighting_def target_confirmation_for_aircraft_def TRACKING_LOST_THRESHOLD_def
      split: option.splits if_splits PollOutcome.splits)

text \<open>
  Claim C7. A landing is announced only for an aircraft that reports being on the ground while the
  flight was airborne; it carries the takeoff instant that was recorded, which is then forgotten,
  and the flight rests in phase Ground, so the landing is not announced again.
\<close>

theorem landing_announced_once:
  assumes "EmitLanding t \<in> set (emits (snd (advance_flight env f obs now)))"
    and "flight_ok before f"
  shows "(\<exists>ac. outcome obs = Hit ac \<and> is_on_ground ac) \<and>
     fl_phase f \<in> {Takeoff, Climb, Cruise, Descent, Approach} \<and> t = fl_takeoff_at f \<and>
     fl_phase (fst (advance_flight env f obs now)) = Ground \<and>
     fl_takeoff_at (fst (advance_flight env f obs now)) = None \<and>
     (\<forall>ac uh w t'. is_on_ground ac \<longrightarrow> EmitLanding t' \<notin>
        set (emits (snd (advance_flight env (fst (advance_flight env f obs now))
          \<lparr>used_hex = uh, outcome = Hit ac\<rparr> w))))"
proof -
  have nl: "fl_phase f \<noteq> Landing" using assms(2) by (simp add: flight_ok_def)
  have air: "p \<in> {Takeoff, Climb, Cruise, Descent, Approach}" if "p \<notin> {Ground, Unknown}" "p \<noteq> Landing"
    for p using that by (cases p) auto
  have one: "is_on_ground ac \<and> fl_phase g \<notin> {Ground, Unknown} \<and> u = fl_takeoff_at g \<and>
      fl_phase (fst (advance_flight env g \<lparr>used_hex = uh, outcome = Hit ac\<rparr> w)) = Ground \<and>
      fl_takeoff_at (fst (advance_flight env g \<lparr>used_hex = uh, outcome = Hit ac\<rparr> w)) = None"
    if "EmitLanding u \<in> set (emits (snd (advance_flight env g \<lparr>used_hex = uh, outcome = Hit ac\<rparr> w)))"
      and "fl_phase g \<noteq> Landing" for g u uh ac w
    using that advance_hit_landing [of u env "polled g w" ac uh]
    by (auto simp: advance_flight_cases advance_simps split: option.splits)
  obtain ac where ac: "obs = \<lparr>used_hex = used_hex obs, outcome = Hit ac\<rparr>"
    using assms(1) by (cases obs rule: observation_cases)
      (auto simp: advance_flight_cases advance_miss_lost split: if_splits)
  from assms(1) nl ac have "is_on_ground ac \<and> fl_phase f \<notin> {Ground, Unknown} \<and> t = fl_takeoff_at f \<and>
      fl_phase (fst (advance_flight env f obs now)) = Ground \<and>
      fl_takeoff_at (fst (advance_flight env f obs now)) = None"
    using one by metis
  moreover from this have "EmitLanding t' \<notin>
        set (emits (snd (advance_flight env (fst (advance_flight env f obs now))
          \<lparr>used_hex = uh, outcome = Hit ac'\<rparr> w)))" for ac' uh w t'
    using one by (metis FlightPhase.distinct insertCI)
  ultimately show ?thesis using ac air nl by (metis Observation.select_convs(2))
qed


text \<open>The converse of the landing lemma: when a landing is announced.\<close>

lemma advance_hit_lands:
  assumes "sample_confirmed f ac uh raw now" and "is_on_ground ac"
    and "fl_phase f \<notin> {Ground, Unknown, Landing}" and "wc \<or> \<not> wp"
  shows "EmitLanding (fl_takeoff_at f) \<in> set (emits (snd (advance_hit env f ac uh wp wc raw now)))"
proof -
  obtain g ds where g: "fl_phase g = (if (\<not> wc \<and> is_target_confirmed raw) \<and> wp then Unknown else fl_phase f)"
    "fl_takeoff_at g = fl_takeoff_at f"
    and em: "emits (snd (advance_hit env f ac uh wp wc raw now)) =
       squawk_emits (fl_squawk f) ac (sample_confirmed f ac uh raw now) @
       (if \<not> wc \<and> is_target_confirmed raw then [EmitAdsbVisible] else []) @
       hit_phase_emits g ac (sample_confirmed f ac uh raw now) now @ ds"
    using advance_hit_report [of wc raw wp f env ac uh now] by blast
  have p: "fl_phase g = fl_phase f" using g(1) assms(4) by auto
  then have "detect_phase g ac = Landing" using assms(2,3) detect_phase_on_ground by simp
  then have "EmitLanding (fl_takeoff_at f) \<in> set (hit_phase_emits g ac (sample_confirmed f ac uh raw now) now)"
    using assms(1,3) p g(2) by (simp add: hit_phase_emits_Landing)
  then show ?thesis unfolding em by simp
qed

section \<open>Concrete flights\<close>

definition demo_env :: advance_env where
  "demo_env = \<lparr>en_fmt = \<lparr>rfc3339_secs = (\<lambda>_. []), hour_minute = (\<lambda>_. []), year_month_day = (\<lambda>_. [])\<rparr>,
     en_airports = (\<lambda>_. None), en_bearing = (\<lambda>_ _ _ _. 0)\<rparr>"

definition demo_flight :: TrackedFlight where
  "demo_flight = new_flight (Callsign (str ''DLH1A'')) (Some (str ''DLH1A'')) (str ''alice'') 0 False"

definition demo_aircraft :: NearbyAircraft where
  "demo_aircraft = \<lparr>ac_hex = Some (str ''3c6444''), ac_flight = Some (str ''DLH1A ''), ac_r = None,
     ac_t = None, ac_alt_baro = Some AltGround, ac_lat = None, ac_lon = None, ac_gs = None,
     ac_baro_rate = None, ac_geom_rate = None, ac_squawk = Some (str ''7700''), ac_nav_modes = None,
     ac_rssi = None, ac_seen_pos = None\<rparr>"

lemmas demo_defs = demo_env_def demo_flight_def demo_aircraft_def new_flight_def

lemma demo_flight_ok: "flight_ok 0 demo_flight"
  by (simp add: flight_ok_def demo_defs distinct_aliases_def)

lemma demo_aircraft_simps:
  "aircraft_callsign demo_aircraft = Some (str ''DLH1A'')"
  "aircraft_callsign (demo_aircraft\<lparr>ac_flight := Some (str ''BAW12'')\<rparr>) = Some (str ''BAW12'')"
  "is_on_ground demo_aircraft"
  unfolding aircraft_callsign_def is_on_ground_def
  by (simp_all add: demo_aircraft_def trim_def trim_start_def trim_end_def is_whitespace_def rstr_simps)

lemma demo_flight_simps:
  "fl_callsign demo_flight = Some (str ''DLH1A'')" "fl_alias_callsigns demo_flight = []"
  "fl_identifier demo_flight = Callsign (str ''DLH1A'')" "fl_target_confirmation demo_flight = Pending"
  by (simp_all add: demo_defs)

theorem advance_keeps_invariant_witness:
  "flight_ok 5 (fst (advance_flight demo_env demo_flight \<lparr>used_hex = False, outcome = Hit demo_aircraft\<rparr> 5))"
  using advance_keeps_invariant [OF demo_flight_ok, of 5 demo_env] by simp

theorem tracking_lost_exactly_witness:
  "removal (snd (advance_flight demo_env (demo_flight\<lparr>fl_last_visible_at := Some 0\<rparr>)
     \<lparr>used_hex = False, outcome = Miss\<rparr> (secs 1801))) = Some (TrackingLost 1801)"
  using tracking_lost_exactly [of demo_env "demo_flight\<lparr>fl_last_visible_at := Some 0\<rparr>"
      "\<lparr>used_hex = False, outcome = Miss\<rparr>" "secs 1801" 1801]
  by (simp add: secs_def)

theorem lost_at_first_late_miss_witness:
  "snd (advance_run demo_env (demo_flight\<lparr>fl_last_visible_at := Some 0\<rparr>)
     [(\<lparr>used_hex = False, outcome = Miss\<rparr>, secs 60),
      (\<lparr>used_hex = False, outcome = Timeout\<rparr>, secs 1900),
      (\<lparr>used_hex = False, outcome = Miss\<rparr>, secs 1960)]) = Some (TrackingLost 1960)"
  using lost_at_first_late_miss [of "demo_flight\<lparr>fl_last_visible_at := Some 0\<rparr>" 0
     "[(\<lparr>used_hex = False, outcome = Miss\<rparr>, secs 60),
      (\<lparr>used_hex = False, outcome = Timeout\<rparr>, secs 1900),
      (\<lparr>used_hex = False, outcome = Miss\<rparr>, secs 1960)]" demo_env]
  by (simp add: secs_def num_seconds_nonneg)

theorem other_aircraft_is_silent_witness:
  "emits (snd (advance_flight demo_env demo_flight \<lparr>used_hex = True,
     outcome = Hit (demo_aircraft\<lparr>ac_flight := Some (str ''BAW12'')\<rparr>)\<rparr> 5)) = []"
proof -
  have "\<not> flight_matches_callsign demo_flight (str ''BAW12'')" "\<not> is_hex_id (fl_identifier demo_flight)"
    by (simp_all add: demo_aircraft_simps demo_flight_simps flight_matches_callsign_def
        eq_ignore_ascii_case_def to_ascii_lowercase_def ascii_lower_def is_ascii_uppercase_def rstr_simps)
  from other_aircraft_is_silent [OF demo_aircraft_simps(2) this, of demo_env True 5] show ?thesis by simp
qed

theorem confirmation_sound_witness:
  "is_some_and (aircraft_callsign demo_aircraft) (flight_matches_callsign demo_flight)"
proof -
  let ?o = "\<lparr>used_hex = False, outcome = Hit demo_aircraft\<rparr>"
  have s: "sighting demo_flight ?o 5 = Some ConfirmedByCallsign"
    by (simp add: sighting_def target_confirmation_for_aircraft_def demo_aircraft_simps
        demo_flight_simps flight_matches_callsign_def)
  then have "is_target_confirmed (fl_target_confirmation (fst (advance_flight demo_env demo_flight ?o 5)))"
    by (simp add: advance_confirmation should_keep_prior_confirmation_def)
  from confirmation_sound [OF this] s show ?thesis by auto
qed

theorem landing_announced_once_witness:
  "\<exists>f obs. EmitLanding (Some 1) \<in> set (emits (snd (advance_flight demo_env f obs 5))) \<and>
     fl_phase (fst (advance_flight demo_env f obs 5)) = Ground"
proof -
  let ?f = "demo_flight\<lparr>fl_phase := Approach, fl_takeoff_at := Some 1,
     fl_target_confirmation := ConfirmedByCallsign, fl_last_seen := Some 2, fl_last_visible_at := Some 2\<rparr>"
  let ?o = "\<lparr>used_hex = False, outcome = Hit demo_aircraft\<rparr>"
  have t: "target_confirmation_for_aircraft ?f demo_aircraft False 5 = Some ConfirmedByCallsign"
    by (simp add: target_confirmation_for_aircraft_def demo_aircraft_simps demo_flight_simps
        flight_matches_callsign_def)
  have e: "EmitLanding (Some 1) \<in> set (emits (snd (advance_flight demo_env ?f ?o 5)))"
    using advance_hit_lands [of "polled ?f 5" demo_aircraft False ConfirmedByCallsign 5 True _ demo_env] demo_aircraft_simps
    by (simp add: advance_flight_cases t sample_confirmed_def)
  have "flight_ok 2 ?f" by (simp add: flight_ok_def demo_defs distinct_aliases_def)
  from landing_announced_once [OF e this] e show ?thesis by blast
qed


end
