(* ===== verification/Tracker_State.thy ===== *)
theory Tracker_State imports Flight_Advance begin

text \<open>
  \<^verbatim>\<open>aviation/tracker/state.rs\<close>: the migrations a state read from disk goes through. Reading the
  file and parsing RON are outside the model: \<open>StateFile\<close> is their result. Every migration is
  a map over the flights, so the load is a composition of per-flight steps.
\<close>

definition clear_pending_hex :: "TrackedFlight \<Rightarrow> TrackedFlight \<times> nat" where
  "clear_pending_hex f =
     (if \<not> is_hex_id (fl_identifier f) \<and> fl_last_seen f = None \<and> fl_hex f \<noteq> None \<and>
         fl_hex_source f \<noteq> Some AviationStack
      then (f\<lparr>fl_hex := None, fl_hex_source := None\<rparr>, 1)
      else (f, 0))"

definition migrate_target_confirmation :: "TrackedFlight \<Rightarrow> TrackedFlight \<times> nat" where
  "migrate_target_confirmation f =
     (if fl_target_confirmation f = Pending \<and> fl_last_seen f \<noteq> None
      then (f\<lparr>fl_target_confirmation :=
               (case fl_identifier f of Hex _ \<Rightarrow> InferredByAssignedHex
                                      | Callsign _ \<Rightarrow> ConfirmedByCallsign)\<rparr>, 1)
      else (f, 0))"

definition backfill_anchor :: "TrackedFlight \<Rightarrow> TrackedFlight \<times> nat" where
  "backfill_anchor f =
     (case (fl_last_visible_at f, fl_last_seen f) of
        (None, Some last_seen) \<Rightarrow>
          (f\<lparr>fl_last_visible_at := Some (case fl_last_adsb_poll_at f of
                None \<Rightarrow> last_seen
              | Some last_poll \<Rightarrow> max last_poll last_seen)\<rparr>, 1)
      | _ \<Rightarrow> (f, 0))"

text \<open>A counting loop over the flights.\<close>

definition migrate_all ::
  "(TrackedFlight \<Rightarrow> TrackedFlight \<times> nat) \<Rightarrow> FlightTrackerState \<Rightarrow> FlightTrackerState \<times> nat" where
  "migrate_all step st =
     (st\<lparr>flights := map (\<lambda>f. fst (step f)) (flights st)\<rparr>, sum_list (map (\<lambda>f. snd (step f)) (flights st)))"

definition clear_pending_callsign_hexes :: "FlightTrackerState \<Rightarrow> FlightTrackerState \<times> nat" where
  "clear_pending_callsign_hexes = migrate_all clear_pending_hex"

definition migrate_target_confirmations :: "FlightTrackerState \<Rightarrow> FlightTrackerState \<times> nat" where
  "migrate_target_confirmations = migrate_all migrate_target_confirmation"

definition seed_missing_aliases :: "FlightTrackerState \<Rightarrow> FlightTrackerState" where
  "seed_missing_aliases st = st\<lparr>flights := map seed_flight_aliases (flights st)\<rparr>"

definition backfill_visible_anchor :: "FlightTrackerState \<Rightarrow> FlightTrackerState \<times> nat" where
  "backfill_visible_anchor = migrate_all backfill_anchor"

datatype StateFile = Parsed FlightTrackerState | ParseError | FileNotFound | ReadError

definition load_tracker_state :: "StateFile \<Rightarrow> FlightTrackerState" where
  "load_tracker_state file =
     (case file of
        Parsed st \<Rightarrow>
          let (st, cleared_pending_hexes) = clear_pending_callsign_hexes st;
              (st, migrated_target_confirmations) = migrate_target_confirmations st;
              st = seed_missing_aliases st;
              (st, backfilled_visible_anchors) = backfill_visible_anchor st
          in st
      | ParseError \<Rightarrow> default_state
      | FileNotFound \<Rightarrow> default_state
      | ReadError \<Rightarrow> default_state)"

section \<open>Lemmas\<close>

definition load_flight :: "TrackedFlight \<Rightarrow> TrackedFlight" where
  "load_flight f = fst (backfill_anchor (seed_flight_aliases
     (fst (migrate_target_confirmation (fst (clear_pending_hex f))))))"

lemma load_tracker_state_map:
  "load_tracker_state (Parsed st) = st\<lparr>flights := map load_flight (flights st)\<rparr>"
  by (simp add: load_tracker_state_def clear_pending_callsign_hexes_def
      migrate_target_confirmations_def backfill_visible_anchor_def seed_missing_aliases_def
      migrate_all_def load_flight_def comp_def)

lemmas load_step_defs = clear_pending_hex_def migrate_target_confirmation_def backfill_anchor_def

named_theorems load_frame \<open>what the steps of the load leave alone\<close>

lemma clear_frame [load_frame]:
  "identity_of (fst (clear_pending_hex f)) = identity_of f"
  "fl_identifier (fst (clear_pending_hex f)) = fl_identifier f"
  "fl_callsign (fst (clear_pending_hex f)) = fl_callsign f"
  "fl_last_seen (fst (clear_pending_hex f)) = fl_last_seen f"
  "fl_last_visible_at (fst (clear_pending_hex f)) = fl_last_visible_at f"
  "fl_last_adsb_poll_at (fst (clear_pending_hex f)) = fl_last_adsb_poll_at f"
  "fl_target_confirmation (fst (clear_pending_hex f)) = fl_target_confirmation f"
  "fl_alias_callsigns (fst (clear_pending_hex f)) = fl_alias_callsigns f"
  "fl_phase (fst (clear_pending_hex f)) = fl_phase f"
  by (simp_all add: clear_pending_hex_def identity_of_def)

lemma migrate_frame [load_frame]:
  "identity_of (fst (migrate_target_confirmation f)) = identity_of f"
  "fl_identifier (fst (migrate_target_confirmation f)) = fl_identifier f"
  "fl_callsign (fst (migrate_target_confirmation f)) = fl_callsign f"
  "fl_hex (fst (migrate_target_confirmation f)) = fl_hex f"
  "fl_hex_source (fst (migrate_target_confirmation f)) = fl_hex_source f"
  "fl_last_seen (fst (migrate_target_confirmation f)) = fl_last_seen f"
  "fl_last_visible_at (fst (migrate_target_confirmation f)) = fl_last_visible_at f"
  "fl_last_adsb_poll_at (fst (migrate_target_confirmation f)) = fl_last_adsb_poll_at f"
  "fl_alias_callsigns (fst (migrate_target_confirmation f)) = fl_alias_callsigns f"
  "fl_phase (fst (migrate_target_confirmation f)) = fl_phase f"
  by (simp_all add: migrate_target_confirmation_def identity_of_def)

lemma backfill_frame [load_frame]:
  "identity_of (fst (backfill_anchor f)) = identity_of f"
  "fl_identifier (fst (backfill_anchor f)) = fl_identifier f"
  "fl_callsign (fst (backfill_anchor f)) = fl_callsign f"
  "fl_hex (fst (backfill_anchor f)) = fl_hex f"
  "fl_hex_source (fst (backfill_anchor f)) = fl_hex_source f"
  "fl_last_seen (fst (backfill_anchor f)) = fl_last_seen f"
  "fl_last_adsb_poll_at (fst (backfill_anchor f)) = fl_last_adsb_poll_at f"
  "fl_target_confirmation (fst (backfill_anchor f)) = fl_target_confirmation f"
  "fl_alias_callsigns (fst (backfill_anchor f)) = fl_alias_callsigns f"
  "fl_phase (fst (backfill_anchor f)) = fl_phase f"
  by (simp_all add: backfill_anchor_def identity_of_def split: option.split)

lemma seed_aliases_distinct:
  "distinct_aliases (fl_alias_callsigns f) \<Longrightarrow>
   distinct_aliases (fl_alias_callsigns (seed_flight_aliases f))"
  by (simp add: seed_flight_aliases_def Let_def add_alias_callsign_distinct
      split: option.split FlightIdentifier.split)
lemma add_alias_commutes_visible:
  "add_alias_callsign (f\<lparr>fl_last_visible_at := v\<rparr>) c = (add_alias_callsign f c)\<lparr>fl_last_visible_at := v\<rparr>"
  by (cases f) (simp add: add_alias_callsign_def split: option.split)

lemma seed_commutes_visible:
  "seed_flight_aliases (f\<lparr>fl_last_visible_at := v\<rparr>) = (seed_flight_aliases f)\<lparr>fl_last_visible_at := v\<rparr>"
  by (cases "fl_identifier f"; cases "fl_callsign f")
    (simp_all add: seed_flight_aliases_def add_alias_commutes_visible fl_frame)

lemma backfill_as_update:
  "fst (backfill_anchor f) = f\<lparr>fl_last_visible_at := fl_last_visible_at (fst (backfill_anchor f))\<rparr>"
  by (cases f) (simp add: backfill_anchor_def split: option.split)

lemma load_frames:
  "identity_of (load_flight f) = identity_of f"
  "fl_identifier (load_flight f) = fl_identifier f"
  "fl_last_seen (load_flight f) = fl_last_seen f"
  "fl_last_adsb_poll_at (load_flight f) = fl_last_adsb_poll_at f"
  "fl_phase (load_flight f) = fl_phase f"
  "fl_hex (load_flight f) = fl_hex (fst (clear_pending_hex f))"
  "fl_hex_source (load_flight f) = fl_hex_source (fst (clear_pending_hex f))"
  "fl_target_confirmation (load_flight f) = fl_target_confirmation (fst (migrate_target_confirmation f))"
proof -
  have id: "identity_of (seed_flight_aliases g) = identity_of g" for g
    by (simp add: identity_of_def fl_frame)
  show "identity_of (load_flight f) = identity_of f" by (simp add: load_flight_def load_frame id)
  show "fl_identifier (load_flight f) = fl_identifier f"
    "fl_last_seen (load_flight f) = fl_last_seen f"
    "fl_last_adsb_poll_at (load_flight f) = fl_last_adsb_poll_at f"
    "fl_phase (load_flight f) = fl_phase f"
    "fl_hex (load_flight f) = fl_hex (fst (clear_pending_hex f))"
    "fl_hex_source (load_flight f) = fl_hex_source (fst (clear_pending_hex f))"
    by (simp_all add: load_flight_def load_frame fl_frame)
  show "fl_target_confirmation (load_flight f) = fl_target_confirmation (fst (migrate_target_confirmation f))"
    by (auto simp: load_flight_def load_frame fl_frame migrate_target_confirmation_def)
qed

lemma load_visible:
  "fl_last_visible_at (load_flight f) =
     or_else (fl_last_visible_at f)
       (case fl_last_seen f of
          Some t \<Rightarrow> Some (case fl_last_adsb_poll_at f of None \<Rightarrow> t | Some p \<Rightarrow> max p t)
        | None \<Rightarrow> None)"
  by (simp add: load_flight_def backfill_anchor_def fl_frame load_frame split: option.split)

lemma load_anchors: "fl_last_seen f \<noteq> None \<Longrightarrow> fl_last_visible_at (load_flight f) \<noteq> None"
  by (cases "fl_last_visible_at f") (auto simp: load_visible)

lemma load_confirms: "fl_last_seen f \<noteq> None \<Longrightarrow> fl_target_confirmation (load_flight f) \<noteq> Pending"
  by (auto simp: load_frames migrate_target_confirmation_def split: FlightIdentifier.split)

lemma load_flight_idem: "load_flight (load_flight f) = load_flight f"
proof -
  let ?g = "load_flight f"
  have c: "fst (clear_pending_hex ?g) = ?g"
    using load_frames(2,3,6,7) [of f] by (auto simp: clear_pending_hex_def split: if_splits)
  have m: "fst (migrate_target_confirmation ?g) = ?g"
    using load_frames(2,3,8) [of f]
    by (auto simp: migrate_target_confirmation_def split: if_splits FlightIdentifier.splits)
  have b: "fst (backfill_anchor ?g) = ?g"
    using load_visible [of f] load_frames(3) [of f]
    by (auto simp: backfill_anchor_def split: option.splits)
  have s: "seed_flight_aliases ?g = ?g"
  proof -
    let ?h = "seed_flight_aliases (fst (migrate_target_confirmation (fst (clear_pending_hex f))))"
    obtain v where g: "?g = ?h\<lparr>fl_last_visible_at := v\<rparr>"
      unfolding load_flight_def using backfill_as_update by blast
    show ?thesis unfolding g seed_commutes_visible seed_flight_aliases_idem ..
  qed
  show ?thesis by (subst (1) load_flight_def) (simp add: c m s b)
qed

text \<open>
  What a state file may hold: a flight saved by this version, or one saved before the removal
  anchor \<open>fl_last_visible_at\<close> existed.
\<close>

definition persisted_ok :: "instant \<Rightarrow> TrackedFlight \<Rightarrow> bool" where
  "persisted_ok now f \<longleftrightarrow>
     fl_phase f \<noteq> Landing \<and> distinct_aliases (fl_alias_callsigns f) \<and>
     opt_le (fl_last_seen f) (Some now) \<and> opt_le (fl_last_visible_at f) (Some now) \<and>
     opt_le (fl_last_adsb_poll_at f) (Some now) \<and>
     (fl_last_visible_at f = None \<or> opt_le (fl_last_seen f) (fl_last_visible_at f)) \<and>
     (is_target_confirmed (fl_target_confirmation f) \<longrightarrow> fl_last_seen f \<noteq> None)"

lemma flight_ok_persisted: "flight_ok now f \<Longrightarrow> persisted_ok now f"
  unfolding flight_ok_def persisted_ok_def using opt_le_trans by blast

lemma anchor_ok:
  assumes "opt_le s (Some now)" and "opt_le v (Some now)" and "opt_le p (Some now)"
    and "v = None \<or> opt_le s v"
  shows "opt_le s (or_else v (case s of None \<Rightarrow> None
            | Some t \<Rightarrow> Some (case p of None \<Rightarrow> t | Some q \<Rightarrow> max q t))) \<and>
     opt_le (or_else v (case s of None \<Rightarrow> None
            | Some t \<Rightarrow> Some (case p of None \<Rightarrow> t | Some q \<Rightarrow> max q t))) (Some now)"
  using assms by (cases s; cases v; cases p) auto

lemma load_flight_ok:
  assumes "persisted_ok now f"
  shows "flight_ok now (load_flight f)"
proof -
  have al: "distinct_aliases (fl_alias_callsigns (load_flight f))"
    using assms by (simp add: load_flight_def load_frame seed_aliases_distinct persisted_ok_def)
  have vis: "opt_le (fl_last_seen f) (fl_last_visible_at (load_flight f)) \<and>
      opt_le (fl_last_visible_at (load_flight f)) (Some now)"
    unfolding load_visible using assms by (intro anchor_ok) (simp_all add: persisted_ok_def)
  have conf: "is_target_confirmed (fl_target_confirmation (load_flight f)) \<Longrightarrow> fl_last_seen f \<noteq> None"
    using assms unfolding load_frames migrate_target_confirmation_def
    by (auto simp: persisted_ok_def split: if_splits)
  show ?thesis using assms al vis conf by (simp add: flight_ok_def persisted_ok_def load_frames)
qed

section \<open>Properties\<close>

text \<open>
  Loading is idempotent: a state that was loaded, saved and loaded again is the state
  that was loaded first, so the migrations can run at every start.
\<close>

theorem load_idempotent:
  "load_tracker_state (Parsed (load_tracker_state (Parsed st))) = load_tracker_state (Parsed st)"
  by (simp add: load_tracker_state_map load_flight_idem comp_def)

text \<open>
  Loading keeps every flight in order with its identity and makes each well-formed,
  also one that was saved before the removal anchor existed;
  afterwards a flight that has been seen has an anchor for the removal clock that is no older than
  the sighting and is not pending, while a flight tracked by callsign that was never seen carries
  no address but one from AviationStack. An unreadable or malformed file gives the empty state.
\<close>

theorem load_migrates:
  "map identity_of (flights (load_tracker_state (Parsed st))) = map identity_of (flights st) \<and>
   (list_all (persisted_ok now) (flights st) \<longrightarrow>
      list_all (flight_ok now) (flights (load_tracker_state (Parsed st)))) \<and>
   (\<forall>f\<in>set (flights (load_tracker_state (Parsed st))).
      (fl_last_seen f \<noteq> None \<longrightarrow>
         fl_last_visible_at f \<noteq> None \<and> fl_target_confirmation f \<noteq> Pending) \<and>
      (fl_last_seen f = None \<and> \<not> is_hex_id (fl_identifier f) \<and> fl_hex f \<noteq> None \<longrightarrow>
         fl_hex_source f = Some AviationStack)) \<and>
   flight_info_cache (load_tracker_state (Parsed st)) = flight_info_cache st \<and>
   (\<forall>file\<in>{ParseError, FileNotFound, ReadError}. load_tracker_state file = default_state)"
proof (intro conjI)
  show "map identity_of (flights (load_tracker_state (Parsed st))) = map identity_of (flights st)"
    by (simp add: load_tracker_state_map load_frames comp_def)
  show "list_all (persisted_ok now) (flights st) \<longrightarrow>
      list_all (flight_ok now) (flights (load_tracker_state (Parsed st)))"
    by (auto simp: load_tracker_state_map list_all_iff load_flight_ok)
  show "\<forall>f\<in>set (flights (load_tracker_state (Parsed st))).
      (fl_last_seen f \<noteq> None \<longrightarrow>
         fl_last_visible_at f \<noteq> None \<and> fl_target_confirmation f \<noteq> Pending) \<and>
      (fl_last_seen f = None \<and> \<not> is_hex_id (fl_identifier f) \<and> fl_hex f \<noteq> None \<longrightarrow>
         fl_hex_source f = Some AviationStack)"
    using load_anchors load_confirms
    by (auto simp: load_tracker_state_map load_frames(2,3,6,7) clear_pending_hex_def split: if_splits)
  show "flight_info_cache (load_tracker_state (Parsed st)) = flight_info_cache st"
    by (simp add: load_tracker_state_map)
qed (simp add: load_tracker_state_def)

theorem load_migrates_witness:
  "list_all (flight_ok 0) (flights (load_tracker_state
     (Parsed \<lparr>flights = [demo_flight], flight_info_cache = []\<rparr>)))"
  using load_migrates [of "\<lparr>flights = [demo_flight], flight_info_cache = []\<rparr>" 0]
    flight_ok_persisted [OF demo_flight_ok]
  by simp

end
