(* ===== verification/Tracker_Commands.thy ===== *)
theory Tracker_Commands imports Tracker_Cache Tracker_State begin

text \<open>
  The chat commands of the flight tracker: \<^verbatim>\<open>handle_track\<close>, \<^verbatim>\<open>handle_untrack\<close>,
  \<^verbatim>\<open>handle_info\<close>, \<^verbatim>\<open>handle_status\<close> and the commands of the web dashboard, in
  \<^verbatim>\<open>aviation/tracker/commands.rs\<close>. A handler takes the state and the answers of the HTTP
  client and returns the new state with the list of effects it performs, in order. Every handler
  reads the clock at most once, so one instant stands for it.
\<close>

datatype Effect =
    Reply reply_to rstr
  | Say rstr
  | Journal instant FlightTrackerDebugEvent
  | SaveState FlightTrackerState
  | SendSnapshot reply_chan "TrackedFlightView list"
  | SendDeleted reply_chan "rstr option"

section \<open>Finding flights and choosing a lookup\<close>

definition find_index_by_identifier :: "TrackedFlight list \<Rightarrow> FlightIdentifier \<Rightarrow> nat option" where
  "find_index_by_identifier fs identifier = position (\<lambda>f. fl_identifier f = identifier) fs"

definition push_candidate :: "rstr list \<Rightarrow> rstr \<Rightarrow> rstr list" where
  "push_candidate candidates v =
     (let v = trim v in
      if v = [] then candidates
      else let v = to_uppercase v in
           if \<exists>existing\<in>set candidates. eq_ignore_ascii_case existing v then candidates
           else candidates @ [v])"

definition callsign_poll_candidates :: "TrackedFlight \<Rightarrow> rstr list" where
  "callsign_poll_candidates f =
     (let cs = [];
          cs = (case fl_callsign f of Some c \<Rightarrow> push_candidate cs c | None \<Rightarrow> cs);
          cs = (case fl_identifier f of Callsign i \<Rightarrow> push_candidate cs i | Hex _ \<Rightarrow> cs)
      in fold (\<lambda>alias cs. push_candidate cs alias) (fl_alias_callsigns f) cs)"

fun poll_aliases :: "(rstr \<Rightarrow> NearbyAircraft reply) \<Rightarrow> NearbyAircraft reply \<Rightarrow> rstr list \<Rightarrow>
    NearbyAircraft reply" where
  "poll_aliases get prev [] = prev"
| "poll_aliases get prev (callsign # rest) =
     (case get callsign of
        Got (Some ac) \<Rightarrow> Got (Some ac)
      | result \<Rightarrow> poll_aliases get result rest)"

definition poll_aircraft_by_callsign_aliases ::
  "aviation_client \<Rightarrow> rstr list \<Rightarrow> NearbyAircraft reply" where
  "poll_aircraft_by_callsign_aliases client candidates =
     poll_aliases (cl_aircraft_by_callsign client) (Got None) candidates"

definition find_flight_index :: "TrackedFlight list \<Rightarrow> rstr \<Rightarrow> nat option" where
  "find_flight_index fs query =
     (let upper = to_uppercase query in
      position (\<lambda>f.
        eq_ignore_ascii_case (as_str (fl_identifier f)) upper \<or>
        is_some_and (fl_callsign f) (\<lambda>cs. eq_ignore_ascii_case cs upper) \<or>
        (\<exists>alias\<in>set (fl_alias_callsigns f). eq_ignore_ascii_case alias upper) \<or>
        is_some_and (fl_hex f) (\<lambda>h. eq_ignore_ascii_case h upper)) fs)"

definition should_poll_by_hex :: "TrackedFlight \<Rightarrow> bool" where
  "should_poll_by_hex f =
     (is_hex_id (fl_identifier f) \<or>
      (fl_hex f \<noteq> None \<and> (fl_hex_source f \<noteq> None \<or> fl_last_seen f \<noteq> None)))"

definition should_skip_adsb_for_strict_chill :: "TrackedFlight \<Rightarrow> instant \<Rightarrow> bool" where
  "should_skip_adsb_for_strict_chill f now =
     (case fl_scheduled_departure_at f of
        None \<Rightarrow> False
      | Some scheduled_departure_at \<Rightarrow> scheduled_departure_at - now > hours 3)"

definition duplicate_tracking_exists ::
  "FlightTrackerState \<Rightarrow> FlightIdentifier \<Rightarrow> rstr option \<Rightarrow> rstr option \<Rightarrow> bool" where
  "duplicate_tracking_exists st identifier callsign hex =
     (\<exists>f\<in>set (flights st).
        fl_identifier f = identifier \<or>
        matches identifier (fl_callsign f) (fl_hex f) \<or>
        is_some_and (identifier_callsign identifier) (candidate_callsign_matches_flight f) \<or>
        is_some_and callsign (candidate_callsign_matches_flight f) \<or>
        is_some_and hex (\<lambda>hex. is_some_and (fl_hex f) (\<lambda>existing. eq_ignore_ascii_case existing hex)))"

definition track_started_response :: "TrackedFlight \<Rightarrow> rstr option \<Rightarrow> bool \<Rightarrow> rstr" where
  "track_started_response f aviationstack_info aviationstack_fallback =
     (let response = msg_track_started f;
          response = (case aviationstack_info of
                        Some info \<Rightarrow> response @ str '' | '' @ info | None \<Rightarrow> response)
      in if aviationstack_fallback then response @ str '' | AviationStack nix, ADS-B-only''
         else response)"

section \<open>Removing a flight\<close>

definition remove_flight_at ::
  "advance_env \<Rightarrow> FlightTrackerState \<Rightarrow> rstr \<Rightarrow> rstr \<Rightarrow> instant \<Rightarrow>
   FlightTrackerState \<times> rstr option \<times> Effect list" where
  "remove_flight_at env st query source now =
     (case find_flight_index (flights st) query of
        None \<Rightarrow> (st, None, [])
      | Some idx \<Rightarrow>
          let f = flights st ! idx;
              label = (case fl_callsign f of Some c \<Rightarrow> c | None \<Rightarrow> as_str (fl_identifier f));
              event = tracking_removal_event (en_fmt env) f source (last_seen_age_secs f now);
              st = st\<lparr>flights := remove_at idx (flights st)\<rparr>
          in (st, Some label, [Journal now event, SaveState st]))"

text \<open>
  \<^verbatim>\<open>process_latency_sensitive_command\<close>: the commands of the dashboard are served at once, any
  other is handed back.
\<close>

fun process_latency_sensitive_command ::
  "advance_env \<Rightarrow> TrackerCommand \<Rightarrow> FlightTrackerState \<Rightarrow> instant \<Rightarrow>
   FlightTrackerState \<times> Effect list \<times> TrackerCommand option" where
  "process_latency_sensitive_command env (Snapshot reply) st now =
     (st, [SendSnapshot reply (build_flight_view st now)], None)"
| "process_latency_sensitive_command env (DeleteFromWeb identifier reply) st now =
     (let (st, removed, effs) = remove_flight_at env st identifier (str ''web'') now
      in (st, effs @ [SendDeleted reply removed], None))"
| "process_latency_sensitive_command env other st now = (st, [], Some other)"

section \<open>Untrack, info, status\<close>

definition msg_not_found :: "rstr \<Rightarrow> rstr" where
  "msg_not_found identifier = identifier @ str '' nicht gefunden FDM''"

definition handle_untrack ::
  "advance_env \<Rightarrow> rstr \<Rightarrow> rstr \<Rightarrow> bool \<Rightarrow> reply_to \<Rightarrow> FlightTrackerState \<Rightarrow> instant \<Rightarrow>
   FlightTrackerState \<times> Effect list" where
  "handle_untrack env identifier requested_by is_mod reply_to st now =
     (case find_flight_index (flights st) identifier of
        None \<Rightarrow> (st, [Reply reply_to (msg_not_found identifier)])
      | Some idx \<Rightarrow>
          let f = flights st ! idx in
          if fl_tracked_by f \<noteq> requested_by \<and> \<not> is_mod
          then (st, [Reply reply_to (str ''Nur der Tracker oder Mods k'' @ [246] @
                       str ''nnen das untracking machen FDM'')])
          else
            let (st, removed, effs) = remove_flight_at env st identifier requested_by now;
                name = (case removed of Some n \<Rightarrow> n | None \<Rightarrow> identifier)
            in (st, effs @ [Reply reply_to (name @ str '' wird nicht mehr getrackt Okayge'')]))"

definition handle_info ::
  "advance_env \<Rightarrow> FlightIdentifier \<Rightarrow> reply_to \<Rightarrow> FlightTrackerState \<Rightarrow> aviation_client \<Rightarrow> instant \<Rightarrow>
   FlightTrackerState \<times> Effect list" where
  "handle_info env identifier reply_to st client now =
     (let tracked_callsign = Option.bind (find_flight_index (flights st) (as_str identifier))
            (\<lambda>idx. fl_callsign (flights st ! idx));
          resolved_callsign = (case (identifier, tracked_callsign) of
              (_, Some callsign) \<Rightarrow> Some callsign
            | (Callsign callsign, None) \<Rightarrow> Some (cl_resolve_callsign client callsign)
            | (Hex _, None) \<Rightarrow> None);
          (st, lookup) = lookup_aviationstack_metadata (en_fmt env) st client identifier
            resolved_callsign now;
          response = (case lk_metadata lookup of
              Some m \<Rightarrow> msg_aviationstack_info (en_fmt env) m
            | None \<Rightarrow>
                if lk_failed lookup then str ''AviationStack Anfrage fehlgeschlagen FDM''
                else if lk_checked lookup \<or> cl_aviationstack_enabled client
                then as_str identifier @ str '' nicht bei AviationStack gefunden FDM''
                else str ''AviationStack nicht konfiguriert FDM'')
      in (st, (if lk_cache_changed lookup then [SaveState st] else []) @ [Reply reply_to response]))"

definition handle_status ::
  "rstr option \<Rightarrow> reply_to \<Rightarrow> FlightTrackerState \<Rightarrow> instant \<Rightarrow> Effect list" where
  "handle_status identifier reply_to st now =
     [Reply reply_to (case identifier of
        None \<Rightarrow> msg_flights_list (flights st)
      | Some i \<Rightarrow> (case find_flight_index (flights st) i of
                     Some idx \<Rightarrow> msg_flight_status (flights st ! idx) now
                   | None \<Rightarrow> msg_not_found i))]"
section \<open>Tracking a flight\<close>

definition msg_already_tracked :: "FlightIdentifier \<Rightarrow> rstr" where
  "msg_already_tracked identifier = as_str identifier @ str '' wird schon getrackt FDM''"

text \<open>The refusals that need no request.\<close>

definition track_refused :: "FlightTrackerState \<Rightarrow> FlightIdentifier \<Rightarrow> rstr \<Rightarrow> rstr option" where
  "track_refused st identifier requested_by =
     (if length (flights st) \<ge> MAX_TRACKED_FLIGHTS
      then Some (str ''Maximal '' @ dec_nat MAX_TRACKED_FLIGHTS @ str '' Fl'' @ [252] @
                 str ''ge gleichzeitig FDM'')
      else if length (filter (\<lambda>f. fl_tracked_by f = requested_by) (flights st)) \<ge> MAX_FLIGHTS_PER_USER
      then Some (str ''Du trackst schon '' @ dec_nat MAX_FLIGHTS_PER_USER @ str '' Fl'' @ [252] @
                 str ''ge FDM'')
      else if duplicate_tracking_exists st identifier None None
      then Some (msg_already_tracked identifier)
      else None)"

definition metadata_outcome :: "AviationstackFlightMetadata option \<Rightarrow> DebugHttpOutcome" where
  "metadata_outcome m =
     (if m \<noteq> None then http_success (str ''aviationstack'') (str ''flight_metadata'')
      else http_miss (str ''aviationstack'') (str ''flight_metadata''))"

definition track_metadata ::
  "advance_env \<Rightarrow> FlightIdentifier \<Rightarrow> rstr option \<Rightarrow> FlightTrackerState \<Rightarrow> aviation_client \<Rightarrow> instant \<Rightarrow>
   FlightTrackerState \<times> AviationstackLookup \<times> Effect list" where
  "track_metadata env identifier resolved_callsign st client now =
     (if is_hex_id identifier then
        (st, \<lparr>lk_checked = False, lk_metadata = None, lk_cache_changed = False, lk_failed = False\<rparr>, [])
      else
        let (st, lookup) = lookup_aviationstack_metadata (en_fmt env) st client identifier
              resolved_callsign now
        in (st, lookup, [Journal now (aviationstack_metadata_event (en_fmt env) identifier
             resolved_callsign (metadata_outcome (lk_metadata lookup)) (lk_metadata lookup))]))"

definition track_build ::
  "advance_env \<Rightarrow> FlightIdentifier \<Rightarrow> rstr option \<Rightarrow> rstr \<Rightarrow> AviationstackLookup \<Rightarrow> instant \<Rightarrow>
   TrackedFlight" where
  "track_build env identifier resolved_callsign requested_by lookup now =
     (let f = seed_flight_aliases
            (new_flight identifier resolved_callsign requested_by now (lk_checked lookup))
      in case lk_metadata lookup of
           Some m \<Rightarrow> apply_aviationstack_metadata (en_airports env) f m
         | None \<Rightarrow> f)"

text \<open>The first ADS-B request: by address or by the callsigns, then by an identifier that reads as
  an address. The flag says that the answer was asked for by address.\<close>

definition track_first_poll ::
  "aviation_client \<Rightarrow> FlightIdentifier \<Rightarrow> TrackedFlight \<Rightarrow> (bool \<times> NearbyAircraft reply) option" where
  "track_first_poll client identifier f =
     (let first =
        (if should_poll_by_hex f then
           (case fl_hex f of
              Some hex \<Rightarrow> (True, Some (cl_aircraft_by_hex client hex))
            | None \<Rightarrow> (False, None))
         else
           let candidates = callsign_poll_candidates f in
           (False, if candidates = [] then None
                   else Some (poll_aircraft_by_callsign_aliases client candidates)))
      in case (first, identifier) of
           ((False, Some (Got None)), Callsign inp) \<Rightarrow>
             if is_valid_icao24_hex inp then Some (True, cl_aircraft_by_hex client inp)
             else Some (False, Got None)
         | ((uh, Some result), _) \<Rightarrow> Some (uh, result)
         | ((_, None), _) \<Rightarrow> None)"

datatype TrackStep = Refused rstr | TrackUnconfirmed TrackedFlight | Proceed TrackedFlight

definition track_observe ::
  "FlightIdentifier \<Rightarrow> bool \<Rightarrow> TrackedFlight \<Rightarrow> bool \<Rightarrow> NearbyAircraft \<Rightarrow> instant \<Rightarrow> TrackStep" where
  "track_observe identifier keep_pending f uh ac now =
     (let uh = (if uh \<and> fl_hex f = None then False else uh) in
      case target_confirmation_for_aircraft f ac uh now of
        None \<Rightarrow>
          if \<not> keep_pending
          then Refused (as_str identifier @ str '' nicht gefunden im ADS-B FDM'')
          else TrackUnconfirmed (f\<lparr>fl_polls_since_change := saturating_inc (fl_polls_since_change f)\<rparr>)
      | Some confirmation \<Rightarrow>
          let target_confirmed = is_target_confirmed confirmation;
              f = fst (apply_observed_aircraft f ac confirmation target_confirmed)
          in Proceed (if target_confirmed
                      then let f = f\<lparr>fl_last_seen := Some now, fl_last_visible_at := Some now\<rparr>
                           in f\<lparr>fl_phase := detect_phase f ac\<rparr>
                      else f))"

definition track_adsb ::
  "aviation_client \<Rightarrow> FlightIdentifier \<Rightarrow> bool \<Rightarrow> TrackedFlight \<Rightarrow> instant \<Rightarrow> TrackStep" where
  "track_adsb client identifier keep_pending f now =
     (if should_skip_adsb_for_strict_chill f now then Proceed f
      else case track_first_poll client identifier f of
        None \<Rightarrow> Proceed f
      | Some (uh, result) \<Rightarrow>
          let f = f\<lparr>fl_last_adsb_poll_at := Some now\<rparr> in
          case result of
            Got (Some ac) \<Rightarrow> track_observe identifier keep_pending f uh ac now
          | Got None \<Rightarrow>
              if \<not> keep_pending
              then Refused (as_str identifier @ str '' nicht gefunden im ADS-B FDM'') else Proceed f
          | Failed \<Rightarrow>
              if \<not> keep_pending then Refused (str ''ADS-B Anfrage fehlgeschlagen FDM'') else Proceed f
          | Elapsed \<Rightarrow>
              if \<not> keep_pending then Refused (str ''ADS-B Anfrage Timeout FDM'') else Proceed f)"

definition route_found_event :: "TrackedFlight \<Rightarrow> rstr \<Rightarrow> rstr \<Rightarrow> rstr \<Rightarrow> FlightTrackerDebugEvent" where
  "route_found_event f cs origin dest =
     flight_route_lookup_event (as_str (fl_identifier f)) (Some cs)
       (http_success (str ''adsbdb'') (str ''flight_route'')) (Some origin) (Some dest)
       (coords_resolved f)"

definition route_failed_event :: "TrackedFlight \<Rightarrow> rstr \<Rightarrow> DebugHttpOutcome \<Rightarrow> FlightTrackerDebugEvent" where
  "route_failed_event f cs http =
     flight_route_lookup_event (as_str (fl_identifier f)) (Some cs) http None None False"

text \<open>The route of a flight whose aircraft did not confirm it: only a found route is journalled.\<close>

definition track_route_quiet ::
  "advance_env \<Rightarrow> aviation_client \<Rightarrow> TrackedFlight \<Rightarrow> instant \<Rightarrow> TrackedFlight \<times> Effect list" where
  "track_route_quiet env client f now =
     (case (fl_route f, fl_callsign f) of
        (None, Some cs) \<Rightarrow>
          (case cl_route client cs of
             Got (Some (origin, dest)) \<Rightarrow>
               let f = set_route_from_iata (en_airports env) f origin dest
               in (f, [Journal now (route_found_event f cs origin dest)])
           | _ \<Rightarrow> (f, []))
      | _ \<Rightarrow> (f, []))"

definition track_route ::
  "advance_env \<Rightarrow> aviation_client \<Rightarrow> TrackedFlight \<Rightarrow> instant \<Rightarrow> TrackedFlight \<times> Effect list" where
  "track_route env client f now =
     (case (fl_route f, fl_callsign f) of
        (None, Some cs) \<Rightarrow>
          (case cl_route client cs of
             Got (Some (origin, dest)) \<Rightarrow>
               let f = set_route_from_iata (en_airports env) f origin dest
               in (f, [Journal now (route_found_event f cs origin dest)])
           | Got None \<Rightarrow> (f, [Journal now (route_failed_event f cs
                              (http_miss (str ''adsbdb'') (str ''flight_route'')))])
           | Failed \<Rightarrow> (f, [Journal now (route_failed_event f cs
                              (http_error (str ''adsbdb'') (str ''flight_route'')))])
           | Elapsed \<Rightarrow> (f, [Journal now (route_failed_event f cs
                              (http_timeout (str ''adsbdb'') (str ''flight_route'')))]))
      | _ \<Rightarrow> (f, []))"

text \<open>The second AviationStack request, for a callsign that only the aircraft revealed.\<close>

definition track_late_metadata ::
  "advance_env \<Rightarrow> FlightIdentifier \<Rightarrow> FlightTrackerState \<Rightarrow> aviation_client \<Rightarrow> TrackedFlight \<Rightarrow> instant \<Rightarrow>
   FlightTrackerState \<times> TrackedFlight \<times> Effect list" where
  "track_late_metadata env identifier st client f now =
     (if cl_aviationstack_enabled client \<and> \<not> fl_aviationstack_checked f \<and> fl_callsign f \<noteq> None then
        let f = f\<lparr>fl_aviationstack_checked := True\<rparr>;
            (st, lookup) = lookup_aviationstack_metadata (en_fmt env) st client identifier
              (fl_callsign f) now;
            effs = [Journal now (aviationstack_metadata_event (en_fmt env) identifier
              (fl_callsign f) (metadata_outcome (lk_metadata lookup)) (lk_metadata lookup))];
            f = (case lk_metadata lookup of
                   Some m \<Rightarrow> apply_aviationstack_metadata (en_airports env) f m | None \<Rightarrow> f)
        in (st, f, effs)
      else (st, f, []))"

definition track_finish ::
  "advance_env \<Rightarrow> reply_to \<Rightarrow> FlightTrackerState \<Rightarrow> TrackedFlight \<Rightarrow> rstr option \<Rightarrow> bool \<Rightarrow> instant \<Rightarrow>
   FlightTrackerState \<times> Effect list" where
  "track_finish env reply_to st f info fallback now =
     (let response = track_started_response f info fallback;
          st = st\<lparr>flights := flights st @ [f]\<rparr>
      in (st, [Journal now (track_started_event (en_fmt env) f), SaveState st, Reply reply_to response]))"

definition track_continue ::
  "advance_env \<Rightarrow> FlightIdentifier \<Rightarrow> reply_to \<Rightarrow> FlightTrackerState \<Rightarrow> aviation_client \<Rightarrow> TrackedFlight \<Rightarrow>
   rstr option \<Rightarrow> bool \<Rightarrow> instant \<Rightarrow> FlightTrackerState \<times> Effect list" where
  "track_continue env identifier reply_to st client f info fallback now =
     (let keep_pending = (\<not> is_hex_id identifier \<and> cl_aviationstack_enabled client) in
      case track_adsb client identifier keep_pending f now of
        Refused msg \<Rightarrow> (st, [Reply reply_to msg])
      | TrackUnconfirmed f \<Rightarrow>
          let (f, e1) = track_route_quiet env client f now;
              (st, e2) = track_finish env reply_to st f info fallback now
          in (st, e1 @ e2)
      | Proceed f \<Rightarrow>
          let (st, f, e1) = track_late_metadata env identifier st client f now in
          if duplicate_tracking_exists st identifier (fl_callsign f) (fl_hex f)
          then (st, e1 @ [Reply reply_to (msg_already_tracked identifier)])
          else
            let (f, e2) = track_route env client f now;
                (st, e3) = track_finish env reply_to st f info fallback now
            in (st, e1 @ e2 @ e3))"

definition handle_track ::
  "advance_env \<Rightarrow> FlightIdentifier \<Rightarrow> rstr \<Rightarrow> reply_to \<Rightarrow> FlightTrackerState \<Rightarrow> aviation_client \<Rightarrow>
   instant \<Rightarrow> FlightTrackerState \<times> Effect list" where
  "handle_track env identifier requested_by reply_to st client now =
     (case track_refused st identifier requested_by of
        Some msg \<Rightarrow> (st, [Reply reply_to msg])
      | None \<Rightarrow>
          let resolved_callsign = (case identifier of
                Callsign cs \<Rightarrow> Some (cl_resolve_callsign client cs) | Hex _ \<Rightarrow> None)
          in if is_some_and resolved_callsign (\<lambda>resolved.
                \<not> eq_ignore_ascii_case resolved (as_str identifier) \<and>
                duplicate_tracking_exists st identifier (Some resolved) None)
             then (st, [Reply reply_to (msg_already_tracked identifier)])
             else
               let (st, lookup, e1) = track_metadata env identifier resolved_callsign st client now;
                   info = map_option (msg_aviationstack_info (en_fmt env)) (lk_metadata lookup);
                   fallback = (lk_checked lookup \<and> lk_metadata lookup = None \<and> \<not> is_hex_id identifier);
                   f = track_build env identifier resolved_callsign requested_by lookup now
               in if duplicate_tracking_exists st identifier (fl_callsign f) (fl_hex f)
                  then (st, e1 @ (if lk_cache_changed lookup then [SaveState st] else []) @
                            [Reply reply_to (msg_already_tracked identifier)])
                  else
                    let (st, e2) = track_continue env identifier reply_to st client f info fallback now
                    in (st, e1 @ e2))"

fun process_command ::
  "advance_env \<Rightarrow> TrackerCommand \<Rightarrow> FlightTrackerState \<Rightarrow> aviation_client \<Rightarrow> instant \<Rightarrow>
   FlightTrackerState \<times> Effect list" where
  "process_command env (Track identifier requested_by reply_to) st client now =
     handle_track env identifier requested_by reply_to st client now"
| "process_command env (Untrack identifier requested_by is_mod reply_to) st client now =
     handle_untrack env identifier requested_by is_mod reply_to st now"
| "process_command env (Status identifier reply_to) st client now =
     (st, handle_status identifier reply_to st now)"
| "process_command env (Info identifier reply_to) st client now =
     handle_info env identifier reply_to st client now"
| "process_command env cmd st client now =
     (let (st, effs, _) = process_latency_sensitive_command env cmd st now in (st, effs))"

section \<open>The invariant of the tracker\<close>

text \<open>
  No two tracked flights have the same identifier, the two limits hold and every flight is
  well-formed.
\<close>

definition owned_by :: "rstr \<Rightarrow> TrackedFlight list \<Rightarrow> nat" where
  "owned_by user fs = length (filter (\<lambda>f. fl_tracked_by f = user) fs)"

definition tracker_ok :: "instant \<Rightarrow> FlightTrackerState \<Rightarrow> bool" where
  "tracker_ok now st \<longleftrightarrow>
     distinct (map fl_identifier (flights st)) \<and> length (flights st) \<le> 12 \<and>
     (\<forall>user. owned_by user (flights st) \<le> 3) \<and> (\<forall>f\<in>set (flights st). flight_ok now f)"

lemma tracker_ok_mono: "tracker_ok now st \<Longrightarrow> now \<le> later \<Longrightarrow> tracker_ok later st"
  by (auto simp: tracker_ok_def intro: flight_ok_mono)

lemma tracker_ok_default: "tracker_ok now default_state"
  by (simp add: tracker_ok_def default_state_def owned_by_def)

lemma tracker_ok_cache [simp]: "tracker_ok now (st\<lparr>flight_info_cache := c\<rparr>) = tracker_ok now st"
  by (simp add: tracker_ok_def)

lemma tracker_ok_flights: "tracker_ok now st \<Longrightarrow> flights st' = flights st \<Longrightarrow> tracker_ok now st'"
  by (simp add: tracker_ok_def)

lemma tracker_ok_remove:
  assumes "tracker_ok now st"
  shows "tracker_ok now (st\<lparr>flights := remove_at i (flights st)\<rparr>)"
proof -
  have "length (remove_at i (flights st)) \<le> length (flights st)" by (simp add: remove_at_def)
  moreover have "owned_by user (remove_at i (flights st)) \<le> owned_by user (flights st)" for user
    by (simp add: owned_by_def length_filter_remove_at)
  moreover have "distinct (map fl_identifier (remove_at i (flights st)))"
    using assms by (simp add: map_remove_at distinct_remove_at tracker_ok_def)
  ultimately show ?thesis
    using assms set_remove_at_subset [of i "flights st"]
    by (auto simp: tracker_ok_def intro: order_trans)
qed

lemma tracker_ok_add:
  assumes "tracker_ok now st" and "flight_ok now f"
    and "length (flights st) < 12" and "owned_by (fl_tracked_by f) (flights st) < 3"
    and "fl_identifier f \<notin> fl_identifier ` set (flights st)"
  shows "tracker_ok now (st\<lparr>flights := flights st @ [f]\<rparr>)"
  using assms by (auto simp: tracker_ok_def owned_by_def)

text \<open>
  The contract of a transition of one flight, as the poll relies on it: it keeps the identity and,
  when the clock has not run backwards, the invariant. The poll replaces a flight in place.
\<close>

locale flight_transition =
  fixes go :: "'o \<Rightarrow> instant \<Rightarrow> TrackedFlight \<Rightarrow> TrackedFlight"
  assumes go_identity: "identity_of (go obs now f) = identity_of f"
    and go_ok: "flight_ok now f \<Longrightarrow> flight_ok now (go obs now f)"
begin

lemma go_identifier [simp]: "fl_identifier (go obs now f) = fl_identifier f"
  and go_owner [simp]: "fl_tracked_by (go obs now f) = fl_tracked_by f"
  using go_identity [of obs now f] by (simp_all add: identity_of_def)

lemma tracker_ok_update:
  assumes "tracker_ok now st" and "i < length (flights st)"
  shows "tracker_ok now (st\<lparr>flights := (flights st)[i := go obs now (flights st ! i)]\<rparr>)"
proof -
  have ids: "map fl_identifier ((flights st)[i := go obs now (flights st ! i)]) =
      map fl_identifier (flights st)"
    using assms(2) by (intro nth_equalityI) (auto simp: nth_list_update)
  have own: "owned_by user ((flights st)[i := go obs now (flights st ! i)]) = owned_by user (flights st)"
    for user
    unfolding owned_by_def using assms(2) by (intro mset_remove_at_filter_update) simp_all
  have "flight_ok now f" if "f \<in> set ((flights st)[i := go obs now (flights st ! i)])" for f
    using that assms go_ok set_update_subset_insert [of "flights st" i "go obs now (flights st ! i)"]
    by (auto simp: tracker_ok_def)
  then show ?thesis using assms(1) by (simp add: tracker_ok_def ids own)
qed

lemma ids_update:
  "map fl_identifier ((flights st)[i := go obs now (flights st ! i)]) = map fl_identifier (flights st)"
  by (cases "i < length (flights st)") (auto intro!: nth_equalityI simp: nth_list_update)

end

text \<open>The transition by an observation, and the route that follows it, meet the contract.\<close>

definition same_track :: "TrackedFlight \<Rightarrow> TrackedFlight \<Rightarrow> bool" where
  "same_track f g \<longleftrightarrow> timeline g = timeline f \<and> fl_phase g = fl_phase f \<and>
     fl_target_confirmation g = fl_target_confirmation f \<and>
     (distinct_aliases (fl_alias_callsigns f) \<longrightarrow> distinct_aliases (fl_alias_callsigns g))"

lemma same_track_ok: "same_track f g \<Longrightarrow> flight_ok now f \<Longrightarrow> flight_ok now g"
  by (auto simp: same_track_def flight_ok_def timeline_def)

lemma same_track_identity: "same_track f g \<Longrightarrow> identity_of g = identity_of f"
  by (simp add: same_track_def timeline_def)

lemma same_track_trans: "same_track f g \<Longrightarrow> same_track g h \<Longrightarrow> same_track f h"
  by (simp add: same_track_def)

lemma set_route_poll [fl_frame]:
  "fl_last_adsb_poll_at (set_route_from_iata a f o' d) = fl_last_adsb_poll_at f"
  by (simp add: set_route_from_iata_def Let_def split: option.split)

lemma same_track_set_route: "same_track f (set_route_from_iata a f o' d)"
  by (simp add: same_track_def timeline_def fl_frame)

lemma md_apply_poll:
  "fl_last_adsb_poll_at (md_apply_schedule m f) = fl_last_adsb_poll_at f"
  "fl_last_adsb_poll_at (md_apply_alias c f) = fl_last_adsb_poll_at f"
  "fl_last_adsb_poll_at (md_apply_callsign m f) = fl_last_adsb_poll_at f"
  "fl_last_adsb_poll_at (md_apply_route a m f) = fl_last_adsb_poll_at f"
  "fl_last_adsb_poll_at (md_apply_hex m f) = fl_last_adsb_poll_at f"
  "fl_last_adsb_poll_at (md_apply_type m f) = fl_last_adsb_poll_at f"
  "fl_last_adsb_poll_at (md_apply_takeoff m f) = fl_last_adsb_poll_at f"
  by (simp_all add: md_apply_defs fl_frame split: option.split)

lemma same_track_metadata: "same_track f (apply_aviationstack_metadata a f m)"
proof -
  have "fl_last_adsb_poll_at (apply_aviationstack_metadata a f m) = fl_last_adsb_poll_at f"
    by (simp add: apply_aviationstack_metadata_def md_apply_poll)
  then show ?thesis
    by (simp add: same_track_def timeline_def fl_frame apply_metadata_distinct_aliases)
qed

lemma same_track_seed: "same_track f (seed_flight_aliases f)"
  by (simp add: same_track_def timeline_def identity_of_def fl_frame seed_aliases_distinct)

interpretation advancing: flight_transition "\<lambda>obs now f. fst (advance_flight env f obs now)" for env
  by unfold_locales (simp_all add: advance_timeline advance_flight_ok)

interpretation routing: flight_transition "\<lambda>route now f. apply_route a f (fst route) (snd route)" for a
  by unfold_locales
    (auto simp: apply_route_def intro: same_track_identity [OF same_track_set_route]
      same_track_ok [OF same_track_set_route])

section \<open>What the handlers do\<close>

lemma remove_flight_at_flights:
  "flights (fst (remove_flight_at env st q s now)) =
     (case find_flight_index (flights st) q of
        None \<Rightarrow> flights st | Some i \<Rightarrow> remove_at i (flights st))"
  by (simp add: remove_flight_at_def Let_def split: option.split)

lemma remove_flight_at_ok: "tracker_ok now st \<Longrightarrow> tracker_ok now (fst (remove_flight_at env st q s t))"
  by (simp add: remove_flight_at_def Let_def tracker_ok_remove split: option.split)

lemma latency_ok: "tracker_ok now st \<Longrightarrow> tracker_ok now (fst (process_latency_sensitive_command env c st t))"
  by (cases c) (simp_all add: remove_flight_at_ok split: prod.split, metis fst_conv remove_flight_at_ok)

lemma find_flight_index_Some: "find_flight_index fs q = Some i \<Longrightarrow> i < length fs"
  unfolding find_flight_index_def Let_def using position_Some by blast

lemma track_build_facts:
  shows "identity_of (track_build env i cs by lookup now) = (i, by, now)"
    and "fl_phase (track_build env i cs by lookup now) = Unknown"
    and "fl_last_seen (track_build env i cs by lookup now) = None"
    and "fl_last_visible_at (track_build env i cs by lookup now) = None"
    and "flight_ok now (track_build env i cs by lookup now)"
proof -
  let ?n = "new_flight i cs by now (lk_checked lookup)"
  have st: "same_track ?n (track_build env i cs by lookup now)"
    using same_track_seed same_track_trans [OF same_track_seed same_track_metadata]
    by (auto simp: track_build_def Let_def split: option.split)
  have new: "timeline ?n = ((i, by, now), None, None, None)" "fl_phase ?n = Unknown" "flight_ok now ?n"
    by (simp_all add: new_flight_def timeline_def identity_of_def flight_ok_def distinct_aliases_def)
  from st new(1,2) show "identity_of (track_build env i cs by lookup now) = (i, by, now)"
    "fl_phase (track_build env i cs by lookup now) = Unknown"
    "fl_last_seen (track_build env i cs by lookup now) = None"
    "fl_last_visible_at (track_build env i cs by lookup now) = None"
    by (simp_all add: same_track_def timeline_def)
  from same_track_ok [OF st new(3)] show "flight_ok now (track_build env i cs by lookup now)" .
qed

fun step_flight :: "TrackStep \<Rightarrow> TrackedFlight option" where
  "step_flight (Refused _) = None"
| "step_flight (TrackUnconfirmed f) = Some f"
| "step_flight (Proceed f) = Some f"

lemma apply_observed_aliases:
  "distinct_aliases (fl_alias_callsigns f) \<Longrightarrow>
   distinct_aliases (fl_alias_callsigns (fst (apply_observed_aircraft f ac c d)))"
proof -
  assume a: "distinct_aliases (fl_alias_callsigns f)"
  have r: "distinct_aliases (fl_alias_callsigns (fst (resolve_callsign_from g c)))"
    if "distinct_aliases (fl_alias_callsigns g)" for g
    using that by (simp add: resolve_callsign_from_def add_alias_callsign_distinct split: option.split)
  have s: "fl_alias_callsigns (seed_telemetry (seed_aircraft_type (seed_hex g ac d) ac) ac) =
      fl_alias_callsigns g" for g
    by (simp add: seed_telemetry_def seed_aircraft_type_def seed_hex_def fl_frame split: option.split)
  show ?thesis unfolding apply_observed_unfold Let_def fst_conv s by (rule r) (simp add: a)
qed

lemma track_observe_ok:
  assumes "step_flight (track_observe i keep f uh ac now) = Some g" and "flight_ok now f"
    and "fl_phase f = Unknown"
  shows "identity_of g = identity_of f \<and> flight_ok now g"
proof -
  let ?o = "\<lambda>c. fst (apply_observed_aircraft f ac c (is_target_confirmed c))"
  have o: "timeline (?o c) = timeline f" "fl_phase (?o c) = Unknown"
    "fl_target_confirmation (?o c) = c" for c
    using transition_stateD [OF apply_observed_frame(2)] assms(3) by (simp_all add: advance_simps)
  have al: "distinct_aliases (fl_alias_callsigns (?o c))" for c
    using assms(2) by (intro apply_observed_aliases) (simp add: flight_ok_def)
  have nl: "detect_phase g ac \<noteq> Landing" if "fl_phase g = Unknown" for g
    using that detect_phase_Landing [of g ac] by simp
  have tl: "timeline (f\<lparr>fl_polls_since_change := n\<rparr>) = timeline f" for n
    by (simp add: timeline_def identity_of_def)
  consider (none) "g = f\<lparr>fl_polls_since_change := saturating_inc (fl_polls_since_change f)\<rparr>"
    | (seen) c where "is_target_confirmed c"
      "g = (?o c)\<lparr>fl_last_seen := Some now, fl_last_visible_at := Some now,
         fl_phase := detect_phase ((?o c)\<lparr>fl_last_seen := Some now, fl_last_visible_at := Some now\<rparr>) ac\<rparr>"
    | (visible) c where "\<not> is_target_confirmed c" "g = ?o c"
    using assms(1) by (auto simp: track_observe_def Let_def split: option.splits if_splits)
  then show ?thesis
  proof cases
    case none
    then show ?thesis using assms(2) by (simp add: flight_ok_def identity_of_def)
  next
    case (seen c)
    have "identity_of g = identity_of f" using timeline_eqD [OF o(1)] seen(2) by (simp add: identity_of_def)
    moreover have "opt_le (fl_last_adsb_poll_at g) (Some now)"
      using timeline_eqD [OF o(1) [of c]] seen(2) assms(2) by (simp add: flight_ok_def)
    ultimately show ?thesis
      using seen(2) al [of c] o(2) [of c] nl by (simp add: flight_ok_def)
  next
    case (visible c)
    then show ?thesis
      using timeline_eqD [OF o(1) [of c]] o(2,3) [of c] al [of c] assms(2)
      by (simp add: flight_ok_def)
  qed
qed

lemma track_adsb_ok:
  assumes "step_flight (track_adsb cl i keep f now) = Some g" and "flight_ok now f"
    and "fl_phase f = Unknown"
  shows "identity_of g = identity_of f \<and> flight_ok now g"
proof -
  let ?f = "f\<lparr>fl_last_adsb_poll_at := Some now\<rparr>"
  have p: "flight_ok now ?f" "fl_phase ?f = Unknown" "identity_of ?f = identity_of f"
    using assms(2,3) by (simp_all add: flight_ok_def identity_of_def)
  have "g = f \<or> g = ?f \<or> (\<exists>uh ac. step_flight (track_observe i keep ?f uh ac now) = Some g)"
    using assms(1) by (auto simp: track_adsb_def Let_def split: if_splits option.splits reply.splits)
  then show ?thesis using assms(2) p track_observe_ok [OF _ p(1,2)] by auto
qed

lemma track_route_same:
  "same_track f (fst (track_route env cl f now))" "same_track f (fst (track_route_quiet env cl f now))"
proof -
  have r: "same_track f f" by (simp add: same_track_def)
  show "same_track f (fst (track_route env cl f now))" "same_track f (fst (track_route_quiet env cl f now))"
    by (auto simp: track_route_def track_route_quiet_def Let_def r same_track_set_route
        split: option.split reply.split)
qed

lemma track_late_facts:
  "same_track f (fst (snd (track_late_metadata env i st cl f now)))"
  "flights (fst (track_late_metadata env i st cl f now)) = flights st"
proof -
  have c: "same_track f (f\<lparr>fl_aviationstack_checked := True\<rparr>)"
    by (simp add: same_track_def timeline_def identity_of_def)
  then show "same_track f (fst (snd (track_late_metadata env i st cl f now)))"
    using same_track_trans [OF c same_track_metadata]
    by (auto simp: track_late_metadata_def Let_def same_track_def split: prod.split option.split)
  show "flights (fst (track_late_metadata env i st cl f now)) = flights st"
    by (auto simp: track_late_metadata_def Let_def split: prod.split)
      (metis fst_conv lookup_aviationstack_flights)
qed

text \<open>The answers a handler gives.\<close>

fun answers :: "Effect list \<Rightarrow> Effect list" where
  "answers [] = []"
| "answers (Reply r m # es) = Reply r m # answers es"
| "answers (SendSnapshot c v # es) = SendSnapshot c v # answers es"
| "answers (SendDeleted c d # es) = SendDeleted c d # answers es"
| "answers (Say m # es) = answers es"
| "answers (Journal t e # es) = answers es"
| "answers (SaveState s # es) = answers es"

lemma answers_append [simp]: "answers (a @ b) = answers a @ answers b"
  by (induction a rule: answers.induct) simp_all

lemma answers_quiet [simp]:
  "answers (snd (snd (track_metadata env i cs st cl now))) = []"
  "answers (snd (track_route env cl f now)) = []"
  "answers (snd (track_route_quiet env cl f now)) = []"
  "answers (snd (snd (track_late_metadata env i st cl f now))) = []"
  "answers (snd (snd (remove_flight_at env st q s now))) = []"
  by (simp_all add: track_metadata_def track_route_def track_route_quiet_def track_late_metadata_def
      remove_flight_at_def Let_def prod.case_eq_if split: option.split reply.split)

text \<open>The outcome of a command, relative to the state it starts from.\<close>

definition added_flight ::
  "FlightIdentifier \<Rightarrow> rstr \<Rightarrow> instant \<Rightarrow> FlightTrackerState \<Rightarrow> FlightTrackerState \<times> Effect list \<Rightarrow> bool" where
  "added_flight i by now st r \<longleftrightarrow>
     (\<exists>f. flights (fst r) = flights st @ [f] \<and> identity_of f = (i, by, now) \<and> flight_ok now f \<and>
          SaveState (fst r) \<in> set (snd r))"

definition one_reply :: "reply_to \<Rightarrow> Effect list \<Rightarrow> bool" where
  "one_reply to es \<longleftrightarrow> (\<exists>m. answers es = [Reply to m])"

lemma track_finish_outcome:
  assumes "identity_of f = (i, by, now)" and "flight_ok now f" and "flights st1 = flights st"
  shows "added_flight i by now st (track_finish env r st1 f info fb now)"
    and "one_reply r (snd (track_finish env r st1 f info fb now))"
  using assms by (auto simp: track_finish_def Let_def added_flight_def one_reply_def)

lemma added_flight_prefix:
  "added_flight i by now st (s, es) \<Longrightarrow> added_flight i by now st (s, es' @ es)"
  by (auto simp: added_flight_def)

lemma one_reply_prefix: "one_reply r es \<Longrightarrow> answers es' = [] \<Longrightarrow> one_reply r (es' @ es)"
  by (simp add: one_reply_def)

lemma track_continue_outcome:
  assumes "identity_of f = (i, by, now)" and "flight_ok now f" and "fl_phase f = Unknown"
  shows "(flights (fst (track_continue env i r st cl f info fb now)) = flights st \<or>
      added_flight i by now st (track_continue env i r st cl f info fb now)) \<and>
    one_reply r (snd (track_continue env i r st cl f info fb now))"
proof -
  let ?keep = "\<not> is_hex_id i \<and> cl_aviationstack_enabled cl"
  show ?thesis
  proof (cases "track_adsb cl i ?keep f now")
    case (Refused m)
    then show ?thesis by (simp add: track_continue_def one_reply_def)
  next
    case (TrackUnconfirmed g)
    then have g: "identity_of g = (i, by, now)" "flight_ok now g"
      using track_adsb_ok [of cl i ?keep f now g] assms by auto
    let ?q = "track_route_quiet env cl g now"
    have "identity_of (fst ?q) = (i, by, now)" "flight_ok now (fst ?q)"
      using same_track_identity [OF track_route_same(2)] same_track_ok [OF track_route_same(2)] g by auto
    from track_finish_outcome [OF this refl, where st = st and env = env and r = r and info = info and fb = fb]
    show ?thesis
      unfolding track_continue_def Let_def prod.case_eq_if TrackUnconfirmed TrackStep.case fst_conv snd_conv
      by (metis added_flight_prefix one_reply_prefix answers_quiet(3) prod.collapse)
  next
    case (Proceed g)
    then have g: "identity_of g = (i, by, now)" "flight_ok now g"
      using track_adsb_ok [of cl i ?keep f now g] assms by auto
    let ?l = "track_late_metadata env i st cl g now"
    let ?h = "fst (snd ?l)"
    let ?q = "track_route env cl ?h now"
    have h: "identity_of ?h = (i, by, now)" "flight_ok now ?h"
      using same_track_identity [OF track_late_facts(1)] same_track_ok [OF track_late_facts(1)] g by auto
    then have q: "identity_of (fst ?q) = (i, by, now)" "flight_ok now (fst ?q)"
      using same_track_identity [OF track_route_same(1)] same_track_ok [OF track_route_same(1)] by auto
    note fin = track_finish_outcome [OF q track_late_facts(2), where env = env and r = r and info = info and fb = fb]
    show ?thesis
    proof (cases "duplicate_tracking_exists (fst ?l) i (fl_callsign ?h) (fl_hex ?h)")
      case True
      then show ?thesis
        unfolding track_continue_def Let_def prod.case_eq_if Proceed TrackStep.case fst_conv snd_conv if_P [OF True]
        by (simp add: track_late_facts(2) one_reply_def)
    next
      case False
      define z where "z = track_finish env r (fst ?l) (fst ?q) info fb now"
      have "track_continue env i r st cl f info fb now = (fst z, (snd (snd ?l) @ snd ?q) @ snd z)"
        unfolding track_continue_def Let_def prod.case_eq_if Proceed TrackStep.case fst_conv snd_conv
          if_not_P [OF False] z_def append_assoc by (rule refl)
      moreover have "added_flight i by now st (fst z, (snd (snd ?l) @ snd ?q) @ snd z)"
        using fin(1) added_flight_prefix unfolding z_def by (metis prod.collapse)
      moreover have "one_reply r ((snd (snd ?l) @ snd ?q) @ snd z)"
        using fin(2) unfolding z_def by (intro one_reply_prefix) simp_all
      ultimately show ?thesis by simp
    qed
  qed
qed

lemma track_metadata_flights [simp]:
  "flights (fst (track_metadata env i cs st cl now)) = flights st"
  by (auto simp: track_metadata_def Let_def split: prod.split) (metis fst_conv lookup_aviationstack_flights)

lemma handle_track_outcome:
  "(flights (fst (handle_track env i by r st cl now)) = flights st \<or>
    (track_refused st i by = None \<and> added_flight i by now st (handle_track env i by r st cl now))) \<and>
   one_reply r (snd (handle_track env i by r st cl now))"
proof (cases "track_refused st i by")
  case (Some m)
  then show ?thesis by (simp add: handle_track_def one_reply_def)
next
  case None
  define cs where "cs = (case i of Callsign cs \<Rightarrow> Some (cl_resolve_callsign cl cs) | Hex _ \<Rightarrow> None)"
  define t where "t = track_metadata env i cs st cl now"
  define f where "f = track_build env i cs by (fst (snd t)) now"
  define c where "c = track_continue env i r (fst t) cl f
    (map_option (msg_aviationstack_info (en_fmt env)) (lk_metadata (fst (snd t))))
    (lk_checked (fst (snd t)) \<and> lk_metadata (fst (snd t)) = None \<and> \<not> is_hex_id i) now"
  have ft: "flights (fst t) = flights st" by (simp add: t_def)
  have c: "(flights (fst c) = flights st \<or> added_flight i by now st c) \<and> one_reply r (snd c)"
    using track_continue_outcome [OF track_build_facts(1,5,2), where st = "fst t"] ft
    unfolding c_def f_def by (metis added_flight_def)
  have a: "answers (snd (snd t)) = []" by (simp add: t_def)
  have "handle_track env i by r st cl now =
     (if is_some_and cs (\<lambda>resolved. \<not> eq_ignore_ascii_case resolved (as_str i) \<and>
           duplicate_tracking_exists st i (Some resolved) None)
      then (st, [Reply r (msg_already_tracked i)])
      else if duplicate_tracking_exists (fst t) i (fl_callsign f) (fl_hex f)
      then (fst t, snd (snd t) @ (if lk_cache_changed (fst (snd t)) then [SaveState (fst t)] else []) @
                   [Reply r (msg_already_tracked i)])
      else (fst c, snd (snd t) @ snd c))"
    unfolding handle_track_def None option.case Let_def prod.case_eq_if cs_def [symmetric]
      t_def [symmetric] f_def [symmetric] c_def [symmetric] fst_conv snd_conv by (rule refl)
  moreover have "added_flight i by now st (fst c, snd (snd t) @ snd c)" if "added_flight i by now st c"
    using that added_flight_prefix by (metis prod.collapse)
  ultimately show ?thesis
    using c a ft None by (auto simp: one_reply_def)
qed

lemma track_refused_None:
  "track_refused st i by = None \<longleftrightarrow>
     length (flights st) < 12 \<and> owned_by by (flights st) < 3 \<and>
     \<not> duplicate_tracking_exists st i None None"
  by (auto simp: track_refused_def owned_by_def MAX_TRACKED_FLIGHTS_def MAX_FLIGHTS_PER_USER_def)

lemma duplicate_identifier: "f \<in> set (flights st) \<Longrightarrow> duplicate_tracking_exists st (fl_identifier f) cs hx"
  by (auto simp: duplicate_tracking_exists_def)

lemma handle_track_ok:
  assumes "tracker_ok now st"
  shows "tracker_ok now (fst (handle_track env i by r st cl now))"
proof -
  let ?st = "fst (handle_track env i by r st cl now)"
  consider (same) "flights ?st = flights st"
    | (add) f where "flights ?st = flights st @ [f]" "identity_of f = (i, by, now)" "flight_ok now f"
        "track_refused st i by = None"
    using handle_track_outcome [of env i "by" r st cl now] by (auto simp: added_flight_def)
  then show ?thesis
  proof cases
    case same
    with assms show ?thesis by (rule tracker_ok_flights)
  next
    case add
    have "fl_identifier f = i" "fl_tracked_by f = by" using add(2) by (simp_all add: identity_of_def)
    moreover have "i \<notin> fl_identifier ` set (flights st)"
      using add(4) duplicate_identifier by (auto simp: track_refused_None)
    ultimately have "tracker_ok now (st\<lparr>flights := flights st @ [f]\<rparr>)"
      using assms add(3,4) by (intro tracker_ok_add) (simp_all add: track_refused_None)
    then show ?thesis using add(1) by (simp add: tracker_ok_def)
  qed
qed

lemma handle_untrack_state:
  "fst (handle_untrack env i by m r st now) =
     (case find_flight_index (flights st) i of
        None \<Rightarrow> st
      | Some idx \<Rightarrow> if fl_tracked_by (flights st ! idx) \<noteq> by \<and> \<not> m then st
                    else fst (remove_flight_at env st i by now))"
  by (simp add: handle_untrack_def Let_def prod.case_eq_if split: option.split)

lemma handle_info_flights [simp]: "flights (fst (handle_info env i r st cl now)) = flights st"
  by (simp add: handle_info_def Let_def prod.case_eq_if)

lemma process_command_ok:
  assumes "tracker_ok now st"
  shows "tracker_ok now (fst (process_command env c st cl now))"
proof (cases c)
  case (Track i b r)
  then show ?thesis using handle_track_ok [OF assms] by simp
next
  case (Untrack i b m r)
  then show ?thesis using assms remove_flight_at_ok [OF assms]
    by (simp add: handle_untrack_state split: option.split)
next
  case (Info i r)
  then show ?thesis using tracker_ok_flights [OF assms] by simp
next
  case (Snapshot r)
  then show ?thesis using assms by simp
next
  case (DeleteFromWeb i r)
  then show ?thesis using latency_ok [OF assms, of env c now] by (simp add: prod.case_eq_if)
qed (use assms in simp)

subsection \<open>What is on disk\<close>

text \<open>The state file after a list of effects.\<close>

fun disk :: "Effect list \<Rightarrow> FlightTrackerState \<Rightarrow> FlightTrackerState" where
  "disk [] d = d"
| "disk (SaveState s # es) d = disk es s"
| "disk (_ # es) d = disk es d"

lemma disk_append [simp]: "disk (a @ b) d = disk b (disk a d)"
  by (induction a d rule: disk.induct) simp_all

lemma disk_journal [simp]: "disk (map (Journal now) es) d = d"
  by (induction es) simp_all

lemma disk_say [simp]: "disk (map Say ms) d = d"
  by (induction ms) simp_all

lemma disk_quiet [simp]:
  "disk (snd (snd (track_metadata env i cs st cl now))) d = d"
  "disk (snd (track_route env cl f now)) d = d"
  "disk (snd (track_route_quiet env cl f now)) d = d"
  "disk (snd (snd (track_late_metadata env i st cl f now))) d = d"
  by (simp_all add: track_metadata_def track_route_def track_route_quiet_def track_late_metadata_def
      Let_def prod.case_eq_if split: option.split reply.split)

text \<open>
  If the file held the flights before a handler ran, it holds them after: every change of the
  flights has been written when the handler returns.
\<close>

definition stored :: "FlightTrackerState \<Rightarrow> FlightTrackerState \<times> Effect list \<Rightarrow> bool" where
  "stored st r \<longleftrightarrow> (\<forall>d. flights d = flights st \<longrightarrow> flights (disk (snd r) d) = flights (fst r))"

lemma storedI: "(\<And>d. flights d = flights st \<Longrightarrow> flights (disk (snd r) d) = flights (fst r)) \<Longrightarrow> stored st r"
  by (simp add: stored_def)

lemma stored_trans: "stored st r1 \<Longrightarrow> stored (fst r1) r2 \<Longrightarrow> stored st (fst r2, snd r1 @ snd r2)"
  by (simp add: stored_def)

lemma track_finish_stored: "stored st (track_finish env r st1 f info fb now)"
  by (simp add: stored_def track_finish_def Let_def)

lemma stored_prefix:
  "stored st (s, es) \<Longrightarrow> (\<And>d. disk es' d = d) \<Longrightarrow> stored st (s, es' @ es)"
  by (simp add: stored_def)

lemma track_continue_stored: "stored st (track_continue env i r st cl f info fb now)"
proof (cases "track_adsb cl i (\<not> is_hex_id i \<and> cl_aviationstack_enabled cl) f now")
  case (Refused m)
  then show ?thesis by (simp add: track_continue_def stored_def)
next
  case (TrackUnconfirmed g)
  then show ?thesis by (simp add: track_continue_def stored_def track_finish_def Let_def prod.case_eq_if)
next
  case (Proceed g)
  then show ?thesis
    by (simp add: track_continue_def stored_def track_finish_def Let_def prod.case_eq_if track_late_facts(2))
qed

lemma handle_track_stored: "stored st (handle_track env i user r st cl now)"
proof (cases "track_refused st i user")
  case None
  define cs where "cs = (case i of Callsign cs \<Rightarrow> Some (cl_resolve_callsign cl cs) | Hex _ \<Rightarrow> None)"
  define t where "t = track_metadata env i cs st cl now"
  define f where "f = track_build env i cs user (fst (snd t)) now"
  define c where "c = track_continue env i r (fst t) cl f
    (map_option (msg_aviationstack_info (en_fmt env)) (lk_metadata (fst (snd t))))
    (lk_checked (fst (snd t)) \<and> lk_metadata (fst (snd t)) = None \<and> \<not> is_hex_id i) now"
  have ft: "flights (fst t) = flights st" by (simp add: t_def)
  have c: "stored st c" using track_continue_stored ft unfolding c_def stored_def by metis
  have q: "disk (snd (snd t)) d = d" for d by (simp add: t_def)
  have "handle_track env i user r st cl now =
     (if is_some_and cs (\<lambda>resolved. \<not> eq_ignore_ascii_case resolved (as_str i) \<and>
           duplicate_tracking_exists st i (Some resolved) None)
      then (st, [Reply r (msg_already_tracked i)])
      else if duplicate_tracking_exists (fst t) i (fl_callsign f) (fl_hex f)
      then (fst t, snd (snd t) @ (if lk_cache_changed (fst (snd t)) then [SaveState (fst t)] else []) @
                   [Reply r (msg_already_tracked i)])
      else (fst c, snd (snd t) @ snd c))"
    unfolding handle_track_def None option.case Let_def prod.case_eq_if cs_def [symmetric]
      t_def [symmetric] f_def [symmetric] c_def [symmetric] fst_conv snd_conv by (rule refl)
  then show ?thesis using c ft q by (auto simp: stored_def)
qed (simp add: handle_track_def stored_def)

lemma remove_flight_at_stored:
  "stored st (fst (remove_flight_at env st q s now), snd (snd (remove_flight_at env st q s now)))"
  by (simp add: stored_def remove_flight_at_def Let_def split: option.split)

lemma latency_stored:
  "stored st (fst (process_latency_sensitive_command env c st now),
     fst (snd (process_latency_sensitive_command env c st now)))"
  using remove_flight_at_stored [of st env]
  by (cases c) (simp_all add: stored_def prod.case_eq_if)

lemma process_command_stored: "stored st (process_command env c st cl now)"
proof (cases c)
  case (Track i user r)
  then show ?thesis by (simp add: handle_track_stored)
next
  case (Untrack i user m r)
  then show ?thesis using remove_flight_at_stored [of st env i user now]
    by (simp add: stored_def handle_untrack_def Let_def prod.case_eq_if split: option.split)
next
  case (Info i r)
  then show ?thesis by (simp add: stored_def handle_info_def Let_def prod.case_eq_if)
next
  case (DeleteFromWeb i r)
  then show ?thesis using remove_flight_at_stored [of st env i "str ''web''" now]
    by (simp add: stored_def prod.case_eq_if)
qed (simp_all add: stored_def handle_status_def)

fun answered :: "TrackerCommand \<Rightarrow> Effect list \<Rightarrow> bool" where
  "answered (Track _ _ r) es = one_reply r es"
| "answered (Untrack _ _ _ r) es = one_reply r es"
| "answered (Status _ r) es = one_reply r es"
| "answered (Info _ r) es = one_reply r es"
| "answered (Snapshot c) es = (\<exists>v. answers es = [SendSnapshot c v])"
| "answered (DeleteFromWeb _ c) es = (\<exists>d. answers es = [SendDeleted c d])"

section \<open>Properties\<close>

text \<open>
  Every command keeps the invariant of the tracker: no identifier is tracked twice, at
  most twelve flights are tracked and at most three per user, and every flight stays well-formed.
\<close>

theorem commands_keep_invariant:
  assumes "tracker_ok before st" and "before \<le> now"
  shows "tracker_ok now (fst (process_command env c st client now))"
  using process_command_ok [OF tracker_ok_mono [OF assms]] .

text \<open>
  Claim C5. Every command is answered exactly once, to the one who asked, on every path; and when
  it changes the set of tracked flights the new state is saved before the handler returns.
\<close>

theorem commands_answered_and_saved:
  "answered c (snd (process_command env c st client now)) \<and>
   (flights (fst (process_command env c st client now)) = flights st \<or>
    SaveState (fst (process_command env c st client now)) \<in> set (snd (process_command env c st client now)))"
proof -
  have rm: "flights (fst (remove_flight_at env st q s now)) = flights st \<or>
      SaveState (fst (remove_flight_at env st q s now)) \<in> set (snd (snd (remove_flight_at env st q s now)))"
    for q s by (simp add: remove_flight_at_def Let_def split: option.split)
  show ?thesis
  proof (cases c)
    case (Track i b r)
    then show ?thesis using handle_track_outcome [of env i b r st client now]
      by (auto simp: added_flight_def)
  next
    case (Untrack i b m r)
    then show ?thesis using rm [of i b]
      by (auto simp: handle_untrack_def Let_def prod.case_eq_if one_reply_def split: option.split)
  next
    case (Info i r)
    then show ?thesis by (simp add: handle_info_def Let_def prod.case_eq_if one_reply_def)
  next
    case (DeleteFromWeb i r)
    then show ?thesis using rm [of i "str ''web''"] by (auto simp: prod.case_eq_if)
  qed (simp_all add: handle_status_def one_reply_def)
qed

text \<open>
  Claim C10. \<^verbatim>\<open>!track\<close> either leaves the flights as they are or appends exactly one, that carries the
  requested identifier, its requester and the time of the command, and it does so only when fewer
  than twelve flights are tracked, fewer than three by this user, and none under that identifier,
  callsign or alias.
\<close>

theorem track_appends_one:
  "flights (fst (handle_track env i by r st client now)) = flights st \<or>
   (\<exists>f. flights (fst (handle_track env i by r st client now)) = flights st @ [f] \<and>
      fl_identifier f = i \<and> fl_tracked_by f = by \<and> fl_tracked_at f = now \<and>
      length (flights st) < 12 \<and>
      length (filter (\<lambda>g. fl_tracked_by g = by) (flights st)) < 3 \<and>
      \<not> duplicate_tracking_exists st i None None)"
  using handle_track_outcome [of env i "by" r st client now]
  by (auto simp: added_flight_def identity_of_def track_refused_None owned_by_def)


text \<open>
  A flight that is tracked is found by its identifier, its callsign, any of its aliases
  and its address, in any mix of upper and lower case, and what is found bears the name asked for.
\<close>

theorem tracked_flight_found:
  assumes "f \<in> set (flights st)" and "is_ascii q"
    and "name = as_str (fl_identifier f) \<or> fl_callsign f = Some name \<or>
         name \<in> set (fl_alias_callsigns f) \<or> fl_hex f = Some name"
    and "eq_ignore_ascii_case name q"
  shows "\<exists>i. find_flight_index (flights st) q = Some i \<and> i < length (flights st) \<and>
     (let g = flights st ! i in
      \<exists>n. eq_ignore_ascii_case n q \<and>
        (n = as_str (fl_identifier g) \<or> fl_callsign g = Some n \<or>
         n \<in> set (fl_alias_callsigns g) \<or> fl_hex g = Some n))"
proof -
  have up: "eq_ignore_ascii_case n (to_uppercase q) = eq_ignore_ascii_case n q" for n
    using eq_ignore_to_uppercase [OF assms(2)] eq_ignore_sym by metis
  have "find_flight_index (flights st) q \<noteq> None"
    using assms(1,3,4) by (auto simp: find_flight_index_def Let_def position_None is_some_and_iff up)
  then obtain i where i: "find_flight_index (flights st) q = Some i" by auto
  from position_Some [OF i [unfolded find_flight_index_def Let_def]] i show ?thesis
    by (auto simp: Let_def is_some_and_iff up)
qed

lemma tracker_ok_demo: "tracker_ok 0 \<lparr>flights = [demo_flight], flight_info_cache = []\<rparr>"
proof -
  have "flight_ok 0 demo_flight" by (rule demo_flight_ok)
  then show ?thesis by (simp add: tracker_ok_def owned_by_def)
qed

theorem commands_keep_invariant_witness:
  "tracker_ok 5 (fst (process_command demo_env (Untrack (str ''dlh1a'') (str ''bob'') False 1)
     \<lparr>flights = [demo_flight], flight_info_cache = []\<rparr> demo_client 5))"
  by (rule commands_keep_invariant [OF tracker_ok_demo]) simp

theorem tracked_flight_found_witness:
  "\<exists>i. find_flight_index [demo_flight] (str ''dlh1A'') = Some i"
proof -
  have "eq_ignore_ascii_case (str ''DLH1A'') (str ''dlh1A'')"
    by (simp add: eq_ignore_ascii_case_def to_ascii_lowercase_def ascii_lower_def
        is_ascii_uppercase_def rstr_simps)
  moreover have "is_ascii (str ''dlh1A'')" by (simp add: is_ascii_def rstr_simps)
  moreover have "fl_callsign demo_flight = Some (str ''DLH1A'')" by (rule demo_flight_simps)
  ultimately show ?thesis
    using tracked_flight_found [of demo_flight "\<lparr>flights = [demo_flight], flight_info_cache = []\<rparr>"
        "str ''dlh1A''" "str ''DLH1A''"] by auto
qed

end
