(* ===== verification/Tracker_Poll.thy ===== *)
theory Tracker_Poll imports Tracker_Commands "HOL-Library.Multiset" begin

text \<open>
  \<^verbatim>\<open>poll_all_flights_with_commands\<close> of \<^verbatim>\<open>aviation/tracker/commands.rs\<close>: one poll of all flights
  that are due, during which the commands of the dashboard are served. What the runtime decides
  is an argument: the order in which the requests finish and the commands that arrive between
  them (\<open>SelectEvent\<close>), and the commands waiting in the channel each time it is drained. Every
  request ends (it has a timeout), so a schedule that runs out is completed by the remaining
  answers in the order the requests were made.
\<close>

type_synonym PollAttempt = "FlightIdentifier \<times> bool \<times> NearbyAircraft reply"
type_synonym Arrivals = "(TrackerCommand \<times> instant) list"

datatype SelectEvent =
    Joined nat
  | JoinFailed nat
  | Received TrackerCommand instant

definition poll_attempt :: "aviation_client \<Rightarrow> TrackedFlight \<Rightarrow> PollAttempt" where
  "poll_attempt client f =
     (let candidates = callsign_poll_candidates f in
      if should_poll_by_hex f then
        (let lookup_hex = (case fl_hex f of Some h \<Rightarrow> h | None \<Rightarrow> as_str (fl_identifier f))
         in (fl_identifier f, True, cl_aircraft_by_hex client lookup_hex))
      else if candidates = [] then (fl_identifier f, False, Got None)
      else (fl_identifier f, False, poll_aircraft_by_callsign_aliases client candidates))"

text \<open>What a poll accumulates.\<close>

record PollAcc =
  pa_state :: FlightTrackerState
  pa_changed :: bool
  pa_removals :: "FlightIdentifier list"
  pa_messages :: "rstr list"
  pa_deferred :: "TrackerCommand list"
  pa_effects :: "Effect list"

text \<open>The first loop: which flights are asked for, and which pending flights expire.\<close>

definition poll_collect ::
  "advance_env \<Rightarrow> instant \<Rightarrow> TrackedFlight \<Rightarrow> PollAcc \<Rightarrow> PollAcc" where
  "poll_collect env now f acc =
     (case poll_readiness f now of
        Expired \<Rightarrow>
          acc\<lparr>pa_effects := pa_effects acc @
                [Journal now (tracking_removal_event (en_fmt env) f (str ''pending_expired'') None)],
              pa_messages := pa_messages acc @ [format_emit f EmitPendingExpired now],
              pa_removals := pa_removals acc @ [fl_identifier f],
              pa_changed := True\<rparr>
      | _ \<Rightarrow> acc)"

definition poll_requests ::
  "(FlightIdentifier \<Rightarrow> aviation_client) \<Rightarrow> instant \<Rightarrow> TrackedFlight list \<Rightarrow> PollAttempt list" where
  "poll_requests clients now fs =
     map (\<lambda>f. poll_attempt (clients (fl_identifier f)) f) (filter (\<lambda>f. poll_readiness f now = Due) fs)"

definition serve_command :: "advance_env \<Rightarrow> TrackerCommand \<times> instant \<Rightarrow> PollAcc \<Rightarrow> PollAcc" where
  "serve_command env cmd acc =
     (let (st, effs, deferred) =
            process_latency_sensitive_command env (fst cmd) (pa_state acc) (snd cmd)
      in acc\<lparr>pa_state := st, pa_effects := pa_effects acc @ effs,
             pa_deferred := pa_deferred acc @ (case deferred of Some c \<Rightarrow> [c] | None \<Rightarrow> [])\<rparr>)"

definition drain_latency_sensitive_commands ::
  "advance_env \<Rightarrow> Arrivals \<Rightarrow> PollAcc \<Rightarrow> PollAcc" where
  "drain_latency_sensitive_commands env cmds acc = fold (serve_command env) cmds acc"

text \<open>The select loop.\<close>

fun poll_select ::
  "advance_env \<Rightarrow> PollAttempt list \<Rightarrow> PollAttempt list \<Rightarrow> PollAcc \<Rightarrow> SelectEvent list \<Rightarrow>
   PollAttempt list \<times> PollAcc" where
  "poll_select env [] fetched acc evs = (fetched, acc)"
| "poll_select env (p # ps) fetched acc [] = (fetched @ p # ps, acc)"
| "poll_select env (p # ps) fetched acc (Joined i # evs) =
     (let k = i mod length (p # ps)
      in poll_select env (remove_at k (p # ps)) (fetched @ [(p # ps) ! k]) acc evs)"
| "poll_select env (p # ps) fetched acc (JoinFailed i # evs) =
     poll_select env (remove_at (i mod length (p # ps)) (p # ps)) fetched acc evs"
| "poll_select env (p # ps) fetched acc (Received cmd t # evs) =
     poll_select env (p # ps) fetched (serve_command env (cmd, t) acc) evs"

fun poll_outcome :: "NearbyAircraft reply \<Rightarrow> PollOutcome" where
  "poll_outcome (Got (Some ac)) = Hit ac"
| "poll_outcome (Got None) = Miss"
| "poll_outcome Failed = PollError"
| "poll_outcome Elapsed = Timeout"

definition update_flight :: "nat \<Rightarrow> TrackedFlight \<Rightarrow> FlightTrackerState \<Rightarrow> FlightTrackerState" where
  "update_flight idx f st = st\<lparr>flights := (flights st)[idx := f]\<rparr>"

definition run_followup ::
  "advance_env \<Rightarrow> aviation_client \<Rightarrow> nat \<Rightarrow> instant \<Rightarrow> Followup \<Rightarrow> FlightTrackerState \<times> Effect list \<Rightarrow>
   FlightTrackerState \<times> Effect list" where
  "run_followup env client idx now fu se =
     (case fu of FetchRoute cs \<Rightarrow>
        let (st, effs) = se; f = flights st ! idx in
        case cl_route client cs of
          Got (Some (origin, dest)) \<Rightarrow>
            let f = apply_route (en_airports env) f origin dest
            in (update_flight idx f st, effs @ [Journal now (route_found_event f cs origin dest)])
        | Got None \<Rightarrow> (st, effs @ [Journal now (route_failed_event f cs
                         (http_miss (str ''adsbdb'') (str ''flight_route'')))])
        | Failed \<Rightarrow> (st, effs @ [Journal now (route_failed_event f cs
                         (http_error (str ''adsbdb'') (str ''flight_route'')))])
        | Elapsed \<Rightarrow> (st, effs @ [Journal now (route_failed_event f cs
                         (http_timeout (str ''adsbdb'') (str ''flight_route'')))]))"

text \<open>One round of the third loop: the answer for one flight.\<close>

definition poll_apply ::
  "advance_env \<Rightarrow> aviation_client \<Rightarrow> instant \<Rightarrow> PollAttempt \<Rightarrow> PollAcc \<Rightarrow> PollAcc" where
  "poll_apply env client now attempt acc =
     (let (identifier, uh, result) = attempt; st = pa_state acc in
      case find_index_by_identifier (flights st) identifier of
        None \<Rightarrow> acc
      | Some idx \<Rightarrow>
          let (f, update) = advance_flight env (flights st ! idx)
                \<lparr>used_hex = uh, outcome = poll_outcome result\<rparr> now;
              (st, effs) = fold (run_followup env client idx now) (followups update)
                (update_flight idx f st, map (Journal now) (debug update))
          in acc\<lparr>pa_state := st, pa_changed := True, pa_effects := pa_effects acc @ effs,
                 pa_messages := pa_messages acc @
                   map (\<lambda>e. format_emit (flights st ! idx) e now) (emits update),
                 pa_removals := pa_removals acc @
                   (if removal update = None then [] else [identifier])\<rparr>)"

fun poll_results ::
  "advance_env \<Rightarrow> (FlightIdentifier \<Rightarrow> aviation_client) \<Rightarrow> instant \<Rightarrow> PollAttempt list \<Rightarrow>
   Arrivals list \<Rightarrow> PollAcc \<Rightarrow> PollAcc" where
  "poll_results env clients now [] drains acc = acc"
| "poll_results env clients now (a # as) drains acc =
     (let cmds = (case drains of [] \<Rightarrow> [] | d # _ \<Rightarrow> d);
          acc = drain_latency_sensitive_commands env cmds acc
      in poll_results env clients now as (tl drains) (poll_apply env (clients (fst a)) now a acc))"

definition poll_remove :: "FlightIdentifier \<Rightarrow> PollAcc \<Rightarrow> PollAcc" where
  "poll_remove identifier acc =
     (case find_index_by_identifier (flights (pa_state acc)) identifier of
        Some idx \<Rightarrow>
          acc\<lparr>pa_state := (pa_state acc)\<lparr>flights := remove_at idx (flights (pa_state acc))\<rparr>,
              pa_changed := True\<rparr>
      | None \<Rightarrow> acc)"

definition poll_start :: "FlightTrackerState \<Rightarrow> PollAcc" where
  "poll_start st = \<lparr>pa_state = st, pa_changed = False, pa_removals = [], pa_messages = [],
     pa_deferred = [], pa_effects = []\<rparr>"

text \<open>What the runtime does during one poll.\<close>

record PollSchedule =
  ps_select :: "SelectEvent list"
  ps_drains :: "Arrivals list"
  ps_final :: Arrivals

definition poll_until_removals ::
  "advance_env \<Rightarrow> (FlightIdentifier \<Rightarrow> aviation_client) \<Rightarrow> FlightTrackerState \<Rightarrow> instant \<Rightarrow>
   PollSchedule \<Rightarrow> PollAcc" where
  "poll_until_removals env clients st now sched =
     (let acc = fold (poll_collect env now) (flights st) (poll_start st);
          requests = poll_requests clients now (flights st);
          (fetched, acc) = poll_select env requests [] acc (ps_select sched)
      in poll_results env clients now fetched (ps_drains sched) acc)"

definition poll_all_flights_with_commands ::
  "advance_env \<Rightarrow> (FlightIdentifier \<Rightarrow> aviation_client) \<Rightarrow> FlightTrackerState \<Rightarrow> instant \<Rightarrow>
   PollSchedule \<Rightarrow> FlightTrackerState \<times> Effect list \<times> TrackerCommand list" where
  "poll_all_flights_with_commands env clients st now sched =
     (let acc = poll_until_removals env clients st now sched;
          acc = fold poll_remove (pa_removals acc) acc;
          acc = drain_latency_sensitive_commands env (ps_final sched) acc
      in (pa_state acc,
          pa_effects acc @ map Say (pa_messages acc) @
            (if pa_changed acc then [SaveState (pa_state acc)] else []),
          pa_deferred acc))"

section \<open>Lemmas\<close>

definition flight_ids :: "FlightTrackerState \<Rightarrow> FlightIdentifier list" where
  "flight_ids st = map fl_identifier (flights st)"

definition flight_of :: "FlightTrackerState \<Rightarrow> FlightIdentifier \<Rightarrow> TrackedFlight option" where
  "flight_of st i = find (\<lambda>f. fl_identifier f = i) (flights st)"

lemma find_index_Some:
  "find_index_by_identifier fs i = Some k \<Longrightarrow> k < length fs \<and> fl_identifier (fs ! k) = i"
  unfolding find_index_by_identifier_def using position_Some by blast

lemma find_index_None: "find_index_by_identifier fs i = None \<longleftrightarrow> i \<notin> fl_identifier ` set fs"
  by (auto simp: find_index_by_identifier_def position_None)

text \<open>Serving a command: nothing, or the removal of one flight and a save of what is left.\<close>

lemma serve_command_state:
  "pa_state (serve_command env c acc) =
     (case fst c of
        DeleteFromWeb i _ \<Rightarrow> fst (remove_flight_at env (pa_state acc) i (str ''web'') (snd c))
      | _ \<Rightarrow> pa_state acc)"
  by (cases "fst c") (simp_all add: serve_command_def Let_def prod.case_eq_if)

lemma serve_command_acc [simp]:
  "pa_changed (serve_command env c acc) = pa_changed acc"
  "pa_removals (serve_command env c acc) = pa_removals acc"
  "pa_messages (serve_command env c acc) = pa_messages acc"
  by (simp_all add: serve_command_def Let_def prod.case_eq_if)

lemma remove_at_subseq: "subseq (remove_at i xs) xs"
proof -
  have "suffix (drop 1 (drop i xs)) (drop i xs)" by (rule suffix_drop)
  then have "subseq (drop (Suc i) xs) (drop i xs)" by (simp add: suffix_imp_subseq)
  then have "subseq (take i xs @ drop (Suc i) xs) (take i xs @ drop i xs)"
    by (intro list_emb_append_mono) simp_all
  then show ?thesis by (simp add: remove_at_def)
qed

lemma subseq_distinct_ids: "subseq xs ys \<Longrightarrow> distinct ys \<Longrightarrow> distinct xs"
  by (metis distinct_nthsI subseq_conv_nths)

lemma serve_subseq: "subseq (flight_ids (pa_state (serve_command env c acc))) (flight_ids (pa_state acc))"
  by (auto simp: serve_command_state flight_ids_def remove_flight_at_flights map_remove_at
      remove_at_subseq split: TrackerCommand.split option.split)

lemma serve_ok:
  "tracker_ok now (pa_state acc) \<Longrightarrow> tracker_ok now (pa_state (serve_command env c acc))"
  by (simp add: serve_command_state remove_flight_at_ok split: TrackerCommand.split)

text \<open>Either nothing has changed since the start of the poll, or the poll will save, or it has saved.\<close>

definition saved_or_same :: "FlightTrackerState \<Rightarrow> PollAcc \<Rightarrow> bool" where
  "saved_or_same st acc \<longleftrightarrow>
     pa_changed acc \<or> pa_state acc = st \<or> SaveState (pa_state acc) \<in> set (pa_effects acc)"

lemma serve_saved: "saved_or_same st acc \<Longrightarrow> saved_or_same st (serve_command env c acc)"
proof -
  assume s: "saved_or_same st acc"
  show ?thesis
  proof (cases "\<exists>i r. fst c = DeleteFromWeb i r")
    case True
    then obtain i r where c: "fst c = DeleteFromWeb i r" by auto
    have "fst (remove_flight_at env (pa_state acc) i (str ''web'') (snd c)) = pa_state acc \<or>
        SaveState (fst (remove_flight_at env (pa_state acc) i (str ''web'') (snd c)))
          \<in> set (snd (snd (remove_flight_at env (pa_state acc) i (str ''web'') (snd c))))"
      by (simp add: remove_flight_at_def Let_def split: option.split)
    with s show ?thesis
      by (auto simp: saved_or_same_def serve_command_def c Let_def prod.case_eq_if)
  next
    case False
    then have "pa_state (serve_command env c acc) = pa_state acc"
      by (cases "fst c") (simp_all add: serve_command_state)
    moreover have "set (pa_effects acc) \<subseteq> set (pa_effects (serve_command env c acc))"
      by (auto simp: serve_command_def Let_def prod.case_eq_if)
    ultimately show ?thesis using s by (auto simp: saved_or_same_def)
  qed
qed

text \<open>
  A property of the accumulator that serving a command keeps is kept by a drain and by the select
  loop.
\<close>

lemma drain_induct:
  assumes "P acc" and "\<And>env c acc. P acc \<Longrightarrow> P (serve_command env c acc)"
  shows "P (drain_latency_sensitive_commands env cmds acc)"
  using assms(1) by (induction cmds arbitrary: acc)
    (simp_all add: drain_latency_sensitive_commands_def assms(2))

lemma select_induct:
  assumes "P acc" and "\<And>env c acc. P acc \<Longrightarrow> P (serve_command env c acc)"
  shows "P (snd (poll_select env ps fetched acc evs))"
  using assms(1) by (induction env ps fetched acc evs rule: poll_select.induct)
    (simp_all add: assms(2) Let_def)

text \<open>The answers that come out of the select loop are among the requests, none twice.\<close>

lemma remove_at_mset: "i < length xs \<Longrightarrow> mset (remove_at i xs) + {#xs ! i#} = mset xs"
proof -
  assume "i < length xs"
  then have "mset xs = mset (take i xs @ xs ! i # drop (Suc i) xs)" by (simp add: id_take_nth_drop [symmetric])
  then show ?thesis by (simp add: remove_at_def)
qed

lemma remove_at_snoc_mset:
  assumes "i < length xs"
  shows "mset (fs @ [xs ! i]) + mset (remove_at i xs) = mset fs + mset xs"
proof -
  have "mset xs = mset (remove_at i xs) + {#xs ! i#}" using remove_at_mset [OF assms] by simp
  then show ?thesis by (simp add: ac_simps)
qed

lemma select_fetched: "mset (fst (poll_select env ps fetched acc evs)) \<subseteq># mset fetched + mset ps"
proof (induction env ps fetched acc evs rule: poll_select.induct)
  case (3 env p ps fetched acc i evs)
  have "i mod length (p # ps) < length (p # ps)" by simp
  from remove_at_snoc_mset [OF this, of fetched] 3 show ?case
    by (simp only: poll_select.simps Let_def)
next
  case (4 env p ps fetched acc i evs)
  have "i mod length (p # ps) < length (p # ps)" by simp
  from remove_at_mset [OF this]
  have "mset (remove_at (i mod length (p # ps)) (p # ps)) \<subseteq># mset (p # ps)"
    by (metis mset_subset_eq_add_left)
  then have "mset fetched + mset (remove_at (i mod length (p # ps)) (p # ps)) \<subseteq># mset fetched + mset (p # ps)"
    by (rule subset_mset.add_left_mono)
  with 4 show ?case
    unfolding poll_select.simps by (rule subset_mset.order_trans)
qed simp_all

text \<open>Following up and applying an answer change one flight in place.\<close>

lemma run_followup_cases:
  "fst (run_followup env cl idx now fu se) = fst se \<or>
   (\<exists>r. fst (run_followup env cl idx now fu se) =
      update_flight idx (apply_route (en_airports env) (flights (fst se) ! idx) (fst r) (snd r)) (fst se))"
  by (auto simp: run_followup_def Let_def prod.case_eq_if split: Followup.split reply.split option.split)

lemma followups_induct:
  assumes "P (fst se)"
    and "\<And>st r. P st \<Longrightarrow>
      P (update_flight idx (apply_route (en_airports env) (flights st ! idx) (fst r) (snd r)) st)"
  shows "P (fst (fold (run_followup env cl idx now) fus se))"
  using assms(1)
proof (induction fus arbitrary: se)
  case (Cons fu fus)
  have "P (fst (run_followup env cl idx now fu se))"
    using run_followup_cases [of env cl idx now fu se] Cons.prems assms(2) by metis
  then show ?case using Cons.IH by simp
qed simp

text \<open>The accumulator after an answer, with the pieces named.\<close>

lemma poll_apply_unfold:
  "poll_apply env cl now a acc =
     (case find_index_by_identifier (flights (pa_state acc)) (fst a) of
        None \<Rightarrow> acc
      | Some idx \<Rightarrow>
          let r = advance_flight env (flights (pa_state acc) ! idx)
                    \<lparr>used_hex = fst (snd a), outcome = poll_outcome (snd (snd a))\<rparr> now;
              s = fold (run_followup env cl idx now) (followups (snd r))
                    (update_flight idx (fst r) (pa_state acc), map (Journal now) (debug (snd r)))
          in acc\<lparr>pa_state := fst s, pa_changed := True, pa_effects := pa_effects acc @ snd s,
                 pa_messages := pa_messages acc @
                   map (\<lambda>e. format_emit (flights (fst s) ! idx) e now) (emits (snd r)),
                 pa_removals := pa_removals acc @ (if removal (snd r) = None then [] else [fst a])\<rparr>)"
  by (simp add: poll_apply_def Let_def prod.case_eq_if split: option.split)

lemma poll_apply_induct:
  assumes "P (pa_state acc)"
    and "\<And>idx obs st. P st \<Longrightarrow> idx < length (flights st) \<Longrightarrow> fl_identifier (flights st ! idx) = fst a \<Longrightarrow>
      P (update_flight idx (fst (advance_flight env (flights st ! idx) obs now)) st)"
    and "\<And>idx r st. P st \<Longrightarrow> idx < length (flights st) \<Longrightarrow> fl_identifier (flights st ! idx) = fst a \<Longrightarrow>
      P (update_flight idx (apply_route (en_airports env) (flights st ! idx) (fst r) (snd r)) st)"
  shows "P (pa_state (poll_apply env cl now a acc))"
proof (cases "find_index_by_identifier (flights (pa_state acc)) (fst a)")
  case None
  then show ?thesis using assms(1) by (simp add: poll_apply_unfold)
next
  case (Some idx)
  let ?Q = "\<lambda>st. P st \<and> idx < length (flights st) \<and> fl_identifier (flights st ! idx) = fst a"
  note ix = find_index_Some [OF Some]
  have adv: "?Q (update_flight idx (fst (advance_flight env (flights st ! idx) obs now)) st)" if "?Q st" for st obs
    using that assms(2) advancing.go_identifier by (auto simp: update_flight_def)
  have rt: "?Q (update_flight idx (apply_route (en_airports env) (flights st ! idx) (fst r) (snd r)) st)"
    if "?Q st" for st r
    using that assms(3) routing.go_identifier by (auto simp: update_flight_def)
  have "?Q (fst (fold (run_followup env cl idx now) fus
      (update_flight idx (fst (advance_flight env (flights (pa_state acc) ! idx) obs now)) (pa_state acc), es)))"
    for fus obs es
    by (rule followups_induct [where P = ?Q]) (use adv rt ix assms(1) in auto)
  then show ?thesis by (simp add: poll_apply_unfold Some Let_def)
qed

lemma update_flight_ids:
  "fl_identifier g = fl_identifier (flights st ! idx) \<Longrightarrow> flight_ids (update_flight idx g st) = flight_ids st"
  by (cases "idx < length (flights st)")
    (auto simp: flight_ids_def update_flight_def nth_list_update intro!: nth_equalityI)

lemma poll_apply_ids: "flight_ids (pa_state (poll_apply env cl now a acc)) = flight_ids (pa_state acc)"
  by (rule poll_apply_induct [where P = "\<lambda>st. flight_ids st = flight_ids (pa_state acc)"])
    (simp_all add: update_flight_ids advancing.go_identifier routing.go_identifier)

lemma poll_apply_effects: "set (pa_effects acc) \<subseteq> set (pa_effects (poll_apply env cl now a acc))"
  by (auto simp: poll_apply_unfold Let_def split: option.split)

lemma poll_apply_ok:
  "tracker_ok now (pa_state acc) \<Longrightarrow> tracker_ok now (pa_state (poll_apply env cl now a acc))"
  by (rule poll_apply_induct)
    (simp_all add: update_flight_def advancing.tracker_ok_update routing.tracker_ok_update)

lemma poll_remove_state:
  "pa_state (poll_remove i acc) =
     (case find_index_by_identifier (flights (pa_state acc)) i of
        Some k \<Rightarrow> (pa_state acc)\<lparr>flights := remove_at k (flights (pa_state acc))\<rparr> | None \<Rightarrow> pa_state acc)"
  by (simp add: poll_remove_def split: option.split)

lemma remove_at_filter:
  assumes "distinct xs" and "k < length xs"
  shows "remove_at k xs = filter (\<lambda>x. x \<noteq> xs ! k) xs"
proof -
  let ?a = "take k xs" and ?b = "drop (Suc k) xs"
  have xs: "xs = ?a @ xs ! k # ?b" using assms(2) by (rule id_take_nth_drop)
  then have "distinct (?a @ xs ! k # ?b)" using assms(1) by simp
  then have "filter (\<lambda>x. x \<noteq> xs ! k) ?a = ?a" "filter (\<lambda>x. x \<noteq> xs ! k) ?b = ?b"
    by (auto intro!: filter_True)
  then have "filter (\<lambda>x. x \<noteq> xs ! k) (?a @ xs ! k # ?b) = ?a @ ?b" by simp
  then show ?thesis using xs by (simp add: remove_at_def)
qed

lemma poll_remove_ids:
  assumes "distinct (flight_ids (pa_state acc))"
  shows "flight_ids (pa_state (poll_remove i acc)) = filter (\<lambda>j. j \<noteq> i) (flight_ids (pa_state acc))"
proof (cases "find_index_by_identifier (flights (pa_state acc)) i")
  case None
  then have "i \<notin> set (flight_ids (pa_state acc))" by (auto simp: find_index_None flight_ids_def)
  then show ?thesis by (auto simp: poll_remove_state None intro!: filter_True [symmetric])
next
  case (Some k)
  let ?ids = "flight_ids (pa_state acc)"
  have k: "k < length ?ids" "?ids ! k = i" using find_index_Some [OF Some] by (simp_all add: flight_ids_def)
  have "remove_at k ?ids = filter (\<lambda>j. j \<noteq> i) ?ids" using remove_at_filter [OF assms k(1)] k(2) by simp
  then show ?thesis by (simp add: poll_remove_state Some flight_ids_def map_remove_at)
qed

lemma poll_removes_ids:
  assumes "distinct (flight_ids (pa_state acc))"
  shows "flight_ids (pa_state (fold poll_remove is acc)) = filter (\<lambda>j. j \<notin> set is) (flight_ids (pa_state acc))"
  using assms
proof (induction "is" arbitrary: acc)
  case (Cons i "is")
  then show ?case by (simp add: poll_remove_ids)
qed simp

text \<open>The first loop only looks.\<close>

lemma collect_simps [simp]:
  "pa_state (fold (poll_collect env now) fs acc) = pa_state acc"
  "pa_removals (fold (poll_collect env now) fs acc) =
     pa_removals acc @ map fl_identifier (filter (\<lambda>f. poll_readiness f now = Expired) fs)"
  "pa_deferred (fold (poll_collect env now) fs acc) = pa_deferred acc"
  by (induction fs arbitrary: acc) (simp_all add: poll_collect_def split: PollReadiness.split)

lemma poll_start_simps [simp]:
  "pa_state (poll_start st) = st" "pa_removals (poll_start st) = []" "pa_deferred (poll_start st) = []"
  "pa_changed (poll_start st) = False" "pa_messages (poll_start st) = []" "pa_effects (poll_start st) = []"
  by (simp_all add: poll_start_def)

lemma results_induct:
  assumes "P acc" and "\<And>env c acc. P acc \<Longrightarrow> P (serve_command env c acc)"
    and "\<And>cl a acc. P acc \<Longrightarrow> P (poll_apply env cl now a acc)"
  shows "P (poll_results env cls now as drains acc)"
  using assms(1)
proof (induction "as" arbitrary: drains acc)
  case (Cons a "as")
  have "P (drain_latency_sensitive_commands env cmds acc)" for cmds
    using drain_induct [where P = P, OF Cons.prems assms(2)] .
  then show ?case using Cons.IH assms(3) by (simp add: Let_def)
qed simp

text \<open>What the whole poll keeps, up to the removals and to the end.\<close>

lemma until_removals_induct:
  assumes "P (fold (poll_collect env now) (flights st) (poll_start st))"
    and "\<And>env c acc. P acc \<Longrightarrow> P (serve_command env c acc)"
    and "\<And>cl a acc. P acc \<Longrightarrow> P (poll_apply env cl now a acc)"
  shows "P (poll_until_removals env cls st now sched)"
  unfolding poll_until_removals_def Let_def prod.case_eq_if
  by (rule results_induct [OF select_induct [OF assms(1,2)] assms(2,3)])

lemma poll_end:
  "poll_all_flights_with_commands env cls st now sched =
     (let acc = poll_until_removals env cls st now sched;
          acc = drain_latency_sensitive_commands env (ps_final sched) (fold poll_remove (pa_removals acc) acc)
      in (pa_state acc, pa_effects acc @ map Say (pa_messages acc) @
            (if pa_changed acc then [SaveState (pa_state acc)] else []), pa_deferred acc))"
  by (simp add: poll_all_flights_with_commands_def Let_def)

lemma whole_poll_induct:
  assumes "P (fold (poll_collect env now) (flights st) (poll_start st))"
    and "\<And>env c acc. P acc \<Longrightarrow> P (serve_command env c acc)"
    and "\<And>cl a acc. P acc \<Longrightarrow> P (poll_apply env cl now a acc)"
    and "\<And>i acc. P acc \<Longrightarrow> P (poll_remove i acc)"
  shows "P (drain_latency_sensitive_commands env (ps_final sched)
           (fold poll_remove is (poll_until_removals env cls st now sched)))"
proof -
  have "P acc \<Longrightarrow> P (fold poll_remove is acc)" for acc
    by (induction "is" arbitrary: acc) (simp_all add: assms(4))
  then show ?thesis
    using drain_induct [where P = P, OF _ assms(2)] until_removals_induct [where P = P, OF assms(1-3)]
    by blast
qed

lemma poll_remove_subseq: "subseq (flight_ids (pa_state (poll_remove i acc))) (flight_ids (pa_state acc))"
  by (auto simp: poll_remove_state flight_ids_def map_remove_at remove_at_subseq split: option.split)

lemma poll_remove_ok: "tracker_ok now (pa_state acc) \<Longrightarrow> tracker_ok now (pa_state (poll_remove i acc))"
  by (simp add: poll_remove_state tracker_ok_remove split: option.split)

lemma apply_saved: "saved_or_same st acc \<Longrightarrow> saved_or_same st (poll_apply env cl now a acc)"
  by (auto simp: saved_or_same_def poll_apply_unfold Let_def split: option.split)

lemma remove_saved: "saved_or_same st acc \<Longrightarrow> saved_or_same st (poll_remove i acc)"
  by (auto simp: saved_or_same_def poll_remove_def split: option.split)

text \<open>Why a flight is removed by a poll.\<close>

definition removal_reason ::
  "(FlightIdentifier \<Rightarrow> aviation_client) \<Rightarrow> FlightTrackerState \<Rightarrow> instant \<Rightarrow> FlightIdentifier \<Rightarrow> bool" where
  "removal_reason cls st now i \<longleftrightarrow>
     (\<exists>f\<in>set (flights st). fl_identifier f = i \<and>
        (poll_readiness f now = Expired \<or>
         (poll_readiness f now = Due \<and> snd (snd (poll_attempt (cls i) f)) = Got None \<and>
          (\<exists>t. fl_last_visible_at f = Some t \<and> now - t \<ge> TRACKING_LOST_REMOVAL))))"

lemma mset_sub_distinct: "mset xs \<subseteq># mset ys \<Longrightarrow> distinct ys \<Longrightarrow> distinct xs"
proof -
  assume sub: "mset xs \<subseteq># mset ys" and d: "distinct ys"
  have "count (mset xs) a = (if a \<in> set xs then 1 else 0)" for a
  proof -
    have "count (mset xs) a \<le> count (mset ys) a" using sub by (rule mset_subset_eq_count)
    moreover have "count (mset ys) a \<le> 1" using d by (simp add: distinct_count_atmost_1)
    ultimately have le: "count (mset xs) a \<le> 1" by (rule order_trans)
    show ?thesis
    proof (cases "a \<in> set xs")
      case True
      then have "count (mset xs) a \<noteq> 0" by (simp add: count_mset_0_iff)
      with le have "count (mset xs) a = 1" by linarith
      with True show ?thesis by simp
    qed (simp add: count_mset_0_iff)
  qed
  then show ?thesis by (simp add: distinct_count_atmost_1)
qed

lemma poll_attempt_id [simp]: "fst (poll_attempt cl f) = fl_identifier f"
  by (simp add: poll_attempt_def Let_def)

lemma requests_ids:
  "map fst (poll_requests cls now fs) = map fl_identifier (filter (\<lambda>f. poll_readiness f now = Due) fs)"
  by (simp add: poll_requests_def comp_def)

lemma distinct_requests:
  assumes "distinct (map fl_identifier fs)"
  shows "distinct (map fst (poll_requests cls now fs))"
  unfolding requests_ids using assms by (rule distinct_map_filter)

lemma fetched_requests:
  assumes "fetched = fst (poll_select env (poll_requests cls now fs) [] acc evs)"
    and "distinct (map fl_identifier fs)"
  shows "set fetched \<subseteq> set (poll_requests cls now fs)" and "distinct (map fst fetched)"
proof -
  have sub: "mset fetched \<subseteq># mset (poll_requests cls now fs)"
    using select_fetched [of env "poll_requests cls now fs" "[]" acc evs] assms(1) by simp
  then show "set fetched \<subseteq> set (poll_requests cls now fs)" by (metis set_mset_mono set_mset_mset)
  have "mset (map fst fetched) \<subseteq># mset (map fst (poll_requests cls now fs))"
    using image_mset_subseteq_mono [OF sub] by simp
  then show "distinct (map fst fetched)" using distinct_requests [OF assms(2)] by (rule mset_sub_distinct)
qed

lemma poll_apply_others:
  "\<forall>f\<in>set (flights (pa_state (poll_apply env cl now a acc))).
     fl_identifier f \<noteq> fst a \<longrightarrow> f \<in> set (flights (pa_state acc))"
proof (rule poll_apply_induct [where P = "\<lambda>st. \<forall>f\<in>set (flights st).
     fl_identifier f \<noteq> fst a \<longrightarrow> f \<in> set (flights (pa_state acc))"])
  have up: "g = h \<or> g \<in> set (flights st)" if "g \<in> set (flights (update_flight idx h st))" for g h idx st
    using that set_update_subset_insert [of "flights st" idx h] by (auto simp: update_flight_def)
  show "\<forall>f\<in>set (flights (update_flight idx (fst (advance_flight env (flights st ! idx) obs now)) st)).
      fl_identifier f \<noteq> fst a \<longrightarrow> f \<in> set (flights (pa_state acc))"
    if "\<forall>f\<in>set (flights st). fl_identifier f \<noteq> fst a \<longrightarrow> f \<in> set (flights (pa_state acc))"
      and "fl_identifier (flights st ! idx) = fst a" for idx obs st
    using that up advancing.go_identifier by fastforce
  show "\<forall>f\<in>set (flights (update_flight idx (apply_route (en_airports env) (flights st ! idx) (fst r) (snd r)) st)).
      fl_identifier f \<noteq> fst a \<longrightarrow> f \<in> set (flights (pa_state acc))"
    if "\<forall>f\<in>set (flights st). fl_identifier f \<noteq> fst a \<longrightarrow> f \<in> set (flights (pa_state acc))"
      and "fl_identifier (flights st ! idx) = fst a" for idx r st
    using that up routing.go_identifier by fastforce
qed simp

lemma serve_subset:
  "set (flights (pa_state (serve_command env c acc))) \<subseteq> set (flights (pa_state acc))"
  by (simp add: serve_command_state remove_flight_at_flights set_remove_at_subset
      split: TrackerCommand.split option.split)

lemma drain_subset:
  "set (flights (pa_state (drain_latency_sensitive_commands env cmds acc))) \<subseteq> set (flights (pa_state acc))"
  by (rule drain_induct [where P = "\<lambda>x. set (flights (pa_state x)) \<subseteq> set (flights (pa_state acc))"])
    (use serve_subset in blast)+

lemma drain_removals [simp]:
  "pa_removals (drain_latency_sensitive_commands env cmds acc) = pa_removals acc"
  by (rule drain_induct [where P = "\<lambda>x. pa_removals x = pa_removals acc"]) simp_all

lemma poll_apply_removals:
  "pa_removals (poll_apply env cl now a acc) = pa_removals acc \<or>
   (pa_removals (poll_apply env cl now a acc) = pa_removals acc @ [fst a] \<and>
    (\<exists>f\<in>set (flights (pa_state acc)). fl_identifier f = fst a \<and> snd (snd a) = Got None \<and> lost_for f now \<noteq> None))"
proof (cases "find_index_by_identifier (flights (pa_state acc)) (fst a)")
  case None
  then show ?thesis by (simp add: poll_apply_unfold)
next
  case (Some idx)
  let ?f = "flights (pa_state acc) ! idx"
  have o: "outcome \<lparr>used_hex = u, outcome = poll_outcome p\<rparr> = Miss \<longleftrightarrow> p = Got None" for u p
    by (cases p rule: poll_outcome.cases) simp_all
  have "?f \<in> set (flights (pa_state acc))" "fl_identifier ?f = fst a" using find_index_Some [OF Some] by simp_all
  then show ?thesis
    by (simp add: poll_apply_unfold Some Let_def advance_removal o del: Observation.select_convs) blast
qed

lemma results_reasons:
  assumes "distinct (map fst as)"
    and "\<And>a f. a \<in> set as \<Longrightarrow> f \<in> set (flights (pa_state acc)) \<Longrightarrow> fl_identifier f = fst a \<Longrightarrow>
      snd (snd a) = Got None \<Longrightarrow> lost_for f now \<noteq> None \<Longrightarrow> Q (fst a)"
    and "\<forall>i\<in>set (pa_removals acc). Q i"
  shows "\<forall>i\<in>set (pa_removals (poll_results env cls now as drains acc)). Q i"
  using assms
proof (induction "as" arbitrary: drains acc)
  case (Cons a "as")
  let ?d = "drain_latency_sensitive_commands env (case drains of [] \<Rightarrow> [] | d # _ \<Rightarrow> d) acc"
  let ?p = "poll_apply env (cls (fst a)) now a ?d"
  have sub: "set (flights (pa_state ?d)) \<subseteq> set (flights (pa_state acc))" by (rule drain_subset)
  have "Q (fst a)" if "f \<in> set (flights (pa_state ?d))" "fl_identifier f = fst a"
    "snd (snd a) = Got None" "lost_for f now \<noteq> None" for f
    by (rule Cons.prems(2) [of a f]) (use that sub in auto)
  then have "\<forall>i\<in>set (pa_removals ?p). Q i"
    using poll_apply_removals [of env "cls (fst a)" now a ?d] Cons.prems(3) by auto
  moreover have "Q (fst b)" if "b \<in> set as" "f \<in> set (flights (pa_state ?p))" "fl_identifier f = fst b"
    "snd (snd b) = Got None" "lost_for f now \<noteq> None" for b f
  proof -
    have "fst a \<notin> fst ` set as" using Cons.prems(1) by simp
    then have "fst b \<noteq> fst a" using that(1) by (metis imageI)
    then have "f \<in> set (flights (pa_state acc))" using that(2,3) poll_apply_others sub by fastforce
    with that Cons.prems(2) show ?thesis by simp
  qed
  ultimately show ?case using Cons.IH [of ?p] Cons.prems(1) by (simp add: Let_def)
qed simp

text \<open>What is on disk during and after a poll.\<close>

definition poll_stored :: "FlightTrackerState \<Rightarrow> PollAcc \<Rightarrow> bool" where
  "poll_stored st acc \<longleftrightarrow> pa_changed acc \<or> stored st (pa_state acc, pa_effects acc)"

lemma serve_poll_stored: "poll_stored st acc \<Longrightarrow> poll_stored st (serve_command env c acc)"
  using latency_stored [of "pa_state acc" env "fst c" "snd c"]
  by (auto simp: poll_stored_def stored_def serve_command_def Let_def prod.case_eq_if)

lemma apply_poll_stored: "poll_stored st acc \<Longrightarrow> poll_stored st (poll_apply env cl now a acc)"
  by (auto simp: poll_stored_def poll_apply_unfold Let_def split: option.split)

lemma remove_poll_stored: "poll_stored st acc \<Longrightarrow> poll_stored st (poll_remove i acc)"
  by (auto simp: poll_stored_def poll_remove_def split: option.split)

lemma collect_poll_stored: "poll_stored st (fold (poll_collect env now) fs (poll_start st))"
proof -
  have "poll_stored st acc \<Longrightarrow> poll_stored st (fold (poll_collect env now) fs acc)" for acc
    by (induction fs arbitrary: acc) (auto simp: poll_collect_def poll_stored_def split: PollReadiness.split)
  moreover have "poll_stored st (poll_start st)" by (simp add: poll_stored_def stored_def)
  ultimately show ?thesis by blast
qed

lemma poll_is_stored:
  "stored st (fst (poll_all_flights_with_commands env cls st now sched),
     fst (snd (poll_all_flights_with_commands env cls st now sched)))"
proof -
  let ?acc = "drain_latency_sensitive_commands env (ps_final sched)
    (fold poll_remove (pa_removals (poll_until_removals env cls st now sched))
      (poll_until_removals env cls st now sched))"
  have "poll_stored st ?acc"
    by (rule whole_poll_induct [where P = "poll_stored st"])
      (simp_all add: collect_poll_stored serve_poll_stored apply_poll_stored remove_poll_stored)
  then show ?thesis by (auto simp: poll_end Let_def poll_stored_def stored_def)
qed

lemma poll_ok:
  assumes "tracker_ok before st" and "before \<le> now"
  shows "tracker_ok now (fst (poll_all_flights_with_commands env cls st now sched))"
  unfolding poll_end Let_def fst_conv
  by (rule whole_poll_induct [where P = "\<lambda>acc. tracker_ok now (pa_state acc)"])
    (simp_all add: tracker_ok_mono [OF assms] serve_ok poll_apply_ok poll_remove_ok)

section \<open>Properties\<close>

text \<open>
  Claim C3. Whatever order the requests finish in and whatever commands arrive in between, a poll
  keeps the invariant of the tracker, tracks no flight that was not tracked before (a flight that
  is deleted while its answer is under way does not come back) and keeps the order of the others;
  and if the set of flights or any flight has changed, the state it returns has been saved.
\<close>

theorem poll_keeps_invariant:
  assumes "tracker_ok before st" and "before \<le> now"
    and "poll_all_flights_with_commands env cls st now sched = (st', effs, deferred)"
  shows "tracker_ok now st' \<and> subseq (map fl_identifier (flights st')) (map fl_identifier (flights st)) \<and>
    (st' = st \<or> SaveState st' \<in> set effs)"
proof -
  define acc where "acc = drain_latency_sensitive_commands env (ps_final sched)
    (fold poll_remove (pa_removals (poll_until_removals env cls st now sched))
      (poll_until_removals env cls st now sched))"
  have "(pa_state acc, pa_effects acc @ map Say (pa_messages acc) @
      (if pa_changed acc then [SaveState (pa_state acc)] else []), pa_deferred acc) = (st', effs, deferred)"
    using assms(3) unfolding poll_end Let_def acc_def .
  then have r: "st' = pa_state acc" "effs = pa_effects acc @ map Say (pa_messages acc) @
      (if pa_changed acc then [SaveState (pa_state acc)] else [])" by auto
  have "tracker_ok now (pa_state acc)"
    unfolding acc_def
    by (rule whole_poll_induct [where P = "\<lambda>acc. tracker_ok now (pa_state acc)"])
      (simp_all add: tracker_ok_mono [OF assms(1,2)] serve_ok poll_apply_ok poll_remove_ok)
  moreover have "subseq (flight_ids (pa_state acc)) (flight_ids st)"
    unfolding acc_def
    by (rule whole_poll_induct [where P = "\<lambda>acc. subseq (flight_ids (pa_state acc)) (flight_ids st)"])
      (auto simp: poll_apply_ids intro: subseq_order.order_trans serve_subseq poll_remove_subseq)
  moreover have "saved_or_same st acc"
    unfolding acc_def
    by (rule whole_poll_induct [where P = "saved_or_same st"])
      (simp_all add: serve_saved apply_saved remove_saved, simp add: saved_or_same_def)
  ultimately show ?thesis unfolding r flight_ids_def saved_or_same_def by auto
qed


text \<open>The commands that a poll puts off.\<close>

fun is_latency_sensitive :: "TrackerCommand \<Rightarrow> bool" where
  "is_latency_sensitive (Snapshot _) = True"
| "is_latency_sensitive (DeleteFromWeb _ _) = True"
| "is_latency_sensitive _ = False"

text \<open>The commands the select loop takes from the channel before the last request ends.\<close>

fun select_taken :: "nat \<Rightarrow> SelectEvent list \<Rightarrow> TrackerCommand list" where
  "select_taken 0 evs = []"
| "select_taken (Suc n) [] = []"
| "select_taken (Suc n) (Received cmd t # evs) = cmd # select_taken (Suc n) evs"
| "select_taken (Suc n) (_ # evs) = select_taken n evs"

lemma serve_deferred:
  "pa_deferred (serve_command env c acc) =
     pa_deferred acc @ (if is_latency_sensitive (fst c) then [] else [fst c])"
  by (cases "fst c") (simp_all add: serve_command_def Let_def prod.case_eq_if)

lemma drain_deferred:
  "pa_deferred (drain_latency_sensitive_commands env cmds acc) =
     pa_deferred acc @ filter (\<lambda>c. \<not> is_latency_sensitive c) (map fst cmds)"
  by (induction cmds arbitrary: acc)
    (simp_all add: drain_latency_sensitive_commands_def serve_deferred)

lemma select_deferred:
  "pa_deferred (snd (poll_select env ps fetched acc evs)) =
     pa_deferred acc @ filter (\<lambda>c. \<not> is_latency_sensitive c) (select_taken (length ps) evs)"
proof (induction env ps fetched acc evs rule: poll_select.induct)
  case (3 env p ps fetched acc i evs)
  then show ?case using length_remove_at [of "i mod length (p # ps)" "p # ps"] by (simp add: Let_def)
next
  case (4 env p ps fetched acc i evs)
  then show ?case using length_remove_at [of "i mod length (p # ps)" "p # ps"] by simp
qed (simp_all add: serve_deferred)

lemma poll_apply_deferred [simp]: "pa_deferred (poll_apply env cl now a acc) = pa_deferred acc"
  by (simp add: poll_apply_unfold Let_def split: option.split)

lemma results_deferred:
  "pa_deferred (poll_results env cls now as drains acc) =
     pa_deferred acc @ filter (\<lambda>c. \<not> is_latency_sensitive c) (map fst (concat (take (length as) drains)))"
proof (induction "as" arbitrary: drains acc)
  case (Cons a "as")
  then show ?case by (cases drains) (simp_all add: Let_def drain_deferred)
qed simp

lemma select_length:
  "(\<forall>i. JoinFailed i \<notin> set evs) \<Longrightarrow>
   length (fst (poll_select env ps fetched acc evs)) = length fetched + length ps"
proof (induction env ps fetched acc evs rule: poll_select.induct)
  case (3 env p ps fetched acc i evs)
  then show ?case using length_remove_at [of "i mod length (p # ps)" "p # ps"] by (simp add: Let_def)
qed auto

lemma removes_deferred [simp]: "pa_deferred (fold poll_remove is acc) = pa_deferred acc"
  by (induction "is" arbitrary: acc) (auto simp: poll_remove_def split: option.split)

text \<open>
  No command is lost or reordered by a poll: the commands it hands back for later are
  exactly the chat commands it took from the channel (while the requests ran, before each answer,
  and at the end), in the order they arrived; the rest were commands of the dashboard, served at
  once.
\<close>

theorem poll_defers_chat_commands:
  assumes "\<forall>i. JoinFailed i \<notin> set (ps_select sched)"
    and "n = length (filter (\<lambda>f. poll_readiness f now = Due) (flights st))"
  shows "snd (snd (poll_all_flights_with_commands env cls st now sched)) =
     filter (\<lambda>c. \<not> is_latency_sensitive c)
       (select_taken n (ps_select sched) @ map fst (concat (take n (ps_drains sched))) @
        map fst (ps_final sched))"
proof -
  have n: "length (poll_requests cls now (flights st)) = n"
    using assms(2) by (simp add: poll_requests_def)
  show ?thesis
    using select_length [OF assms(1)] n
    by (simp add: poll_end Let_def drain_deferred poll_until_removals_def prod.case_eq_if
        results_deferred select_deferred)
qed

text \<open>
  A poll at which nothing is due, nothing has expired and no command arrives does
  nothing: it changes no flight, says nothing, journals nothing and does not save.
\<close>

theorem poll_idle:
  assumes "\<forall>f\<in>set (flights st). \<exists>t. poll_readiness f now = NotDue t"
    and "ps_select sched = []" and "ps_final sched = []"
  shows "poll_all_flights_with_commands env cls st now sched = (st, [], [])"
proof -
  have none: "filter (\<lambda>f. poll_readiness f now = Due) (flights st) = []"
    "filter (\<lambda>f. poll_readiness f now = Expired) (flights st) = []"
    using assms(1) by (auto simp: filter_empty_conv)
  have "fold (poll_collect env now) fs (poll_start st) = poll_start st"
    if "\<forall>f\<in>set fs. \<exists>t. poll_readiness f now = NotDue t" for fs
    using that by (induction fs) (auto simp: poll_collect_def)
  then show ?thesis
    using assms none
    by (simp add: poll_all_flights_with_commands_def poll_until_removals_def poll_requests_def Let_def
        drain_latency_sensitive_commands_def)
qed

definition quiet_schedule :: PollSchedule where
  "quiet_schedule = \<lparr>ps_select = [], ps_drains = [], ps_final = []\<rparr>"

theorem poll_keeps_invariant_witness:
  "tracker_ok 5 (fst (poll_all_flights_with_commands demo_env (\<lambda>_. demo_client)
     \<lparr>flights = [demo_flight], flight_info_cache = []\<rparr> 5 quiet_schedule))"
  using poll_keeps_invariant [OF tracker_ok_demo, of 5 demo_env "\<lambda>_. demo_client" quiet_schedule]
  by (metis prod.collapse zero_le_numeral)


theorem poll_defers_chat_commands_witness:
  "snd (snd (poll_all_flights_with_commands demo_env (\<lambda>_. demo_client)
     \<lparr>flights = [demo_flight], flight_info_cache = []\<rparr> 0
     \<lparr>ps_select = [Received (Status None 1) 0, Joined 0, Received (Status None 2) 0],
      ps_drains = [[(Snapshot 7, 0)]], ps_final = [(Status None 3, 0)]\<rparr>)) =
   [Status None 1, Status None 3]"
proof -
  have due: "poll_readiness demo_flight 0 = Due"
    by (simp add: poll_readiness_def pending_poll_schedule_def pending_unknown_poll_schedule_def
        is_pending_adsb_def demo_flight_def new_flight_def time_simps pending_due_at_def
        next_due_after_last_poll_def readiness_at_def Let_def)
  then show ?thesis
    by (subst poll_defers_chat_commands [where n = 1]) simp_all
qed

theorem poll_idle_witness:
  "poll_all_flights_with_commands demo_env (\<lambda>_. demo_client)
     \<lparr>flights = [demo_flight\<lparr>fl_last_adsb_poll_at := Some 0\<rparr>], flight_info_cache = []\<rparr> 5 quiet_schedule =
   (\<lparr>flights = [demo_flight\<lparr>fl_last_adsb_poll_at := Some 0\<rparr>], flight_info_cache = []\<rparr>, [], [])"
proof -
  have "poll_readiness (demo_flight\<lparr>fl_last_adsb_poll_at := Some 0\<rparr>) 5 = NotDue (secs 120)"
    by (simp add: poll_readiness_def pending_poll_schedule_def pending_unknown_poll_schedule_def
        is_pending_adsb_def demo_flight_def new_flight_def time_simps pending_due_at_def
        next_due_after_last_poll_def readiness_at_def Let_def)
  then show ?thesis by (intro poll_idle) (auto simp: quiet_schedule_def)
qed

end
