(* ===== verification/Reachability.thy ===== *)
theory Reachability imports Main begin

text \<open>
  Reachable states of a step relation, and the interface of an invariant: what a component's
  theory provides for its own step relation, and what its properties take from it.
\<close>

inductive reachable :: "('s \<Rightarrow> bool) \<Rightarrow> ('s \<Rightarrow> 's \<Rightarrow> bool) \<Rightarrow> 's \<Rightarrow> bool" for start step where
  reach_start: "start s \<Longrightarrow> reachable start step s"
| reach_step: "reachable start step s \<Longrightarrow> step s s' \<Longrightarrow> reachable start step s'"

locale invariant =
  fixes start :: "'s \<Rightarrow> bool" and step :: "'s \<Rightarrow> 's \<Rightarrow> bool" and inv :: "'s \<Rightarrow> bool"
  assumes starts: "start s \<Longrightarrow> inv s"
    and keeps: "inv s \<Longrightarrow> step s s' \<Longrightarrow> inv s'"
begin

lemma always: "reachable start step s \<Longrightarrow> inv s"
  by (induction rule: reachable.induct) (auto intro: starts keeps)

text \<open>A property of steps that holds under the invariant holds at every step of every run.\<close>

lemma always_step:
  assumes "\<And>s s'. inv s \<Longrightarrow> step s s' \<Longrightarrow> P s s'" and "reachable start step s" and "step s s'"
  shows "P s s'"
  using assms always by blast

end

end
