(* ===== verification/Tracker_Loop.thy ===== *)
theory Tracker_Loop imports Tracker_Poll Reachability begin

text \<open>
  \<^verbatim>\<open>aviation/tracker/loop_run.rs\<close>: the task that owns the tracked flights. Its loop is a labelled
  step relation: one step is one turn of the loop, labelled with the effects it performs. What the
  outside decides (the commands in the channel, the answers of the services, the instants the
  clock shows, when the channel closes) are the arguments of the rules; the clock does not run
  backwards. Chat messages go through \<open>LoopEff\<close>; \<open>PruneJournals\<close> removes old journal files.
\<close>

datatype LoopEffect = LoopEff Effect | PruneJournals

record LoopState =
  lp_state :: FlightTrackerState
  lp_clock :: instant
  lp_journal_day :: int
  lp_running :: bool

text \<open>\<^verbatim>\<open>DateTime<Utc>::date_naive\<close>, as the number of the day.\<close>

definition utc_day :: "instant \<Rightarrow> int" where
  "utc_day t = t div secs 86400"

text \<open>A command with the answers the services give while it runs, and the time it is handled.\<close>

type_synonym timed_command = "TrackerCommand \<times> aviation_client \<times> instant"

definition run_command ::
  "advance_env \<Rightarrow> timed_command \<Rightarrow> FlightTrackerState \<times> Effect list \<Rightarrow> FlightTrackerState \<times> Effect list" where
  "run_command env c se =
     (let (cmd, client, t) = c;
          (st, effs) = process_command env cmd (fst se) client t
      in (st, snd se @ effs))"

definition run_commands ::
  "advance_env \<Rightarrow> timed_command list \<Rightarrow> FlightTrackerState \<Rightarrow> FlightTrackerState \<times> Effect list" where
  "run_commands env cs st = fold (run_command env) cs (st, [])"

definition loop_init :: "StateFile \<Rightarrow> instant \<Rightarrow> LoopState \<times> LoopEffect list" where
  "loop_init file now =
     (\<lparr>lp_state = load_tracker_state file, lp_clock = now, lp_journal_day = utc_day now,
       lp_running = True\<rparr>, [PruneJournals])"

text \<open>
  What happens in one turn with flights to follow: the commands taken before the poll, the poll,
  and the answers and times for the commands it put off.
\<close>

record Turn =
  tn_commands :: "timed_command list"
  tn_poll_at :: instant
  tn_clients :: "FlightIdentifier \<Rightarrow> aviation_client"
  tn_schedule :: PollSchedule
  tn_deferred :: "(aviation_client \<times> instant) list"
  tn_after :: instant

definition run_turn ::
  "advance_env \<Rightarrow> Turn \<Rightarrow> FlightTrackerState \<Rightarrow> FlightTrackerState \<times> Effect list" where
  "run_turn env turn st =
     (let (st, e1) = run_commands env (tn_commands turn) st;
          (st, e2, deferred) = poll_all_flights_with_commands env (tn_clients turn) st
             (tn_poll_at turn) (tn_schedule turn);
          (st, e3) = run_commands env (zip deferred (tn_deferred turn)) st
      in (st, e1 @ e2 @ e3))"

text \<open>The times of a turn, in the order they are read.\<close>

definition turn_times :: "Turn \<Rightarrow> instant list" where
  "turn_times turn = map (snd \<circ> snd) (tn_commands turn) @ [tn_poll_at turn] @
     map snd (tn_deferred turn) @ [tn_after turn]"

text \<open>
  The clock does not run backwards from \<open>now\<close>, and there is an answer for every command put off.
\<close>

definition turn_fits :: "advance_env \<Rightarrow> Turn \<Rightarrow> FlightTrackerState \<Rightarrow> instant \<Rightarrow> bool" where
  "turn_fits env turn st now =
     (sorted (now # turn_times turn) \<and>
      length (tn_deferred turn) =
        length (snd (snd (poll_all_flights_with_commands env (tn_clients turn)
          (fst (run_commands env (tn_commands turn) st)) (tn_poll_at turn) (tn_schedule turn)))))"

definition roll_journal :: "instant \<Rightarrow> int \<Rightarrow> int \<times> LoopEffect list" where
  "roll_journal now day = (if utc_day now \<noteq> day then (utc_day now, [PruneJournals]) else (day, []))"

definition loop_wake :: "FlightTrackerState \<Rightarrow> instant \<Rightarrow> instant" where
  "loop_wake st now = (case next_poll_at (flights st) now of Some t \<Rightarrow> t | None \<Rightarrow> now)"

inductive loop_step :: "advance_env \<Rightarrow> LoopState \<Rightarrow> LoopEffect list \<Rightarrow> LoopState \<Rightarrow> bool" for env where
  idle_command:
    "lp_running s \<Longrightarrow> flights (lp_state s) = [] \<Longrightarrow> lp_clock s \<le> t \<Longrightarrow>
     process_command env cmd (lp_state s) client t = (st, effs) \<Longrightarrow>
     loop_step env s (map LoopEff effs) (s\<lparr>lp_state := st, lp_clock := t\<rparr>)"
| idle_closed:
    "lp_running s \<Longrightarrow> flights (lp_state s) = [] \<Longrightarrow>
     loop_step env s [] (s\<lparr>lp_running := False\<rparr>)"
| turn_slept:
    "lp_running s \<Longrightarrow> flights (lp_state s) \<noteq> [] \<Longrightarrow> turn_fits env turn (lp_state s) (lp_clock s) \<Longrightarrow>
     run_turn env turn (lp_state s) = (st, effs) \<Longrightarrow>
     roll_journal (tn_after turn) (lp_journal_day s) = (day, prune) \<Longrightarrow>
     loop_wake st (tn_after turn) \<le> wake \<Longrightarrow>
     loop_step env s (map LoopEff effs @ prune)
       (s\<lparr>lp_state := st, lp_clock := wake, lp_journal_day := day\<rparr>)"
| turn_command:
    "lp_running s \<Longrightarrow> flights (lp_state s) \<noteq> [] \<Longrightarrow> turn_fits env turn (lp_state s) (lp_clock s) \<Longrightarrow>
     run_turn env turn (lp_state s) = (st, effs) \<Longrightarrow>
     roll_journal (tn_after turn) (lp_journal_day s) = (day, prune) \<Longrightarrow> tn_after turn \<le> t \<Longrightarrow>
     process_command env cmd st client t = (st', effs') \<Longrightarrow>
     loop_step env s (map LoopEff effs @ prune @ map LoopEff effs')
       (s\<lparr>lp_state := st', lp_clock := t, lp_journal_day := day\<rparr>)"
| turn_closed:
    "lp_running s \<Longrightarrow> flights (lp_state s) \<noteq> [] \<Longrightarrow> turn_fits env turn (lp_state s) (lp_clock s) \<Longrightarrow>
     run_turn env turn (lp_state s) = (st, effs) \<Longrightarrow>
     roll_journal (tn_after turn) (lp_journal_day s) = (day, prune) \<Longrightarrow>
     loop_step env s (map LoopEff effs @ prune)
       (s\<lparr>lp_state := st, lp_clock := tn_after turn, lp_journal_day := day, lp_running := False\<rparr>)"

inductive_cases loop_stepE: "loop_step env s effs s'"
inductive_simps stopped_step: "loop_step env (s\<lparr>lp_running := False\<rparr>) effs s'"

section \<open>Lemmas\<close>

lemma run_command_ok:
  assumes "tracker_ok now (fst se)" and "now \<le> snd (snd c)"
  shows "tracker_ok (snd (snd c)) (fst (run_command env c se))"
  using process_command_ok [OF tracker_ok_mono [OF assms], of env "fst c" "fst (snd c)"]
  by (simp add: run_command_def prod.case_eq_if)

lemma fold_commands_ok:
  assumes "tracker_ok now (fst se)" and "sorted (now # map (snd \<circ> snd) cs)"
  shows "tracker_ok (last (now # map (snd \<circ> snd) cs)) (fst (fold (run_command env) cs se))"
  using assms
proof (induction cs arbitrary: now se)
  case (Cons c cs)
  have "tracker_ok (snd (snd c)) (fst (run_command env c se))"
    using run_command_ok Cons.prems by simp
  from Cons.IH [OF this] Cons.prems(2) show ?case by simp
qed simp

lemma run_commands_ok:
  assumes "tracker_ok now st" and "sorted (now # map (snd \<circ> snd) cs)"
  shows "tracker_ok (last (now # map (snd \<circ> snd) cs)) (fst (run_commands env cs st))"
  using fold_commands_ok [of now "(st, [])" cs env] assms by (simp add: run_commands_def)

lemma sorted_last_le: "sorted (xs @ y # ys) \<Longrightarrow> xs \<noteq> [] \<Longrightarrow> last xs \<le> (y :: 'a :: linorder)"
  by (simp add: sorted_append)

lemma map_zip_snd: "map (snd \<circ> snd) (zip ds xs) = take (length ds) (map snd xs)"
  by (induction ds xs rule: list_induct2') simp_all

lemma run_turn_ok:
  assumes ok: "tracker_ok now st" and s: "sorted (now # turn_times turn)"
  shows "tracker_ok (tn_after turn) (fst (run_turn env turn st))"
proof -
  let ?c = "tn_commands turn" and ?p = "tn_poll_at turn" and ?d = "tn_deferred turn"
  define r1 where "r1 = run_commands env ?c st"
  define r2 where "r2 = poll_all_flights_with_commands env (tn_clients turn) (fst r1) ?p (tn_schedule turn)"
  let ?t1 = "last (now # map (snd \<circ> snd) ?c)"
  have s': "sorted ((now # map (snd \<circ> snd) ?c) @ ?p # map snd ?d @ [tn_after turn])"
    using s by (simp add: turn_times_def)
  then have "sorted (now # map (snd \<circ> snd) ?c)" using sorted_append by blast
  then have ok1: "tracker_ok ?t1 (fst r1)" unfolding r1_def by (rule run_commands_ok [OF ok])
  have le1: "?t1 \<le> ?p" using sorted_last_le [OF s'] by simp
  have ok2: "tracker_ok ?p (fst r2)"
    using poll_ok [OF ok1 le1] by (simp add: r2_def)
  let ?z = "zip (snd (snd r2)) ?d"
  have sd: "sorted (?p # map snd ?d @ [tn_after turn])" using s' sorted_append by blast
  have sz: "sorted (?p # map (snd \<circ> snd) ?z)"
    using sd by (auto simp: map_zip_snd sorted_append dest!: in_set_takeD intro: sorted_wrt_take)
  have ok3: "tracker_ok (last (?p # map (snd \<circ> snd) ?z)) (fst (run_commands env ?z (fst r2)))"
    by (rule run_commands_ok [OF ok2 sz])
  have "\<forall>x\<in>set (?p # map (snd \<circ> snd) ?z). x \<le> tn_after turn"
    using sd by (auto simp: map_zip_snd sorted_append dest!: in_set_takeD)
  then have "last (?p # map (snd \<circ> snd) ?z) \<le> tn_after turn" using last_in_set by blast
  from tracker_ok_mono [OF ok3 this] show ?thesis
    by (simp add: run_turn_def prod.case_eq_if r1_def r2_def)
qed


definition loop_ok :: "LoopState \<Rightarrow> bool" where
  "loop_ok s \<longleftrightarrow> tracker_ok (lp_clock s) (lp_state s)"

lemma turn_result_ok:
  assumes "loop_ok s" and "turn_fits env turn (lp_state s) (lp_clock s)"
    and "run_turn env turn (lp_state s) = (st, effs)"
  shows "tracker_ok (tn_after turn) st"
  using run_turn_ok [of "lp_clock s" "lp_state s" turn env] assms
  by (simp add: loop_ok_def turn_fits_def)

lemma loop_wake_ge: "now \<le> loop_wake st now"
  by (auto simp: loop_wake_def dest: next_poll_at_now split: option.split)

lemma loop_step_ok: "loop_step env s effs s' \<Longrightarrow> loop_ok s \<Longrightarrow> loop_ok s'"
proof (induction rule: loop_step.induct)
  case (idle_command s t cmd client st effs)
  then show ?case
    using process_command_ok [OF tracker_ok_mono, of "lp_clock s" "lp_state s" t env cmd client]
    by (simp add: loop_ok_def)
next
  case (turn_slept s turn st effs day prune wake)
  have "tn_after turn \<le> wake"
    using loop_wake_ge [of "tn_after turn" st] turn_slept.hyps(6) by (rule order_trans)
  with turn_result_ok [OF turn_slept.prems turn_slept.hyps(3,4)] show ?case
    by (simp add: loop_ok_def tracker_ok_mono)
next
  case (turn_command s turn st effs day prune t cmd client st' effs')
  then show ?case
    using process_command_ok [OF tracker_ok_mono [OF turn_result_ok], of s env turn st effs t env cmd client]
    by (simp add: loop_ok_def)
next
  case (turn_closed s turn st effs day prune)
  then show ?case using turn_result_ok by (simp add: loop_ok_def)
qed (simp add: loop_ok_def)

text \<open>The tracker starts from a state file that an earlier run could have left.\<close>

definition loop_start :: "LoopState \<Rightarrow> bool" where
  "loop_start s \<longleftrightarrow> (\<exists>src. s = fst (loop_init src (lp_clock s)) \<and>
     (\<forall>st. src = Parsed st \<longrightarrow>
        distinct (map fl_identifier (flights st)) \<and> length (flights st) \<le> 12 \<and>
        (\<forall>user. owned_by user (flights st) \<le> 3) \<and>
        (\<forall>f\<in>set (flights st). persisted_ok (lp_clock s) f)))"

lemma loop_start_ok: "loop_start s \<Longrightarrow> loop_ok s"
proof -
  assume "loop_start s"
  then obtain src where f: "s = fst (loop_init src (lp_clock s))"
    and p: "\<And>st. src = Parsed st \<Longrightarrow> distinct (map fl_identifier (flights st)) \<and>
        length (flights st) \<le> 12 \<and> (\<forall>user. owned_by user (flights st) \<le> 3) \<and>
        (\<forall>f\<in>set (flights st). persisted_ok (lp_clock s) f)"
    by (auto simp: loop_start_def)
  have own: "owned_by user (map load_flight fs) = owned_by user fs" for user fs
  proof -
    have "fl_tracked_by (load_flight g) = fl_tracked_by g" for g
      using load_frames(1) [of g] by (simp add: identity_of_def)
    then show ?thesis by (simp add: owned_by_def filter_map comp_def)
  qed
  have "tracker_ok (lp_clock s) (load_tracker_state src)"
  proof (cases src)
    case (Parsed st)
    with p [OF Parsed] show ?thesis
      by (auto simp: load_tracker_state_map tracker_ok_def own comp_def load_frames load_flight_ok)
  qed (simp_all add: load_tracker_state_def tracker_ok_default)
  then show ?thesis by (subst f) (simp add: loop_ok_def loop_init_def)
qed

interpretation tracker_loop: invariant loop_start "\<lambda>s s'. \<exists>effs. loop_step env s effs s'" loop_ok for env
  by unfold_locales (auto intro: loop_start_ok loop_step_ok)

section \<open>What is on disk\<close>

fun tracker_effects :: "LoopEffect list \<Rightarrow> Effect list" where
  "tracker_effects [] = []"
| "tracker_effects (LoopEff e # es) = e # tracker_effects es"
| "tracker_effects (PruneJournals # es) = tracker_effects es"

lemma tracker_effects_append [simp]:
  "tracker_effects (a @ b) = tracker_effects a @ tracker_effects b"
  by (induction a rule: tracker_effects.induct) simp_all

lemma tracker_effects_map [simp]: "tracker_effects (map LoopEff es) = es"
  by (induction es) simp_all

lemma run_command_stored:
  "stored st se \<Longrightarrow> stored st (run_command env c se)"
  using stored_trans [OF _ process_command_stored, of st se env "fst c" "fst (snd c)" "snd (snd c)"]
  by (simp add: run_command_def prod.case_eq_if)

lemma run_commands_stored: "stored st (run_commands env cs st)"
proof -
  have "stored st se \<Longrightarrow> stored st (fold (run_command env) cs se)" for se
    by (induction cs arbitrary: se) (simp_all add: run_command_stored)
  then show ?thesis by (simp add: run_commands_def stored_def)
qed

lemma run_turn_stored: "stored st (run_turn env turn st)"
proof -
  define r1 where "r1 = run_commands env (tn_commands turn) st"
  define r2 where "r2 = poll_all_flights_with_commands env (tn_clients turn) (fst r1)
    (tn_poll_at turn) (tn_schedule turn)"
  define r3 where "r3 = run_commands env (zip (snd (snd r2)) (tn_deferred turn)) (fst r2)"
  have "stored st r1" "stored (fst r1) (fst r2, fst (snd r2))" "stored (fst r2) r3"
    by (simp_all add: r1_def r2_def r3_def run_commands_stored poll_is_stored)
  then have "stored st (fst r3, (snd r1 @ fst (snd r2)) @ snd r3)"
    using stored_trans by (metis fst_conv snd_conv)
  then show ?thesis
    by (simp add: run_turn_def prod.case_eq_if r1_def [symmetric] r2_def [symmetric] r3_def [symmetric])
qed

lemma roll_journal_effects [simp]:
  "roll_journal now day = (day', es) \<Longrightarrow> tracker_effects es = []"
  by (auto simp: roll_journal_def split: if_splits)

lemma loop_step_stored:
  "loop_step env s effs s' \<Longrightarrow> stored (lp_state s) (lp_state s', tracker_effects effs)"
proof (induction rule: loop_step.induct)
  case (idle_command s t cmd client st effs)
  then show ?case using process_command_stored [of "lp_state s" env cmd client t] by simp
next
  case (turn_slept s turn st effs day prune wake)
  then show ?case using run_turn_stored [of "lp_state s" env turn] by simp
next
  case (turn_command s turn st effs day prune t cmd client st' effs')
  have "stored (lp_state s) (st, effs)" "stored st (st', effs')"
    using run_turn_stored [of "lp_state s" env turn] process_command_stored [of st env cmd client t]
      turn_command.hyps(4,7) by simp_all
  then have "stored (lp_state s) (st', effs @ effs')" using stored_trans by fastforce
  then show ?case using turn_command.hyps(5) by simp
next
  case (turn_closed s turn st effs day prune)
  then show ?case using run_turn_stored [of "lp_state s" env turn] by simp
qed (simp add: stored_def)

section \<open>Properties\<close>

text \<open>
  Claim C1. In every state the tracker reaches, from any state file an earlier run could have left
  and for every sequence of commands, answers, timeouts and interleavings: no identifier is tracked
  twice, at most twelve flights are tracked, at most three per user, no flight is stored in the
  transient phase Landing, and no sighting lies in the future.
\<close>

theorem tracker_always_ok:
  assumes "reachable loop_start (\<lambda>s s'. \<exists>effs. loop_step env s effs s') s"
  shows "distinct (map fl_identifier (flights (lp_state s))) \<and>
    length (flights (lp_state s)) \<le> MAX_TRACKED_FLIGHTS \<and>
    (\<forall>user. length (filter (\<lambda>f. fl_tracked_by f = user) (flights (lp_state s))) \<le> MAX_FLIGHTS_PER_USER) \<and>
    (\<forall>f\<in>set (flights (lp_state s)). flight_ok (lp_clock s) f)"
  using tracker_loop.always [OF assms]
  by (simp add: loop_ok_def tracker_ok_def owned_by_def MAX_TRACKED_FLIGHTS_def MAX_FLIGHTS_PER_USER_def)


definition demo_loop :: LoopState where
  "demo_loop = fst (loop_init FileNotFound 0)"

lemma demo_loop_step:
  "loop_step demo_env demo_loop (map LoopEff (snd (process_command demo_env
       (Track (Callsign (str ''DLH1A'')) (str ''alice'') 1) (lp_state demo_loop) demo_client 5)))
     (demo_loop\<lparr>lp_state := fst (process_command demo_env
       (Track (Callsign (str ''DLH1A'')) (str ''alice'') 1) (lp_state demo_loop) demo_client 5), lp_clock := 5\<rparr>)"
  by (rule idle_command [where cmd = "Track (Callsign (str ''DLH1A'')) (str ''alice'') 1" and client = demo_client])
    (simp_all add: demo_loop_def loop_init_def load_tracker_state_def default_state_def)

lemma demo_loop_start: "loop_start demo_loop"
  by (auto simp: loop_start_def demo_loop_def loop_init_def intro!: exI [of _ FileNotFound])

theorem tracker_always_ok_witness:
  "length (flights (fst (process_command demo_env
     (Track (Callsign (str ''DLH1A'')) (str ''alice'') 1) (lp_state demo_loop) demo_client 5))) \<le> 12"
proof -
  have "reachable loop_start (\<lambda>s s'. \<exists>effs. loop_step demo_env s effs s') demo_loop"
    using demo_loop_start by (rule reach_start)
  then have "reachable loop_start (\<lambda>s s'. \<exists>effs. loop_step demo_env s effs s')
     (demo_loop\<lparr>lp_state := fst (process_command demo_env
       (Track (Callsign (str ''DLH1A'')) (str ''alice'') 1) (lp_state demo_loop) demo_client 5), lp_clock := 5\<rparr>)"
    by (rule reach_step) (use demo_loop_step in blast)
  from tracker_always_ok [OF this] show ?thesis by (simp add: MAX_TRACKED_FLIGHTS_def)
qed


end
