(* ===== verification/Chat_Basics.thy ===== *)
theory Chat_Basics imports Prelude begin

text \<open>
  What the chat commands share (\<^verbatim>\<open>commands/mod.rs\<close>): the fields of a chat message they read, the
  test for administrators, the normalisation of command names and user names; and the operations
  of the standard library on text that they use beside those of the prelude.
\<close>

section \<open>Text\<close>

text \<open>\<^verbatim>\<open>str::replace\<close> with a pattern that is not empty.\<close>

lemma split_first_shorter: "split_first s pat = Some (a, b) \<Longrightarrow> pat \<noteq> [] \<Longrightarrow> length b < length s"
  by (drule split_first_Some) auto

function replace_all :: "rstr \<Rightarrow> rstr \<Rightarrow> rstr \<Rightarrow> rstr" where
  "replace_all s pat new =
     (case split_first s pat of
        None \<Rightarrow> s
      | Some (before, after) \<Rightarrow> before @ new @ (if pat = [] then after else replace_all after pat new))"
  by pat_completeness auto
termination
  by (relation "measure (\<lambda>(s, pat, new). length s)") (auto dest!: split_first_shorter)

declare replace_all.simps [simp del]

text \<open>\<^verbatim>\<open>str::trim_start_matches\<close> with a character.\<close>

definition trim_start_matches :: "uchar \<Rightarrow> rstr \<Rightarrow> rstr" where
  "trim_start_matches c s = dropWhile (\<lambda>d. d = c) s"

section \<open>Messages, administrators, names\<close>

text \<open>The fields of a \<^verbatim>\<open>PrivmsgMessage\<close> that the commands read.\<close>

record ChatMessage =
  cm_login :: rstr
  cm_user_id :: rstr
  cm_badges :: "rstr list"

definition ADMIN_DENIED_MSG :: rstr where
  "ADMIN_DENIED_MSG = str ''Das darfst du nicht FDM''"

definition is_admin :: "ChatMessage \<Rightarrow> rstr list \<Rightarrow> bool" where
  "is_admin m hidden_admin_ids =
     (list_ex (\<lambda>b. b = str ''broadcaster'' \<or> b = str ''moderator'') (cm_badges m) \<or>
      cm_user_id m \<in> set hidden_admin_ids)"

definition normalize_command_name :: "rstr \<Rightarrow> rstr" where
  "normalize_command_name raw =
     (let n = to_ascii_lowercase (trim_start_matches 33 raw)
      in if n = str ''d'' @ [246] @ str ''ner'' then str ''doener'' else n)"

definition normalize_username :: "rstr \<Rightarrow> rstr" where
  "normalize_username raw = to_ascii_lowercase (trim_start_matches 64 raw)"

section \<open>Cooldowns\<close>

text \<open>
  \<^verbatim>\<open>cooldown.rs\<close>: the last use of a command per user on the monotonic clock. The configured
  duration is read when it is checked, so it is an argument.
\<close>

type_synonym cooldown_map = "rstr \<rightharpoonup> instant"

definition check_cooldown :: "cooldown_map \<Rightarrow> rstr \<Rightarrow> duration \<Rightarrow> instant \<Rightarrow> duration option" where
  "check_cooldown last_use user dur now =
     (case last_use user of
        None \<Rightarrow> None
      | Some t \<Rightarrow>
          let elapsed = max 0 (now - t) in
          if elapsed < dur then Some (dur - elapsed) else None)"

definition record_use :: "cooldown_map \<Rightarrow> rstr \<Rightarrow> instant \<Rightarrow> cooldown_map" where
  "record_use last_use user now = last_use(user \<mapsto> now)"

text \<open>\<^verbatim>\<open>format_cooldown_remaining\<close>.\<close>

definition format_cooldown_remaining :: "duration \<Rightarrow> rstr" where
  "format_cooldown_remaining remaining =
     (let total = nat (remaining div secs 1) in
      if total = 0 then (if remaining = 0 then str ''0s'' else str ''1s'')
      else
        let h = total div 3600; mi = total mod 3600 div 60; s = total mod 60 in
        if h > 0 then
          (if mi > 0 then dec_nat h @ str ''h '' @ dec_nat mi @ str ''m'' else dec_nat h @ str ''h'')
        else if mi > 0 then
          (if s > 0 then dec_nat mi @ str ''m '' @ dec_nat s @ str ''s'' else dec_nat mi @ str ''m'')
        else dec_nat s @ str ''s'')"

text \<open>\<^verbatim>\<open>str::parse::<u64>\<close> on a text of ASCII digits.\<close>

definition dec_value :: "rstr \<Rightarrow> nat" where
  "dec_value s = foldl (\<lambda>a c. a * 10 + (c - 48)) 0 s"

definition parse_u64 :: "rstr \<Rightarrow> nat option" where
  "parse_u64 s =
     (if s = [] \<or> \<not> list_all is_ascii_digit s then None
      else if dec_value s < 2 ^ 64 then Some (dec_value s) else None)"

section \<open>Lemmas\<close>

lemma replace_all_absent: "\<not> contains s pat \<Longrightarrow> replace_all s pat new = s"
  by (subst replace_all.simps) (auto simp: contains_def split: option.split)

lemma replace_all_set: "set (replace_all s pat new) \<subseteq> set s \<union> set new"
proof (induction s pat new rule: replace_all.induct)
  case (1 s pat new)
  show ?case
  proof (cases "split_first s pat")
    case None
    then show ?thesis by (subst replace_all.simps) simp
  next
    case (Some ab)
    then obtain a b where ab: "split_first s pat = Some (a, b)" by (cases ab) auto
    then have s: "s = a @ pat @ b" by (rule split_first_Some)
    have IH: "pat \<noteq> [] \<Longrightarrow> set (replace_all b pat new) \<subseteq> set b \<union> set new"
      using 1 ab by auto
    show ?thesis
      by (subst replace_all.simps) (use IH s ab in auto)
  qed
qed

lemma normalize_command_name_idem:
  "normalize_command_name (normalize_command_name raw) = normalize_command_name raw"
proof -
  have bang: "ascii_lower c = 33 \<longleftrightarrow> c = 33" for c
    by (auto simp: ascii_lower_def is_ascii_uppercase_def)
  have drop: "dropWhile (\<lambda>d. d = 33) (map ascii_lower (dropWhile (\<lambda>d. d = 33) s)) =
      map ascii_lower (dropWhile (\<lambda>d. d = 33) s)" for s
  proof (cases "dropWhile (\<lambda>d. d = 33) s")
    case (Cons c cs)
    then have "c \<noteq> 33" using hd_dropWhile [of "\<lambda>d. d = 33" s] by simp
    with Cons show ?thesis by (simp add: bang)
  next
    case Nil
    then show ?thesis by (simp only: list.map dropWhile.simps)
  qed
  define n where "n = to_ascii_lowercase (trim_start_matches 33 raw)"
  have n: "to_ascii_lowercase (trim_start_matches 33 n) = n"
    unfolding n_def trim_start_matches_def to_ascii_lowercase_def drop by (simp add: comp_def)
  have d: "normalize_command_name (str ''doener'') = str ''doener''"
    by (simp add: normalize_command_name_def Let_def trim_start_matches_def to_ascii_lowercase_def
        str_def ascii_lower_def is_ascii_uppercase_def)
  show ?thesis
    using n d by (simp add: normalize_command_name_def Let_def n_def)
qed

lemma dec_value_snoc: "dec_value (s @ [c]) = dec_value s * 10 + (c - 48)"
  by (simp add: dec_value_def)

lemma dec_value_dec_nat [simp]: "dec_value (dec_nat n) = n"
proof (induction n rule: dec_nat.induct)
  case (1 n)
  show ?case
  proof (cases "n < 10")
    case True
    then show ?thesis by (subst dec_nat.simps) (simp add: dec_value_def)
  next
    case False
    then show ?thesis using "1" by (subst dec_nat.simps) (simp add: dec_value_snoc)
  qed
qed

lemma dec_nat_all_digits: "list_all is_ascii_digit (dec_nat n)"
  by (auto simp: list_all_iff dest: dec_nat_digits)

lemma parse_u64_dec_nat [simp]: "parse_u64 (dec_nat n) = (if n < 2 ^ 64 then Some n else None)"
  by (simp add: parse_u64_def dec_nat_all_digits)

lemma parse_u64_Some: "parse_u64 s = Some n \<Longrightarrow> n < 2 ^ 64"
  by (auto simp: parse_u64_def split: if_splits)

end
