(* ===== verification/Ping_Manager.thy ===== *)
theory Ping_Manager imports Chat_Basics Reachability begin

text \<open>
  \<^verbatim>\<open>ping.rs\<close>: the ping groups of the chat, the manager that owns them and the actor that serves
  commands one at a time. A save is a \<open>SavePings\<close> effect that carries what is written; whether
  the disk accepts it is an argument. Both clocks are arguments: \<open>ck_mono\<close> is what
  \<^verbatim>\<open>Instant::now()\<close> reads, \<open>ck_utc\<close> is \<^verbatim>\<open>Utc::now()\<close>. The hash maps are maps and the hash sets
  sets; the order a hash set or map is walked in is the argument \<open>order\<close>.
\<close>

section \<open>Data\<close>

record Ping =
  pg_template :: rstr
  pg_members :: "rstr set"
  pg_cooldown :: "u64 option"
  pg_created_by :: rstr
  pg_last_fired_at :: "instant option"
  pg_fire_count :: u64

type_synonym PingView = "rstr \<times> Ping"
type_synonym PingStore = "rstr \<rightharpoonup> Ping"
type_synonym hash_order = "rstr set \<Rightarrow> rstr list"

datatype TriggerDecision = Skip | OnCooldown duration | Fire rstr

record clocks =
  ck_mono :: instant
  ck_utc :: instant

record PingManager =
  pm_pings :: PingStore
  pm_last_triggered :: "rstr \<rightharpoonup> instant"

datatype PingEffect =
    SavePings PingStore bool
  | PublishNames "rstr set"

type_synonym 'a ping_result = "PingManager \<times> (rstr + 'a) \<times> PingEffect list"

section \<open>The manager\<close>

definition err_control :: rstr where
  "err_control = str ''Template darf keine Steuerzeichen (z.B. Zeilenumbr'' @ [252] @ str ''che) enthalten''"

definition validate_template :: "rstr \<Rightarrow> rstr + unit" where
  "validate_template template = (if list_ex is_control template then Inl err_control else Inr ())"

definition quoted :: "rstr \<Rightarrow> rstr" where
  "quoted s = [34] @ s @ [34]"

definition err_no_ping :: "rstr \<Rightarrow> rstr" where
  "err_no_ping name = str ''Ping '' @ quoted name @ str '' gibt es nicht''"

definition load_pings :: "PingStore option \<Rightarrow> PingManager" where
  "load_pings file =
     \<lparr>pm_pings = (case file of
          None \<Rightarrow> Map.empty
        | Some store \<Rightarrow> (\<lambda>name. case store name of
            Some p \<Rightarrow> (case validate_template (pg_template p) of Inr _ \<Rightarrow> Some p | Inl _ \<Rightarrow> None)
          | None \<Rightarrow> None)),
      pm_last_triggered = Map.empty\<rparr>"

definition save_pings :: "bool \<Rightarrow> PingManager \<Rightarrow> unit ping_result" where
  "save_pings disk_ok m =
     (m, if disk_ok then Inr () else Inl (str ''Failed to save pings.ron''),
      [SavePings (pm_pings m) disk_ok])"

definition ping_name_char :: "uchar \<Rightarrow> bool" where
  "ping_name_char c = (is_ascii_alphanumeric c \<or> c = 45 \<or> c = 95)"

definition create_ping ::
  "bool \<Rightarrow> rstr \<Rightarrow> rstr \<Rightarrow> rstr \<Rightarrow> u64 option \<Rightarrow> PingManager \<Rightarrow> unit ping_result" where
  "create_ping disk_ok name template created_by cooldown m =
     (let name = to_ascii_lowercase name in
      if name = [] then (m, Inl (str ''Ping-Name darf nicht leer sein''), [])
      else if \<not> list_all ping_name_char name
      then (m, Inl (str ''Ping-Name darf nur Buchstaben, Zahlen, - und _ enthalten''), [])
      else case validate_template template of
        Inl e \<Rightarrow> (m, Inl e, [])
      | Inr _ \<Rightarrow>
          if pm_pings m name \<noteq> None
          then (m, Inl (str ''Ping '' @ quoted name @ str '' gibt es schon''), [])
          else save_pings disk_ok (m\<lparr>pm_pings := (pm_pings m)(name \<mapsto>
                 \<lparr>pg_template = template, pg_members = {}, pg_cooldown = cooldown,
                  pg_created_by = created_by, pg_last_fired_at = None, pg_fire_count = 0\<rparr>)\<rparr>))"

definition delete_ping :: "bool \<Rightarrow> rstr \<Rightarrow> PingManager \<Rightarrow> unit ping_result" where
  "delete_ping disk_ok name m =
     (if pm_pings m name = None then (m, Inl (err_no_ping name), [])
      else save_pings disk_ok (m\<lparr>pm_pings := (pm_pings m)(name := None),
             pm_last_triggered := (pm_last_triggered m)(name := None)\<rparr>))"

definition edit_template :: "bool \<Rightarrow> rstr \<Rightarrow> rstr \<Rightarrow> PingManager \<Rightarrow> unit ping_result" where
  "edit_template disk_ok name template m =
     (case validate_template template of
        Inl e \<Rightarrow> (m, Inl e, [])
      | Inr _ \<Rightarrow>
          (case pm_pings m name of
             None \<Rightarrow> (m, Inl (err_no_ping name), [])
           | Some p \<Rightarrow> save_pings disk_ok
               (m\<lparr>pm_pings := (pm_pings m)(name \<mapsto> p\<lparr>pg_template := template\<rparr>)\<rparr>)))"

definition add_member :: "bool \<Rightarrow> rstr \<Rightarrow> rstr \<Rightarrow> PingManager \<Rightarrow> unit ping_result" where
  "add_member disk_ok ping_name username m =
     (case pm_pings m ping_name of
        None \<Rightarrow> (m, Inl (err_no_ping ping_name), [])
      | Some p \<Rightarrow>
          let username_lower = to_lowercase username in
          if username_lower \<in> pg_members p
          then (m, Inl (username @ str '' ist schon in '' @ quoted ping_name), [])
          else save_pings disk_ok (m\<lparr>pm_pings := (pm_pings m)(ping_name \<mapsto>
                 p\<lparr>pg_members := insert username_lower (pg_members p)\<rparr>)\<rparr>))"

definition remove_member :: "bool \<Rightarrow> rstr \<Rightarrow> rstr \<Rightarrow> PingManager \<Rightarrow> unit ping_result" where
  "remove_member disk_ok ping_name username m =
     (case pm_pings m ping_name of
        None \<Rightarrow> (m, Inl (err_no_ping ping_name), [])
      | Some p \<Rightarrow>
          let username_lower = to_lowercase username in
          if username_lower \<notin> pg_members p
          then (m, Inl (username @ str '' ist nicht in '' @ quoted ping_name), [])
          else save_pings disk_ok (m\<lparr>pm_pings := (pm_pings m)(ping_name \<mapsto>
                 p\<lparr>pg_members := pg_members p - {username_lower}\<rparr>)\<rparr>))"

definition is_member :: "PingManager \<Rightarrow> rstr \<Rightarrow> rstr \<Rightarrow> bool" where
  "is_member m ping_name username =
     (case pm_pings m ping_name of Some p \<Rightarrow> username \<in> pg_members p | None \<Rightarrow> False)"

definition list_pings_for_user :: "hash_order \<Rightarrow> PingManager \<Rightarrow> rstr \<Rightarrow> rstr list" where
  "list_pings_for_user order m username =
     filter (\<lambda>name. is_member m name username) (order (dom (pm_pings m)))"

definition remaining_cooldown :: "PingManager \<Rightarrow> rstr \<Rightarrow> duration \<Rightarrow> instant \<Rightarrow> duration option" where
  "remaining_cooldown m ping_name default_cooldown now =
     (case pm_pings m ping_name of
        None \<Rightarrow> None
      | Some p \<Rightarrow>
          let cooldown = (case pg_cooldown p of None \<Rightarrow> default_cooldown | Some s \<Rightarrow> secs (uint s)) in
          (case pm_last_triggered m ping_name of
             Some fired \<Rightarrow>
               let elapsed = max 0 (now - fired) in
               if elapsed < cooldown then Some (cooldown - elapsed) else None
           | None \<Rightarrow> None))"

definition record_trigger :: "bool \<Rightarrow> rstr \<Rightarrow> clocks \<Rightarrow> PingManager \<Rightarrow> unit ping_result" where
  "record_trigger disk_ok ping_name ck m =
     (case pm_pings m ping_name of
        None \<Rightarrow> (m, Inr (), [])
      | Some p \<Rightarrow> save_pings disk_ok
          (m\<lparr>pm_last_triggered := (pm_last_triggered m)(ping_name \<mapsto> ck_mono ck),
             pm_pings := (pm_pings m)(ping_name \<mapsto>
               p\<lparr>pg_last_fired_at := Some (ck_utc ck),
                 pg_fire_count := saturating_inc (pg_fire_count p)\<rparr>)\<rparr>))"

definition mentions_var :: rstr where "mentions_var = str ''{mentions}''"
definition sender_var :: rstr where "sender_var = str ''{sender}''"

definition mentioned :: "hash_order \<Rightarrow> Ping \<Rightarrow> rstr \<Rightarrow> rstr list" where
  "mentioned order p sender =
     filter (\<lambda>m. \<not> contains (pg_template p) sender_var \<or> m \<noteq> sender) (order (pg_members p))"

definition render_template :: "hash_order \<Rightarrow> PingManager \<Rightarrow> rstr \<Rightarrow> rstr \<Rightarrow> rstr option" where
  "render_template order m ping_name sender =
     (case pm_pings m ping_name of
        None \<Rightarrow> None
      | Some p \<Rightarrow>
          let mentions = join [32] (map (\<lambda>u. [64] @ u) (mentioned order p sender)) in
          if mentions = [] then None
          else Some (replace_all (replace_all (pg_template p) mentions_var mentions)
                 sender_var ([64] @ sender)))"

definition try_record_trigger ::
  "hash_order \<Rightarrow> bool \<Rightarrow> rstr \<Rightarrow> rstr \<Rightarrow> duration \<Rightarrow> bool \<Rightarrow> clocks \<Rightarrow> PingManager \<Rightarrow>
   PingManager \<times> TriggerDecision \<times> PingEffect list" where
  "try_record_trigger order disk_ok ping_name sender default_cooldown public ck m =
     (if \<not> public \<and> \<not> is_member m ping_name sender then (m, Skip, [])
      else case remaining_cooldown m ping_name default_cooldown (ck_mono ck) of
        Some remaining \<Rightarrow> (m, OnCooldown remaining, [])
      | None \<Rightarrow>
          (case render_template order m ping_name sender of
             None \<Rightarrow> (m, Skip, [])
           | Some rendered \<Rightarrow>
               let (m, _, effs) = record_trigger disk_ok ping_name ck m
               in (m, Fire rendered, effs)))"

section \<open>The actor\<close>

datatype PingCommand =
    CreatePing rstr rstr rstr "u64 option"
  | DeletePing rstr
  | EditTemplate rstr rstr
  | AddMember rstr rstr
  | RemoveMember rstr rstr
  | TryRecordTrigger rstr rstr duration bool
  | SnapshotPings
  | GetOne rstr
  | ListForUser rstr
  | IsMember rstr rstr

datatype PingReply =
    Done "rstr + unit"
  | Decision TriggerDecision
  | Views "PingView list"
  | View "PingView option"
  | Names "rstr list"
  | Membership bool

definition publish_names :: "PingManager \<Rightarrow> PingEffect" where
  "publish_names m = PublishNames (dom (pm_pings m))"

fun run_ping_command ::
  "hash_order \<Rightarrow> bool \<Rightarrow> clocks \<Rightarrow> PingCommand \<Rightarrow> PingManager \<Rightarrow> PingManager \<times> PingReply \<times> PingEffect list" where
  "run_ping_command order ok ck (CreatePing name template by cooldown) m =
     (let (m, r, effs) = create_ping ok name template by cooldown m
      in (m, Done r, effs @ [publish_names m]))"
| "run_ping_command order ok ck (DeletePing name) m =
     (let (m, r, effs) = delete_ping ok name m in (m, Done r, effs @ [publish_names m]))"
| "run_ping_command order ok ck (EditTemplate name template) m =
     (let (m, r, effs) = edit_template ok name template m in (m, Done r, effs))"
| "run_ping_command order ok ck (AddMember ping_name username) m =
     (let (m, r, effs) = add_member ok ping_name username m in (m, Done r, effs))"
| "run_ping_command order ok ck (RemoveMember ping_name username) m =
     (let (m, r, effs) = remove_member ok ping_name username m in (m, Done r, effs))"
| "run_ping_command order ok ck (TryRecordTrigger ping_name sender cd public) m =
     (let (m, d, effs) = try_record_trigger order ok ping_name sender cd public ck m
      in (m, Decision d, effs))"
| "run_ping_command order ok ck SnapshotPings m =
     (m, Views (map (\<lambda>n. (n, the (pm_pings m n))) (order (dom (pm_pings m)))), [])"
| "run_ping_command order ok ck (GetOne name) m =
     (m, View (map_option (\<lambda>p. (name, p)) (pm_pings m name)), [])"
| "run_ping_command order ok ck (ListForUser username) m =
     (m, Names (list_pings_for_user order m username), [])"
| "run_ping_command order ok ck (IsMember ping_name username) m =
     (m, Membership (is_member m ping_name username), [])"

text \<open>The world around the actor: the watched set of names, the file, the monotonic clock.\<close>

record PingWorld =
  pw_manager :: PingManager
  pw_names :: "rstr set"
  pw_disk :: PingStore
  pw_clock :: instant

fun ping_effect :: "PingEffect \<Rightarrow> PingWorld \<Rightarrow> PingWorld" where
  "ping_effect (SavePings store ok) w = (if ok then w\<lparr>pw_disk := store\<rparr> else w)"
| "ping_effect (PublishNames names) w = w\<lparr>pw_names := names\<rparr>"

definition ping_start :: "PingStore option \<Rightarrow> instant \<Rightarrow> PingWorld" where
  "ping_start file now =
     (let m = load_pings file in
      ping_effect (publish_names m)
        \<lparr>pw_manager = m, pw_names = {}, pw_disk = (case file of Some s \<Rightarrow> s | None \<Rightarrow> Map.empty),
         pw_clock = now\<rparr>)"

definition ping_turn ::
  "hash_order \<Rightarrow> bool \<Rightarrow> clocks \<Rightarrow> PingCommand \<Rightarrow> PingWorld \<Rightarrow> PingWorld \<times> PingReply" where
  "ping_turn order ok ck cmd w =
     (let (m, reply, effs) = run_ping_command order ok ck cmd (pw_manager w)
      in (fold ping_effect effs (w\<lparr>pw_manager := m, pw_clock := ck_mono ck\<rparr>), reply))"

section \<open>Lemmas\<close>

lemma validate_template_iff [simp]: "validate_template t = Inr u \<longleftrightarrow> \<not> list_ex is_control t"
  by (simp add: validate_template_def)

lemma save_pings_simps [simp]:
  "fst (save_pings ok m) = m" "snd (snd (save_pings ok m)) = [SavePings (pm_pings m) ok]"
  by (simp_all add: save_pings_def)

lemma is_member_iff: "is_member m n u \<longleftrightarrow> (\<exists>p. pm_pings m n = Some p \<and> u \<in> pg_members p)"
  by (simp add: is_member_def split: option.split)

text \<open>The invariant of a ping and of the manager.\<close>

definition ping_ok :: "rstr \<Rightarrow> Ping \<Rightarrow> bool" where
  "ping_ok name p \<longleftrightarrow>
     name \<noteq> [] \<and> list_all ping_name_char name \<and> to_ascii_lowercase name = name \<and>
     \<not> list_ex is_control (pg_template p) \<and> finite (pg_members p) \<and>
     (\<forall>u\<in>pg_members p. to_lowercase u = u)"

definition manager_ok :: "instant \<Rightarrow> PingManager \<Rightarrow> bool" where
  "manager_ok now m \<longleftrightarrow>
     finite (dom (pm_pings m)) \<and> (\<forall>n p. pm_pings m n = Some p \<longrightarrow> ping_ok n p) \<and>
     dom (pm_last_triggered m) \<subseteq> dom (pm_pings m) \<and> (\<forall>n t. pm_last_triggered m n = Some t \<longrightarrow> t \<le> now)"

lemma manager_ok_later: "manager_ok now m \<Longrightarrow> now \<le> later \<Longrightarrow> manager_ok later m"
  by (meson manager_ok_def order_trans)

lemma manager_ok_ping: "manager_ok now m \<Longrightarrow> pm_pings m n = Some p \<Longrightarrow> ping_ok n p"
  by (simp add: manager_ok_def)

text \<open>Storing a well-formed ping, removing a ping.\<close>

lemma manager_ok_put:
  "manager_ok now m \<Longrightarrow> ping_ok n p \<Longrightarrow> manager_ok now (m\<lparr>pm_pings := (pm_pings m)(n \<mapsto> p)\<rparr>)"
  by (auto simp: manager_ok_def)

lemma manager_ok_fire:
  "manager_ok now m \<Longrightarrow> ping_ok n p \<Longrightarrow>
   manager_ok now (m\<lparr>pm_last_triggered := (pm_last_triggered m)(n \<mapsto> now),
     pm_pings := (pm_pings m)(n \<mapsto> p)\<rparr>)"
  by (auto simp: manager_ok_def)

lemma manager_ok_drop:
  "manager_ok now m \<Longrightarrow> manager_ok now (m\<lparr>pm_pings := (pm_pings m)(n := None),
     pm_last_triggered := (pm_last_triggered m)(n := None)\<rparr>)"
  by (auto simp: manager_ok_def)

lemma create_ping_ok: "manager_ok now m \<Longrightarrow> manager_ok now (fst (create_ping ok n t b c m))"
  by (auto simp: create_ping_def Let_def ping_ok_def validate_template_def intro!: manager_ok_put)

lemma delete_ping_ok: "manager_ok now m \<Longrightarrow> manager_ok now (fst (delete_ping ok n m))"
  by (simp add: delete_ping_def manager_ok_drop)

lemma edit_template_ok: "manager_ok now m \<Longrightarrow> manager_ok now (fst (edit_template ok n t m))"
  by (auto simp: edit_template_def validate_template_def ping_ok_def split: option.split
      intro!: manager_ok_put dest: manager_ok_ping)

lemma to_lowercase_fixed [simp]: "to_lowercase (to_lowercase u) = to_lowercase u"
  by simp

lemma add_member_ok: "manager_ok now m \<Longrightarrow> manager_ok now (fst (add_member ok n u m))"
  by (auto simp: add_member_def Let_def ping_ok_def split: option.split
      intro!: manager_ok_put dest: manager_ok_ping)

lemma remove_member_ok: "manager_ok now m \<Longrightarrow> manager_ok now (fst (remove_member ok n u m))"
  by (auto simp: remove_member_def Let_def ping_ok_def split: option.split
      intro!: manager_ok_put dest: manager_ok_ping)

lemma record_trigger_ok:
  "manager_ok (ck_mono ck) m \<Longrightarrow> manager_ok (ck_mono ck) (fst (record_trigger ok n ck m))"
  by (auto simp: record_trigger_def ping_ok_def split: option.split
      intro!: manager_ok_fire dest: manager_ok_ping)

lemma try_record_trigger_state:
  "fst (try_record_trigger order ok n s cd pub ck m) \<in> {m, fst (record_trigger ok n ck m)}"
  by (simp add: try_record_trigger_def case_prod_unfold Let_def split: option.split)

lemma try_record_trigger_ok:
  "manager_ok (ck_mono ck) m \<Longrightarrow> manager_ok (ck_mono ck) (fst (try_record_trigger order ok n s cd pub ck m))"
  using try_record_trigger_state [of order ok n s cd pub ck m] record_trigger_ok [of ck m ok n]
  by (metis empty_iff insert_iff)

lemmas ping_ops_ok = create_ping_ok delete_ping_ok edit_template_ok add_member_ok remove_member_ok
  try_record_trigger_ok

lemma run_ping_command_ok:
  "manager_ok (ck_mono ck) m \<Longrightarrow> manager_ok (ck_mono ck) (fst (run_ping_command order ok ck cmd m))"
  by (cases cmd) (simp_all add: case_prod_unfold Let_def ping_ops_ok)

text \<open>
  What an operation writes: nothing when it leaves the pings alone, and exactly its result
  otherwise.
\<close>

definition saved_or_unchanged :: "bool \<Rightarrow> PingManager \<Rightarrow> PingManager \<Rightarrow> PingEffect list \<Rightarrow> bool" where
  "saved_or_unchanged ok m m' effs \<longleftrightarrow>
     (m' = m \<and> effs = []) \<or> effs = [SavePings (pm_pings m') ok]"

lemma saved_or_unchanged_intros [simp]:
  "saved_or_unchanged ok m m []" "saved_or_unchanged ok m m' [SavePings (pm_pings m') ok]"
  by (simp_all add: saved_or_unchanged_def)

lemma create_ping_saved:
  "saved_or_unchanged ok m (fst (create_ping ok n t b c m)) (snd (snd (create_ping ok n t b c m)))"
  by (simp add: create_ping_def Let_def saved_or_unchanged_def split: sum.split)

lemma delete_ping_saved:
  "saved_or_unchanged ok m (fst (delete_ping ok n m)) (snd (snd (delete_ping ok n m)))"
  by (simp add: delete_ping_def saved_or_unchanged_def)

lemma edit_template_saved:
  "saved_or_unchanged ok m (fst (edit_template ok n t m)) (snd (snd (edit_template ok n t m)))"
  by (simp add: edit_template_def saved_or_unchanged_def split: sum.split option.split)

lemma add_member_saved:
  "saved_or_unchanged ok m (fst (add_member ok n u m)) (snd (snd (add_member ok n u m)))"
  by (simp add: add_member_def Let_def saved_or_unchanged_def split: option.split)

lemma remove_member_saved:
  "saved_or_unchanged ok m (fst (remove_member ok n u m)) (snd (snd (remove_member ok n u m)))"
  by (simp add: remove_member_def Let_def saved_or_unchanged_def split: option.split)

lemma record_trigger_saved:
  "saved_or_unchanged ok m (fst (record_trigger ok n ck m)) (snd (snd (record_trigger ok n ck m)))"
  by (simp add: record_trigger_def saved_or_unchanged_def split: option.split)

lemma try_record_trigger_saved:
  "saved_or_unchanged ok m (fst (try_record_trigger order ok n s cd pub ck m))
     (snd (snd (try_record_trigger order ok n s cd pub ck m)))"
  using record_trigger_saved [of ok m n ck]
  by (simp add: try_record_trigger_def case_prod_unfold Let_def split: option.split)

lemmas ping_ops_saved = create_ping_saved delete_ping_saved edit_template_saved add_member_saved
  remove_member_saved try_record_trigger_saved

section \<open>Runs of the actor\<close>

lemma ping_effect_frame [simp]:
  "pw_manager (ping_effect e w) = pw_manager w" "pw_clock (ping_effect e w) = pw_clock w"
  "pw_names (ping_effect (SavePings store ok) w) = pw_names w"
  by (cases e; simp)+

lemma fold_effects_manager [simp]:
  "pw_manager (fold ping_effect effs w) = pw_manager w"
  "pw_clock (fold ping_effect effs w) = pw_clock w"
  by (induction effs arbitrary: w) simp_all

text \<open>The names are published by the two commands that change them, and changed by no other.\<close>

lemma save_names [simp]: "pw_names (fold ping_effect effs w) = pw_names w"
  if "saved_or_unchanged ok m m' effs" for w
  using that unfolding saved_or_unchanged_def by (auto simp del: ping_effect.simps)

lemma dom_same:
  "dom (pm_pings (fst (edit_template ok n t m))) = dom (pm_pings m)"
  "dom (pm_pings (fst (add_member ok n u m))) = dom (pm_pings m)"
  "dom (pm_pings (fst (remove_member ok n u m))) = dom (pm_pings m)"
  "dom (pm_pings (fst (record_trigger ok n ck m))) = dom (pm_pings m)"
  by (auto simp: edit_template_def add_member_def remove_member_def record_trigger_def Let_def
      validate_template_def split: option.split)

lemma dom_same_trigger:
  "dom (pm_pings (fst (try_record_trigger order ok n s cd pub ck m))) = dom (pm_pings m)"
  using try_record_trigger_state [of order ok n s cd pub ck m] dom_same(4) [of ok n ck m]
  by (metis empty_iff insert_iff)

definition ping_world_ok :: "PingWorld \<Rightarrow> bool" where
  "ping_world_ok w \<longleftrightarrow>
     manager_ok (pw_clock w) (pw_manager w) \<and> pw_names w = dom (pm_pings (pw_manager w))"

lemma ping_turn_manager:
  "pw_manager (fst (ping_turn order ok ck cmd w)) = fst (run_ping_command order ok ck cmd (pw_manager w))"
  "pw_clock (fst (ping_turn order ok ck cmd w)) = ck_mono ck"
  by (simp_all add: ping_turn_def case_prod_unfold Let_def)

lemma ping_turn_names:
  assumes "pw_names w = dom (pm_pings (pw_manager w))"
  shows "pw_names (fst (ping_turn order ok ck cmd w)) =
     dom (pm_pings (fst (run_ping_command order ok ck cmd (pw_manager w))))"
proof -
  define w' where "w' = w\<lparr>pw_manager := fst (run_ping_command order ok ck cmd (pw_manager w)),
     pw_clock := ck_mono ck\<rparr>"
  have n: "pw_names (fst (ping_turn order ok ck cmd w)) =
      pw_names (fold ping_effect (snd (snd (run_ping_command order ok ck cmd (pw_manager w)))) w')"
    by (simp add: ping_turn_def case_prod_unfold Let_def w'_def)
  have w': "pw_names w' = dom (pm_pings (pw_manager w))" using assms by (simp add: w'_def)
  show ?thesis
    unfolding n using w'
    by (cases cmd)
      (simp_all add: case_prod_unfold Let_def publish_names_def dom_same dom_same_trigger
        save_names [OF edit_template_saved] save_names [OF add_member_saved]
        save_names [OF remove_member_saved] save_names [OF try_record_trigger_saved])
qed

lemma ping_turn_world_ok:
  assumes "ping_world_ok w" and "pw_clock w \<le> ck_mono ck"
  shows "ping_world_ok (fst (ping_turn order ok ck cmd w))"
  using assms run_ping_command_ok [OF manager_ok_later, of "pw_clock w" "pw_manager w" ck order ok cmd]
  by (simp add: ping_world_ok_def ping_turn_manager ping_turn_names)

lemma load_pings_ok:
  assumes "case file of None \<Rightarrow> True | Some s \<Rightarrow> manager_ok now \<lparr>pm_pings = s, pm_last_triggered = Map.empty\<rparr>"
  shows "manager_ok now (load_pings file)"
proof (cases "file")
  case (Some s)
  have "(\<lambda>name. case s name of
            Some p \<Rightarrow> (case validate_template (pg_template p) of Inr _ \<Rightarrow> Some p | Inl _ \<Rightarrow> None)
          | None \<Rightarrow> None) = s"
  proof
    fix name
    show "(case s name of
            Some p \<Rightarrow> (case validate_template (pg_template p) of Inr _ \<Rightarrow> Some p | Inl _ \<Rightarrow> None)
          | None \<Rightarrow> None) = s name"
      using assms Some
      by (auto simp: manager_ok_def ping_ok_def validate_template_def split: option.split sum.split)
  qed
  with assms Some show ?thesis by (simp add: load_pings_def)
qed (simp add: load_pings_def manager_ok_def)

text \<open>One command, at a time the monotonic clock shows next, with any order of the hash sets.\<close>

inductive ping_step :: "PingWorld \<Rightarrow> PingWorld \<Rightarrow> bool" where
  "pw_clock w \<le> ck_mono ck \<Longrightarrow> ping_turn order ok ck cmd w = (w', reply) \<Longrightarrow> ping_step w w'"

inductive_cases ping_stepE: "ping_step w w'"

text \<open>The actor starts on no file, or on a file that an earlier run left.\<close>

definition ping_init :: "PingWorld \<Rightarrow> bool" where
  "ping_init w \<longleftrightarrow> (\<exists>file now. w = ping_start file now \<and>
     (case file of None \<Rightarrow> True
      | Some s \<Rightarrow> manager_ok now \<lparr>pm_pings = s, pm_last_triggered = Map.empty\<rparr>))"

interpretation ping_actor: invariant ping_init ping_step ping_world_ok
proof
  show "ping_world_ok w" if "ping_init w" for w
    using that load_pings_ok
    by (auto simp: ping_init_def ping_start_def ping_world_ok_def publish_names_def Let_def)
  show "ping_world_ok w'" if "ping_world_ok w" "ping_step w w'" for w w'
    using that(2) ping_turn_world_ok [OF that(1)]
    by (auto elim!: ping_stepE) (metis fst_conv)
qed

section \<open>Cooldowns\<close>

type_synonym ping_call = "hash_order \<times> bool \<times> clocks \<times> PingCommand"

fun run_ping_commands :: "ping_call list \<Rightarrow> PingManager \<Rightarrow> PingManager" where
  "run_ping_commands [] m = m"
| "run_ping_commands ((order, ok, ck, cmd) # cs) m =
     run_ping_commands cs (fst (run_ping_command order ok ck cmd m))"

text \<open>
  What the cooldown of a ping rests on: its configured cooldown and the instant of its last firing.
\<close>

definition fired_since :: "PingManager \<Rightarrow> rstr \<Rightarrow> u64 option \<Rightarrow> instant \<Rightarrow> bool" where
  "fired_since m name cd t \<longleftrightarrow>
     (\<exists>p f. pm_pings m name = Some p \<and> pg_cooldown p = cd \<and> pm_last_triggered m name = Some f \<and> t \<le> f)"

lemma fired_since_put:
  "fired_since m name cd t \<Longrightarrow> (n = name \<Longrightarrow> pg_cooldown p = cd) \<Longrightarrow>
   fired_since (m\<lparr>pm_pings := (pm_pings m)(n \<mapsto> p)\<rparr>) name cd t"
  by (auto simp: fired_since_def)

lemma fired_since_fire:
  "fired_since m name cd t \<Longrightarrow> (n = name \<Longrightarrow> pg_cooldown p = cd) \<Longrightarrow> t \<le> now \<Longrightarrow>
   fired_since (m\<lparr>pm_last_triggered := (pm_last_triggered m)(n \<mapsto> now),
     pm_pings := (pm_pings m)(n \<mapsto> p)\<rparr>) name cd t"
  by (auto simp: fired_since_def)

lemma fired_since_cd: "fired_since m name cd t \<Longrightarrow> pm_pings m name = Some p \<Longrightarrow> pg_cooldown p = cd"
  by (auto simp: fired_since_def)

lemma fired_since_command:
  assumes "fired_since m name cd t" and "t \<le> ck_mono ck" and "cmd \<noteq> DeletePing name"
  shows "fired_since (fst (run_ping_command order ok ck cmd m)) name cd t"
proof -
  have exists: "pm_pings m name \<noteq> None" using assms(1) by (auto simp: fired_since_def)
  have rec: "fired_since (fst (record_trigger ok n ck m)) name cd t" for n
    using assms(1,2)
    by (auto simp: record_trigger_def split: option.split intro!: fired_since_fire dest: fired_since_cd)
  show ?thesis
  proof (cases cmd)
    case (CreatePing n tm b c)
    then show ?thesis using assms(1) exists
      by (auto simp: create_ping_def Let_def case_prod_unfold split: sum.split intro!: fired_since_put)
  next
    case (DeletePing n)
    then show ?thesis using assms(1,3)
      by (auto simp: delete_ping_def case_prod_unfold Let_def fired_since_def)
  next
    case (EditTemplate n tm)
    then show ?thesis using assms(1)
      by (auto simp: edit_template_def case_prod_unfold Let_def split: sum.split option.split
          intro!: fired_since_put dest: fired_since_cd)
  next
    case (AddMember n u)
    then show ?thesis using assms(1)
      by (auto simp: add_member_def case_prod_unfold Let_def split: option.split
          intro!: fired_since_put dest: fired_since_cd)
  next
    case (RemoveMember n u)
    then show ?thesis using assms(1)
      by (auto simp: remove_member_def case_prod_unfold Let_def split: option.split
          intro!: fired_since_put dest: fired_since_cd)
  next
    case (TryRecordTrigger n s d pub)
    then show ?thesis
      using assms(1) rec [of n] try_record_trigger_state [of order ok n s d pub ck m]
      by (auto simp: case_prod_unfold Let_def)
  qed (simp_all add: assms(1))
qed

lemma fired_since_run:
  "fired_since m name cd t \<Longrightarrow>
   \<forall>(order, ok, ck, cmd)\<in>set cs. t \<le> ck_mono ck \<and> cmd \<noteq> DeletePing name \<Longrightarrow>
   fired_since (run_ping_commands cs m) name cd t"
  by (induction cs m rule: run_ping_commands.induct) (auto intro: fired_since_command)

lemma fired_since_remaining:
  assumes "fired_since m name cd t" and "t \<le> now"
    and "now - t < (case cd of None \<Rightarrow> dflt | Some s \<Rightarrow> secs (uint s))"
  shows "remaining_cooldown m name dflt now \<noteq> None"
  using assms by (auto simp: fired_since_def remaining_cooldown_def Let_def max_def split: option.splits)

lemma fire_fired_since:
  assumes "try_record_trigger order ok n s d pub ck m = (m', Fire r, effs)"
    and "pm_pings m n = Some p"
  shows "fired_since m' n (pg_cooldown p) (ck_mono ck)"
  using assms
  by (auto simp: try_record_trigger_def record_trigger_def save_pings_def fired_since_def
      case_prod_unfold Let_def split: if_splits option.splits)

section \<open>Mentions\<close>

text \<open>A piece of text that cannot overlap the pattern survives the replacement.\<close>

lemma append_eq_cases:
  assumes "xs @ ys = zs @ ts"
  obtains us where "xs = zs @ us" "us @ ys = ts" | us where "xs @ us = zs" "ys = us @ ts"
  using assms by (auto simp: append_eq_append_conv2)

lemma disjoint_occurrences:
  assumes "a @ w @ b = p @ pat @ q" and "w \<noteq> []" and "pat \<noteq> []"
    and "hd w \<notin> set pat" and "hd pat \<notin> set w"
  shows "sublist w p \<or> sublist w q"
proof -
  consider us where "a @ w = p @ us" "us @ b = pat @ q" | us where "(a @ w) @ us = p" "b = us @ pat @ q"
    using append_eq_cases [of "a @ w" b p "pat @ q"] assms(1) by auto
  then show ?thesis
  proof cases
    case 2
    then show ?thesis by (auto simp: sublist_def)
  next
    case 1
    from 1(2) consider vs where "us = pat @ vs" "vs @ b = q" | vs where "us @ vs = pat" "b = vs @ q"
      by (rule append_eq_cases)
    then show ?thesis
    proof cases
      case (1 vs)
      with \<open>a @ w = p @ us\<close> have e: "a @ w = p @ pat @ vs" by simp
      then consider ws where "a = p @ ws" "ws @ w = pat @ vs" | ws where "a @ ws = p" "w = ws @ pat @ vs"
        by (rule append_eq_cases)
      then show ?thesis
      proof cases
        case (2 ws)
        then have "hd pat \<in> set w" using assms(3) by (cases pat) auto
        with assms(5) show ?thesis by simp
      next
        case (1 ws)
        from 1(2) consider xs where "ws = pat @ xs" "xs @ w = vs" | xs where "ws @ xs = pat" "w = xs @ vs"
          by (rule append_eq_cases)
        then show ?thesis
        proof cases
          case (1 xs)
          with \<open>vs @ b = q\<close> have "q = xs @ w @ b" by auto
          then show ?thesis unfolding sublist_def by blast
        next
          case (2 xs)
          show ?thesis
          proof (cases xs)
            case Nil
            with 2 \<open>vs @ b = q\<close> have "q = [] @ w @ b" by simp
            then show ?thesis unfolding sublist_def by blast
          next
            case (Cons x xs')
            with 2 have "hd w \<in> set pat" by auto
            with assms(4) show ?thesis by simp
          qed
        qed
      qed
    next
      case (2 vs)
      from \<open>a @ w = p @ us\<close> consider ws where "a = p @ ws" "ws @ w = us" | ws where "a @ ws = p" "w = ws @ us"
        by (rule append_eq_cases)
      then show ?thesis
      proof cases
        case (1 ws)
        then have "hd w \<in> set pat" using 2 assms(2) by (cases w) auto
        with assms(4) show ?thesis by simp
      next
        case (2 ws)
        show ?thesis
        proof (cases us)
          case Nil
          with 2 have "p = a @ w @ []" by simp
          then show ?thesis unfolding sublist_def by blast
        next
          case (Cons u us')
          with \<open>us @ vs = pat\<close> 2 have "hd pat \<in> set w" by auto
          with assms(5) show ?thesis by simp
        qed
      qed
    qed
  qed
qed

lemma replace_all_keeps:
  assumes "sublist w s" and "w \<noteq> []" and "pat \<noteq> []" and "hd w \<notin> set pat" and "hd pat \<notin> set w"
  shows "sublist w (replace_all s pat new)"
  using assms
proof (induction s pat new rule: replace_all.induct)
  case (1 s pat new)
  show ?case
  proof (cases "split_first s pat")
    case None
    with "1.prems" show ?thesis by (subst replace_all.simps) simp
  next
    case (Some pq)
    then obtain p q where pq: "split_first s pat = Some (p, q)" by (cases pq) auto
    then have "s = p @ pat @ q" by (rule split_first_Some)
    with "1.prems" obtain a b where "a @ w @ b = p @ pat @ q" by (auto simp: sublist_def)
    then consider "sublist w p" | "sublist w q"
      using disjoint_occurrences "1.prems" by blast
    then have "sublist w p \<or> sublist w (replace_all q pat new)"
      using "1.IH" [OF pq refl] "1.prems" by (auto intro: disjI2)
    then have "sublist w (p @ new @ replace_all q pat new)"
      by (auto simp: sublist_append)
    with pq "1.prems"(3) show ?thesis by (subst replace_all.simps) simp
  qed
qed

lemma replace_all_inserts: "contains s pat \<Longrightarrow> sublist new (replace_all s pat new)"
  by (subst replace_all.simps) (auto simp: contains_def sublist_def split: option.split)

lemma join_member: "x \<in> set xs \<Longrightarrow> sublist x (join sep xs)"
proof (induction sep xs rule: join.induct)
  case (3 sep x' y ys)
  then show ?case by (auto simp: sublist_append)
qed auto

lemma join_Nil_iff: "(\<forall>x\<in>set xs. x \<noteq> []) \<Longrightarrow> join sep xs = [] \<longleftrightarrow> xs = []"
  by (cases "(sep, xs)" rule: join.cases) auto

lemma render_template_Some:
  "render_template order m n sender = Some r \<longleftrightarrow>
     (\<exists>p. pm_pings m n = Some p \<and> mentioned order p sender \<noteq> [] \<and>
        r = replace_all (replace_all (pg_template p) mentions_var
              (join [32] (map (\<lambda>u. [64] @ u) (mentioned order p sender)))) sender_var ([64] @ sender))"
  by (auto simp: render_template_def Let_def join_Nil_iff split: option.split)

lemma rendered_mentions:
  assumes "u \<in> set (mentioned order p sender)" and "contains (pg_template p) mentions_var" and "123 \<notin> set u"
  shows "contains (replace_all (replace_all (pg_template p) mentions_var
      (join [32] (map (\<lambda>u. [64] @ u) (mentioned order p sender)))) sender_var ([64] @ sender)) ([64] @ u)"
proof -
  let ?M = "join [32] (map (\<lambda>u. [64] @ u) (mentioned order p sender))"
  have "sublist ([64] @ u) ?M" by (rule join_member) (use assms(1) in auto)
  also have "sublist ?M (replace_all (pg_template p) mentions_var ?M)"
    by (rule replace_all_inserts [OF assms(2)])
  finally have "sublist ([64] @ u) (replace_all (replace_all (pg_template p) mentions_var ?M)
      sender_var ([64] @ sender))"
    by (rule replace_all_keeps) (use assms(3) in \<open>auto simp: sender_var_def str_def\<close>)
  then show ?thesis by (simp add: contains_iff_sublist)
qed

section \<open>Properties\<close>

lemma try_record_trigger_Fire:
  "try_record_trigger order ok n s d pub ck m = (m', Fire r, effs) \<longleftrightarrow>
     (pub \<or> is_member m n s) \<and> remaining_cooldown m n d (ck_mono ck) = None \<and>
     render_template order m n s = Some r \<and>
     m' = fst (record_trigger ok n ck m) \<and> effs = snd (snd (record_trigger ok n ck m))"
  by (auto simp: try_record_trigger_def case_prod_unfold Let_def split: option.split)

lemma ping_turn_disk:
  assumes "pw_disk w = pm_pings (pw_manager w)"
  shows "pw_disk (fst (ping_turn order True ck cmd w)) = pm_pings (pw_manager (fst (ping_turn order True ck cmd w)))"
proof -
  have saved: "pw_disk (fold ping_effect effs (w\<lparr>pw_manager := m', pw_clock := t\<rparr>)) = pm_pings m'"
    if "saved_or_unchanged True (pw_manager w) m' effs" for m' effs t
    using that assms by (auto simp: saved_or_unchanged_def)
  have pub: "pw_disk (ping_effect (PublishNames ns) w') = pw_disk w'" for ns w'
    by simp
  show ?thesis
    by (cases cmd)
      (simp_all add: ping_turn_def case_prod_unfold Let_def assms publish_names_def
        saved [OF create_ping_saved] saved [OF delete_ping_saved] saved [OF edit_template_saved]
        saved [OF add_member_saved] saved [OF remove_member_saved] saved [OF try_record_trigger_saved])
qed

lemma ping_error_unchanged:
  "run_ping_command order True ck cmd m = (m', Done (Inl e), effs) \<Longrightarrow> m' = m"
  by (cases cmd)
    (auto simp: case_prod_unfold Let_def create_ping_def delete_ping_def edit_template_def add_member_def
      remove_member_def save_pings_def split: if_splits sum.splits option.splits)

text \<open>
  Claim C16. In every state of the ping actor, whatever commands it served and whether the disk took
  each write or not: the set of names the dispatcher watches is the set of the pings that exist,
  every name is non-empty and made of lower-case letters, digits, hyphens and underscores, no
  template carries a control character (so no ping can inject a line into the chat), and only
  existing pings have a running cooldown.
\<close>

theorem pings_always_ok:
  assumes "reachable ping_init ping_step w"
  shows "pw_names w = dom (pm_pings (pw_manager w)) \<and> finite (pw_names w) \<and>
    dom (pm_last_triggered (pw_manager w)) \<subseteq> pw_names w \<and>
    (\<forall>name p. pm_pings (pw_manager w) name = Some p \<longrightarrow>
       name \<noteq> [] \<and> list_all ping_name_char name \<and> to_ascii_lowercase name = name \<and>
       \<not> list_ex is_control (pg_template p))"
  using ping_actor.always [OF assms]
  by (auto simp: ping_world_ok_def manager_ok_def ping_ok_def)

text \<open>
  Claim C17. A ping that fired at an instant does not fire again before its cooldown (its own, or the
  configured default) has passed, whatever the actor served in between except the deletion of this
  ping, whoever asks, and in public mode or not.
\<close>

theorem ping_cooldown_respected:
  assumes "try_record_trigger order ok n s d pub ck m = (m1, Fire r, effs)"
    and "pm_pings m n = Some p"
    and "\<forall>(order, ok, ck', cmd)\<in>set cs. ck_mono ck \<le> ck_mono ck' \<and> cmd \<noteq> DeletePing n"
    and "ck_mono ck \<le> ck_mono ck2"
    and "ck_mono ck2 - ck_mono ck < (case pg_cooldown p of None \<Rightarrow> d2 | Some c \<Rightarrow> secs (uint c))"
  shows "fst (snd (try_record_trigger order2 ok2 n s2 d2 pub2 ck2 (run_ping_commands cs m1))) \<noteq> Fire r2"
proof -
  have "fired_since (run_ping_commands cs m1) n (pg_cooldown p) (ck_mono ck)"
    using fired_since_run [OF fire_fired_since [OF assms(1,2)] assms(3)] .
  then have "remaining_cooldown (run_ping_commands cs m1) n d2 (ck_mono ck2) \<noteq> None"
    by (rule fired_since_remaining [OF _ assms(4,5)])
  then show ?thesis by (auto simp: try_record_trigger_def)
qed

text \<open>
  Claim C18. When a ping fires, it exists, the sender is one of its members unless pings are public,
  the message mentions every other member (and the sender too, unless the template names the
  sender), its counter goes up by one without wrapping, its last firing is now, nothing else
  changes, and exactly this state is written.
\<close>

theorem ping_fire_effect:
  assumes "try_record_trigger order ok n s d pub ck m = (m', Fire r, effs)"
    and "\<forall>p. pm_pings m n = Some p \<longrightarrow> set (order (pg_members p)) = pg_members p"
  shows "\<exists>p p'. pm_pings m n = Some p \<and> (pub \<or> s \<in> pg_members p) \<and>
     (contains (pg_template p) mentions_var \<longrightarrow>
       (\<forall>u\<in>pg_members p. 123 \<notin> set u \<and> (u \<noteq> s \<or> \<not> contains (pg_template p) sender_var) \<longrightarrow>
          contains r ([64] @ u))) \<and>
     pm_pings m' = (pm_pings m)(n \<mapsto> p') \<and>
     p' = p\<lparr>pg_last_fired_at := Some (ck_utc ck), pg_fire_count := pg_fire_count p'\<rparr> \<and>
     unat (pg_fire_count p') = min (unat (pg_fire_count p) + 1) (2 ^ 64 - 1) \<and>
     pm_last_triggered m' = (pm_last_triggered m)(n \<mapsto> ck_mono ck) \<and>
     effs = [SavePings (pm_pings m') ok]"
proof -
  from assms(1) obtain p where p: "pm_pings m n = Some p"
    and r: "r = replace_all (replace_all (pg_template p) mentions_var
        (join [32] (map (\<lambda>u. [64] @ u) (mentioned order p s)))) sender_var ([64] @ s)"
    by (auto simp: try_record_trigger_Fire render_template_Some)
  have "u \<in> set (mentioned order p s)"
    if "u \<in> pg_members p" "u \<noteq> s \<or> \<not> contains (pg_template p) sender_var" for u
    using that assms(2) p by (auto simp: mentioned_def)
  then have mention: "contains r ([64] @ u)"
    if "contains (pg_template p) mentions_var" "u \<in> pg_members p" "123 \<notin> set u"
      "u \<noteq> s \<or> \<not> contains (pg_template p) sender_var" for u
    using that rendered_mentions [of u order p s] unfolding r by blast
  let ?p' = "p\<lparr>pg_last_fired_at := Some (ck_utc ck), pg_fire_count := saturating_inc (pg_fire_count p)\<rparr>"
  have m': "m' = m\<lparr>pm_last_triggered := (pm_last_triggered m)(n \<mapsto> ck_mono ck),
        pm_pings := (pm_pings m)(n \<mapsto> ?p')\<rparr>" "effs = [SavePings (pm_pings m') ok]"
    using assms(1) p by (auto simp: try_record_trigger_Fire record_trigger_def)
  have mem: "pub \<or> s \<in> pg_members p"
    using assms(1) p by (auto simp: try_record_trigger_Fire is_member_def)
  have count: "unat (pg_fire_count ?p') = min (unat (pg_fire_count p) + 1) (2 ^ 64 - 1)"
    by (simp add: unat_saturating_inc)
  show ?thesis
    by (rule exI [of _ p], rule exI [of _ ?p']) (use p mem mention m' count in auto)
qed

text \<open>
  Claim C19. While the disk takes the writes, the file holds exactly the pings in memory after every
  command, and a command that is answered with an error has changed nothing.
\<close>

theorem ping_turn_durable:
  assumes "pw_disk w = pm_pings (pw_manager w)"
  shows "pw_disk (fst (ping_turn order True ck cmd w)) = pm_pings (pw_manager (fst (ping_turn order True ck cmd w))) \<and>
    ((\<exists>e. snd (ping_turn order True ck cmd w) = Done (Inl e)) \<longrightarrow>
       pw_manager (fst (ping_turn order True ck cmd w)) = pw_manager w)"
proof -
  have "pw_manager (fst (ping_turn order True ck cmd w)) = pw_manager w"
    if "snd (ping_turn order True ck cmd w) = Done (Inl e)" for e
    using that ping_error_unchanged [of order ck cmd "pw_manager w"]
    by (cases "run_ping_command order True ck cmd (pw_manager w)")
      (auto simp: ping_turn_def Let_def)
  then show ?thesis using ping_turn_disk [OF assms] by blast
qed

section \<open>Witnesses\<close>

definition demo_ping :: Ping where
  "demo_ping = \<lparr>pg_template = str ''hi {mentions}'', pg_members = {str ''bob''}, pg_cooldown = Some 30,
     pg_created_by = str ''bob'', pg_last_fired_at = None, pg_fire_count = 0\<rparr>"

definition demo_manager :: PingManager where
  "demo_manager = \<lparr>pm_pings = [str ''go'' \<mapsto> demo_ping], pm_last_triggered = Map.empty\<rparr>"

definition demo_order :: hash_order where
  "demo_order S = [str ''bob'']"

lemma demo_fire:
  "try_record_trigger demo_order True (str ''go'') (str ''bob'') 0 False \<lparr>ck_mono = 5, ck_utc = 7\<rparr> demo_manager =
     (fst (record_trigger True (str ''go'') \<lparr>ck_mono = 5, ck_utc = 7\<rparr> demo_manager), Fire (str ''hi @bob''),
      snd (snd (record_trigger True (str ''go'') \<lparr>ck_mono = 5, ck_utc = 7\<rparr> demo_manager)))"
  by (simp add: try_record_trigger_Fire is_member_def remaining_cooldown_def render_template_def mentioned_def
      demo_manager_def demo_ping_def demo_order_def mentions_var_def sender_var_def contains_def
      str_def split_first.simps replace_all.simps Let_def)

theorem pings_always_ok_witness: "pw_names (ping_start None 0) = {}"
proof -
  have "ping_init (ping_start None 0)" unfolding ping_init_def by (rule exI [of _ None]) auto
  then have "reachable ping_init ping_step (ping_start None 0)" by (rule reach_start)
  from pings_always_ok [OF this] show ?thesis
    by (simp add: ping_start_def load_pings_def publish_names_def Let_def)
qed

theorem ping_cooldown_respected_witness:
  "fst (snd (try_record_trigger demo_order True (str ''go'') (str ''bob'') 0 True \<lparr>ck_mono = 6, ck_utc = 8\<rparr>
     (run_ping_commands [(demo_order, True, \<lparr>ck_mono = 5, ck_utc = 7\<rparr>, AddMember (str ''go'') (str ''eve''))]
        (fst (record_trigger True (str ''go'') \<lparr>ck_mono = 5, ck_utc = 7\<rparr> demo_manager))))) \<noteq> Fire (str ''hi @bob'')"
  by (rule ping_cooldown_respected [OF demo_fire, of demo_ping])
    (auto simp: demo_manager_def demo_ping_def secs_def)

theorem ping_fire_effect_witness:
  "\<exists>p. pm_pings demo_manager (str ''go'') = Some p \<and> str ''bob'' \<in> pg_members p"
  using ping_fire_effect [OF demo_fire] by (auto simp: demo_manager_def demo_ping_def demo_order_def)

theorem ping_turn_durable_witness:
  "pw_disk (fst (ping_turn demo_order True \<lparr>ck_mono = 5, ck_utc = 7\<rparr> (DeletePing (str ''go''))
     \<lparr>pw_manager = demo_manager, pw_names = {str ''go''}, pw_disk = pm_pings demo_manager, pw_clock = 0\<rparr>)) = Map.empty"
  using ping_turn_durable [of "\<lparr>pw_manager = demo_manager, pw_names = {str ''go''},
      pw_disk = pm_pings demo_manager, pw_clock = 0\<rparr>" demo_order "\<lparr>ck_mono = 5, ck_utc = 7\<rparr>" "DeletePing (str ''go'')"]
  by (simp add: ping_turn_manager delete_ping_def demo_manager_def case_prod_unfold Let_def)

end
