(* ===== verification/Ping_Commands.thy ===== *)
theory Ping_Commands imports Ping_Manager begin

text \<open>
  The chat commands of the pings: \<^verbatim>\<open>!p\<close> (\<^verbatim>\<open>commands/ping_admin.rs\<close>) and the trigger \<^verbatim>\<open>!<ping>\<close>
  (\<^verbatim>\<open>commands/ping_trigger.rs\<close>), with the handle through which they reach the actor
  (\<^verbatim>\<open>PingHandle\<close> of \<^verbatim>\<open>ping.rs\<close>). A command returns the manager after the actor served it, what the
  actor did, and what was said in the chat.
\<close>

datatype ChatOut = ReplyTo rstr | SayIn rstr

text \<open>
  The circumstances of one call: whether the actor still runs, whether the disk takes the write,
  the clocks and the order of the hash sets.
\<close>

record ping_env =
  pe_alive :: bool
  pe_disk_ok :: bool
  pe_clocks :: clocks
  pe_order :: hash_order

definition actor_gone_err :: rstr where
  "actor_gone_err = str ''Ping-System ist gerade nicht verf'' @ [252] @ str ''gbar''"

definition ping_send :: "ping_env \<Rightarrow> PingCommand \<Rightarrow> PingManager \<Rightarrow> PingManager \<times> PingReply option \<times> PingEffect list" where
  "ping_send e cmd m =
     (if pe_alive e then
        (let (m, r, effs) = run_ping_command (pe_order e) (pe_disk_ok e) (pe_clocks e) cmd m
         in (m, Some r, effs))
      else (m, None, []))"

fun unit_reply :: "PingReply option \<Rightarrow> rstr + unit" where
  "unit_reply (Some (Done r)) = r"
| "unit_reply _ = Inl actor_gone_err"

fun trigger_reply :: "PingReply option \<Rightarrow> TriggerDecision" where
  "trigger_reply (Some (Decision d)) = d"
| "trigger_reply _ = Skip"

fun names_reply :: "PingReply option \<Rightarrow> rstr list" where
  "names_reply (Some (Names ns)) = ns"
| "names_reply _ = []"

type_synonym ping_outcome = "PingManager \<times> PingEffect list \<times> ChatOut list"

section \<open>The administration command\<close>

definition normalize_ping_name :: "rstr \<Rightarrow> rstr" where
  "normalize_ping_name name = to_lowercase name"

text \<open>Sends a command and answers with \<open>good\<close>, or with the error and \<^verbatim>\<open>FDM\<close>.\<close>

definition run_and_report :: "ping_env \<Rightarrow> PingCommand \<Rightarrow> rstr \<Rightarrow> PingManager \<Rightarrow> ping_outcome" where
  "run_and_report e cmd good m =
     (let (m, r, effs) = ping_send e cmd m in
      (m, effs, [ReplyTo (case unit_reply r of Inr _ \<Rightarrow> good | Inl err \<Rightarrow> err @ str '' FDM'')]))"

definition handle_create :: "ping_env \<Rightarrow> ChatMessage \<Rightarrow> rstr list \<Rightarrow> PingManager \<Rightarrow> ping_outcome" where
  "handle_create e msg args m =
     (if length args < 3 then (m, [], [ReplyTo (str ''Nutze: !p create <name> <template>'')])
      else
        let name = normalize_ping_name (args ! 1); template = join [32] (drop 2 args)
        in run_and_report e (CreatePing name template (cm_login msg) None)
             (str ''Ping '' @ quoted name @ str '' erstellt Okayge'') m)"

definition handle_delete :: "ping_env \<Rightarrow> rstr list \<Rightarrow> PingManager \<Rightarrow> ping_outcome" where
  "handle_delete e args m =
     (if length args < 2 then (m, [], [ReplyTo (str ''Nutze: !p delete <name>'')])
      else
        let name = normalize_ping_name (args ! 1)
        in run_and_report e (DeletePing name)
             (str ''Ping '' @ quoted name @ str '' gel'' @ [246] @ str ''scht Okayge'') m)"

definition handle_edit :: "ping_env \<Rightarrow> rstr list \<Rightarrow> PingManager \<Rightarrow> ping_outcome" where
  "handle_edit e args m =
     (if length args < 3 then (m, [], [ReplyTo (str ''Nutze: !p edit <name> <template>'')])
      else
        let name = normalize_ping_name (args ! 1); template = join [32] (drop 2 args)
        in run_and_report e (EditTemplate name template)
             (str ''Ping '' @ quoted name @ str '' updated SeemsGood'') m)"

definition handle_member_op :: "ping_env \<Rightarrow> bool \<Rightarrow> rstr list \<Rightarrow> PingManager \<Rightarrow> ping_outcome" where
  "handle_member_op e adding args m =
     (if length args < 3
      then (m, [], [ReplyTo (str ''Nutze: !p '' @ (if adding then str ''add'' else str ''remove'') @
                     str '' <name> <user>'')])
      else
        let name = normalize_ping_name (args ! 1); user = normalize_username (args ! 2)
        in run_and_report e (if adding then AddMember name user else RemoveMember name user)
             (if adding
              then user @ str '' zu '' @ quoted name @ str '' hinzugef'' @ [252] @ str ''gt Okayge''
              else user @ str '' aus '' @ quoted name @ str '' entfernt Okayge'') m)"

definition handle_self_op :: "ping_env \<Rightarrow> bool \<Rightarrow> ChatMessage \<Rightarrow> rstr list \<Rightarrow> PingManager \<Rightarrow> ping_outcome" where
  "handle_self_op e joining msg args m =
     (if length args < 2
      then (m, [], [ReplyTo (str ''Nutze: !p '' @ (if joining then str ''join'' else str ''leave'') @
                     str '' <name>'')])
      else
        let name = normalize_ping_name (args ! 1);
            (m, r, effs) = ping_send e
              (if joining then AddMember name (cm_login msg) else RemoveMember name (cm_login msg)) m
        in (m, effs, [ReplyTo (case unit_reply r of
              Inr _ \<Rightarrow> str ''Hab ich gemacht Okayge''
            | Inl err \<Rightarrow>
                if contains err (str ''gibt es nicht'') then err @ str '' FDM''
                else if joining then str ''Bist du schon FDM''
                else str ''Bist du nicht drin FDM'')]))"

definition handle_list :: "ping_env \<Rightarrow> ChatMessage \<Rightarrow> PingManager \<Rightarrow> ping_outcome" where
  "handle_list e msg m =
     (let (m, r, effs) = ping_send e (ListForUser (cm_login msg)) m; pings = names_reply r
      in (m, effs, [ReplyTo (if pings = [] then str ''Keine Pings'' else join [32] pings)]))"

definition ping_usage :: rstr where
  "ping_usage = str ''Nutze: join, leave, list (oder create, delete, edit, add, remove als Mod)''"

definition ping_admin_execute ::
  "ping_env \<Rightarrow> rstr list \<Rightarrow> ChatMessage \<Rightarrow> rstr list \<Rightarrow> PingManager \<Rightarrow> ping_outcome" where
  "ping_admin_execute e hidden_admins msg args m =
     (let sub = (case args of [] \<Rightarrow> [] | a # _ \<Rightarrow> a) in
      if sub \<in> {str ''create'', str ''delete'', str ''edit'', str ''add'', str ''remove''} then
        (if \<not> is_admin msg hidden_admins then (m, [], [ReplyTo ADMIN_DENIED_MSG])
         else if sub = str ''create'' then handle_create e msg args m
         else if sub = str ''delete'' then handle_delete e args m
         else if sub = str ''edit'' then handle_edit e args m
         else handle_member_op e (sub = str ''add'') args m)
      else if sub = str ''join'' then handle_self_op e True msg args m
      else if sub = str ''leave'' then handle_self_op e False msg args m
      else if sub = str ''list'' then handle_list e msg m
      else (m, [], [ReplyTo ping_usage]))"

section \<open>The trigger\<close>

definition parse_ping_trigger :: "rstr \<Rightarrow> rstr option" where
  "parse_ping_trigger word =
     (case strip_prefix word [33] of
        None \<Rightarrow> None
      | Some name \<Rightarrow> if name = [] then None else Some (to_lowercase name))"

definition ping_trigger_matches :: "rstr set \<Rightarrow> rstr \<Rightarrow> bool" where
  "ping_trigger_matches names word =
     (case strip_prefix word [33] of
        None \<Rightarrow> False
      | Some name \<Rightarrow> name \<noteq> [] \<and> (\<exists>k\<in>names. eq_ignore_ascii_case k name))"

definition ping_trigger_execute ::
  "ping_env \<Rightarrow> duration \<Rightarrow> bool \<Rightarrow> ChatMessage \<Rightarrow> rstr \<Rightarrow> PingManager \<Rightarrow> ping_outcome" where
  "ping_trigger_execute e cooldown public msg trigger m =
     (case parse_ping_trigger trigger of
        None \<Rightarrow> (m, [], [])
      | Some ping_name \<Rightarrow>
          let (m, r, effs) = ping_send e (TryRecordTrigger ping_name (cm_login msg) cooldown public) m
          in (m, effs, case trigger_reply r of
                Skip \<Rightarrow> []
              | OnCooldown remaining \<Rightarrow>
                  [ReplyTo (str ''Bitte warte noch '' @ format_cooldown_remaining remaining @ str '' Waiting'')]
              | Fire rendered \<Rightarrow> [SayIn rendered]))"

section \<open>Lemmas\<close>

lemma run_and_report_one: "length (snd (snd (run_and_report e cmd good m))) = 1"
  by (simp add: run_and_report_def case_prod_unfold Let_def)

lemma handlers_one_reply:
  "length (snd (snd (handle_create e msg args m))) = 1"
  "length (snd (snd (handle_delete e args m))) = 1"
  "length (snd (snd (handle_edit e args m))) = 1"
  "length (snd (snd (handle_member_op e adding args m))) = 1"
  "length (snd (snd (handle_self_op e joining msg args m))) = 1"
  "length (snd (snd (handle_list e msg m))) = 1"
  by (simp_all only: handle_create_def handle_delete_def handle_edit_def handle_member_op_def
      handle_self_op_def handle_list_def Let_def case_prod_unfold snd_conv if_distrib [of snd]
      if_distrib [of length] run_and_report_one list.size One_nat_def add_0 plus_1_eq_Suc if_cancel add.commute)

lemma ping_admin_one_reply: "length (snd (snd (ping_admin_execute e adm msg args m))) = 1"
  by (simp only: ping_admin_execute_def Let_def if_distrib [of snd] if_distrib [of length]
      handlers_one_reply snd_conv list.size One_nat_def add_0 plus_1_eq_Suc if_cancel)

text \<open>
  What a user may do to the pings without being an administrator: change whether they are a member
  themselves.
\<close>

definition only_membership :: "rstr \<Rightarrow> PingStore \<Rightarrow> PingStore \<Rightarrow> bool" where
  "only_membership login s s' \<longleftrightarrow>
     (\<forall>name. case (s name, s' name) of
        (None, None) \<Rightarrow> True
      | (Some p, Some p') \<Rightarrow> p' = p\<lparr>pg_members := pg_members p'\<rparr> \<and>
          pg_members p' - {to_lowercase login} = pg_members p - {to_lowercase login}
      | _ \<Rightarrow> False)"

lemma only_membership_refl [simp]: "only_membership login s s"
  by (simp add: only_membership_def split: option.split)

lemma only_membership_add:
  "only_membership login (pm_pings m) (pm_pings (fst (add_member ok n login m)))"
  by (auto simp: add_member_def Let_def only_membership_def split: option.split)

lemma only_membership_remove:
  "only_membership login (pm_pings m) (pm_pings (fst (remove_member ok n login m)))"
  by (auto simp: remove_member_def Let_def only_membership_def split: option.split)

lemma self_op_membership:
  "only_membership (cm_login msg) (pm_pings m) (pm_pings (fst (handle_self_op e joining msg args m)))"
  by (simp add: handle_self_op_def ping_send_def case_prod_unfold Let_def only_membership_add
      only_membership_remove)

lemma handle_list_state [simp]: "fst (handle_list e msg m) = m"
  by (simp add: handle_list_def ping_send_def case_prod_unfold Let_def)

lemma to_lowercase_ascii: "list_all (\<lambda>c. c < 128) s \<Longrightarrow> to_lowercase s = to_ascii_lowercase s"
  by (induction s) (auto simp: to_lowercase_def to_ascii_lowercase_def lower_cp_def ascii_lower_def)

lemma ping_name_char_ascii: "ping_name_char c \<Longrightarrow> c < 128"
  by (auto simp: ping_name_char_def char_class_defs)

lemma ascii_lower_reflects: "ascii_lower c < 128 \<Longrightarrow> c < 128"
  by (auto simp: ascii_lower_def is_ascii_uppercase_def split: if_splits)

text \<open>The dispatcher compares names without case, the actor by their lower case: they agree.\<close>

lemma trigger_agrees:
  assumes "list_all ping_name_char k" and "to_ascii_lowercase k = k" and "eq_ignore_ascii_case k name"
  shows "to_lowercase name = k"
proof -
  have e: "to_ascii_lowercase name = k"
    using assms(2,3) by (simp add: eq_ignore_ascii_case_def)
  have "list_all (\<lambda>c. c < 128) name"
    unfolding list_all_iff
  proof
    fix c assume "c \<in> set name"
    then have "ascii_lower c \<in> set k" using e by (auto simp: to_ascii_lowercase_def)
    with assms(1) show "c < 128" by (auto simp: list_all_iff intro: ascii_lower_reflects dest: ping_name_char_ascii)
  qed
  with e show ?thesis by (simp add: to_lowercase_ascii)
qed

section \<open>Properties\<close>

text \<open>
  Claim C20. Every \<^verbatim>\<open>!p\<close> is answered exactly once; and a user who is not an administrator can create,
  delete and change nothing with it, except whether they themselves belong to a ping.
\<close>

theorem ping_admin_authorised:
  "length (snd (snd (ping_admin_execute e adm msg args m))) = 1 \<and>
   (is_admin msg adm \<or>
    only_membership (cm_login msg) (pm_pings m) (pm_pings (fst (ping_admin_execute e adm msg args m))))"
  using ping_admin_one_reply self_op_membership [of msg m e]
  by (simp add: ping_admin_execute_def Let_def)

text \<open>
  A word that the dispatcher hands to the ping trigger names a ping that exists: under
  every name the actor published, the lower-cased name of the word is one of the pings, so the
  trigger never runs into a ping that is not there.
\<close>

theorem ping_trigger_resolves:
  assumes "reachable ping_init ping_step w" and "ping_trigger_matches (pw_names w) word"
  shows "\<exists>name p. parse_ping_trigger word = Some name \<and> pm_pings (pw_manager w) name = Some p"
proof -
  from assms(2) obtain name k where n: "strip_prefix word [33] = Some name" "name \<noteq> []"
    and k: "k \<in> pw_names w" "eq_ignore_ascii_case k name"
    by (auto simp: ping_trigger_matches_def split: option.splits)
  have ok: "ping_world_ok w" by (rule ping_actor.always [OF assms(1)])
  then obtain p where p: "pm_pings (pw_manager w) k = Some p" "ping_ok k p"
    using k(1) by (auto simp: ping_world_ok_def manager_ok_def)
  then have "to_lowercase name = k"
    using trigger_agrees [OF _ _ k(2)] by (simp add: ping_ok_def)
  with n p show ?thesis by (simp add: parse_ping_trigger_def)
qed

theorem ping_trigger_resolves_witness:
  "\<exists>w :: PingWorld. ping_trigger_matches (pw_names w) (str ''!GO'') \<and>
     (\<exists>name p. parse_ping_trigger (str ''!GO'') = Some name \<and> pm_pings (pw_manager w) name = Some p)"
proof -
  define w0 where "w0 = ping_start None 0"
  define w where "w = fst (ping_turn demo_order True \<lparr>ck_mono = 5, ck_utc = 7\<rparr>
     (CreatePing (str ''go'') (str ''hi {mentions}'') (str ''bob'') None) w0)"
  have r0: "reachable ping_init ping_step w0"
    by (rule reach_start) (auto simp: ping_init_def w0_def intro!: exI [of _ None])
  have r: "reachable ping_init ping_step w"
    by (rule reach_step [OF r0])
      (auto simp: w_def w0_def ping_start_def publish_names_def Let_def
        intro!: ping_step.intros [where ck = "\<lparr>ck_mono = 5, ck_utc = 7\<rparr>"] prod.collapse [symmetric])
  have go: "pm_pings (pw_manager w) (str ''go'') \<noteq> None"
    by (simp add: w_def ping_turn_manager w0_def ping_start_def load_pings_def publish_names_def
        create_ping_def to_ascii_lowercase_def ascii_lower_def ping_name_char_def char_class_defs
        validate_template_def str_def case_prod_unfold Let_def)
  have "pw_names w = dom (pm_pings (pw_manager w))"
    using ping_actor.always [OF r] by (simp add: ping_world_ok_def)
  with go have m: "ping_trigger_matches (pw_names w) (str ''!GO'')"
    by (auto simp: ping_trigger_matches_def strip_prefix_def str_def eq_ignore_ascii_case_def
        to_ascii_lowercase_def ascii_lower_def is_ascii_uppercase_def intro!: bexI [of _ "str ''go''"])
  show ?thesis by (rule exI [of _ w], rule conjI [OF m ping_trigger_resolves [OF r m]])
qed

text \<open>
  A user who joins while the actor is gone is told that they are a member already.
\<close>

lemma join_misreported:
  "snd (snd (handle_self_op \<lparr>pe_alive = False, pe_disk_ok = ok, pe_clocks = ck, pe_order = order\<rparr> True msg
     [str ''join'', n] m)) = [ReplyTo (str ''Bist du schon FDM'')]"
  by (simp add: handle_self_op_def ping_send_def actor_gone_err_def contains_def str_def
      split_first.simps Let_def)

end
