(* ===== verification/Suspension.thy ===== *)
theory Suspension imports Chat_Basics Reachability begin

text \<open>
  The suspension of commands: the manager and the durations of \<^verbatim>\<open>suspend.rs\<close>, the commands
  \<^verbatim>\<open>!suspend\<close> and \<^verbatim>\<open>!unsuspend\<close> of \<^verbatim>\<open>commands/suspend.rs\<close>, and the dispatch of a chat message to a
  command in \<^verbatim>\<open>twitch/handlers/commands.rs\<close>, which asks the manager. Instants are of the monotonic
  clock.
\<close>

section \<open>The manager\<close>

type_synonym Suspensions = "rstr \<rightharpoonup> instant"

definition MAX_SUSPEND_DURATION :: duration where
  "MAX_SUSPEND_DURATION = secs (7 * 24 * 60 * 60)"

definition suspend :: "rstr \<Rightarrow> duration \<Rightarrow> instant \<Rightarrow> Suspensions \<Rightarrow> Suspensions" where
  "suspend key dur now m = m(to_ascii_lowercase key \<mapsto> now + dur)"

definition unsuspend :: "rstr \<Rightarrow> instant \<Rightarrow> Suspensions \<Rightarrow> Suspensions \<times> bool" where
  "unsuspend key now m =
     (let key = to_ascii_lowercase key in
      (m(key := None), case m key of Some expiry \<Rightarrow> expiry > now | None \<Rightarrow> False))"

definition is_suspended :: "Suspensions \<Rightarrow> rstr \<Rightarrow> instant \<Rightarrow> duration option" where
  "is_suspended m key now =
     (case m (to_ascii_lowercase key) of
        None \<Rightarrow> None
      | Some expiry \<Rightarrow> if now \<le> expiry then Some (expiry - now) else None)"

section \<open>Durations\<close>

datatype ParseDurationError = DurationEmpty | InvalidNumber | UnknownUnit | ZeroDuration | TooLong

text \<open>
  \<^verbatim>\<open>parse_duration\<close>. The last byte of the text is an ASCII byte exactly when its last character
  is an ASCII character.
\<close>

definition split_unit :: "rstr \<Rightarrow> (rstr \<times> nat) option" where
  "split_unit s =
     (let c = last s in
      if is_ascii_digit c then Some (s, 1)
      else if c = 115 then Some (butlast s, 1)
      else if c = 109 then Some (butlast s, 60)
      else if c = 104 then Some (butlast s, 3600)
      else if c = 100 then Some (butlast s, 86400)
      else None)"

definition parse_duration :: "rstr \<Rightarrow> ParseDurationError + duration" where
  "parse_duration inp =
     (let s = trim inp in
      if s = [] then Inl DurationEmpty
      else case split_unit s of
        None \<Rightarrow> Inl UnknownUnit
      | Some (num_part, multiplier) \<Rightarrow>
          if num_part = [] \<or> \<not> list_all is_ascii_digit num_part then Inl InvalidNumber
          else case parse_u64 num_part of
            None \<Rightarrow> Inl InvalidNumber
          | Some n \<Rightarrow>
              if n * multiplier \<ge> 2 ^ 64 then Inl InvalidNumber
              else if n * multiplier = 0 then Inl ZeroDuration
              else if secs (int (n * multiplier)) > MAX_SUSPEND_DURATION then Inl TooLong
              else Inr (secs (int (n * multiplier))))"

section \<open>The commands\<close>

definition EXEMPT_COMMANDS :: "rstr list" where
  "EXEMPT_COMMANDS = [str ''suspend'', str ''unsuspend'', str ''p'']"

fun duration_error_message :: "ParseDurationError \<Rightarrow> rstr" where
  "duration_error_message DurationEmpty = str ''Dauer fehlt. Nutze z.B. 30s, 10m, 2h, 1d FDM''"
| "duration_error_message InvalidNumber =
     str ''Ung'' @ [252] @ str ''ltige Zahl. Nutze z.B. 30s, 10m, 2h, 1d FDM''"
| "duration_error_message UnknownUnit = str ''Unbekannte Einheit. Erlaubt: s, m, h, d FDM''"
| "duration_error_message ZeroDuration =
     str ''Dauer muss gr'' @ [246, 223] @ str ''er als 0 sein FDM''"
| "duration_error_message TooLong = str ''Dauer zu lang (max 7 Tage) FDM''"

text \<open>A command returns the manager and its one reply.\<close>

definition suspend_execute ::
  "rstr list \<Rightarrow> nat \<Rightarrow> ChatMessage \<Rightarrow> rstr list \<Rightarrow> instant \<Rightarrow> Suspensions \<Rightarrow> Suspensions \<times> rstr" where
  "suspend_execute hidden_admins default_duration_secs msg args now m =
     (if \<not> is_admin msg hidden_admins then (m, ADMIN_DENIED_MSG)
      else case args of
        [] \<Rightarrow> (m, str ''Nutze: !suspend <command> [dauer]'')
      | raw_cmd # rest \<Rightarrow>
          let cmd = normalize_command_name raw_cmd in
          if cmd \<in> set EXEMPT_COMMANDS then (m, str ''Das kann nicht gesperrt werden FDM'')
          else
            (case (case rest of
                    [] \<Rightarrow> Inr (secs (int default_duration_secs))
                  | s # _ \<Rightarrow> parse_duration s) of
               Inl err \<Rightarrow> (m, duration_error_message err)
             | Inr dur \<Rightarrow>
                 (suspend cmd dur now m,
                  str ''!'' @ cmd @ str '' gesperrt f'' @ [252] @ str ''r '' @ format_cooldown_remaining dur)))"

definition unsuspend_execute ::
  "rstr list \<Rightarrow> ChatMessage \<Rightarrow> rstr list \<Rightarrow> instant \<Rightarrow> Suspensions \<Rightarrow> Suspensions \<times> rstr" where
  "unsuspend_execute hidden_admins msg args now m =
     (if \<not> is_admin msg hidden_admins then (m, ADMIN_DENIED_MSG)
      else case args of
        [] \<Rightarrow> (m, str ''Nutze: !unsuspend <command>'')
      | raw_cmd # _ \<Rightarrow>
          let cmd = normalize_command_name raw_cmd; (m, was) = unsuspend cmd now m
          in (m, if was then str ''!'' @ cmd @ str '' entsperrt Okayge''
                 else str ''!'' @ cmd @ str '' war nicht gesperrt FDM''))"

section \<open>The dispatcher\<close>

definition GROK_ALIAS_TRIGGER :: rstr where "GROK_ALIAS_TRIGGER = str ''@grok''"

definition is_ai_trigger :: "rstr \<Rightarrow> bool" where
  "is_ai_trigger word =
     (eq_ignore_ascii_case word (str ''!ai'') \<or> eq_ignore_ascii_case word GROK_ALIAS_TRIGGER)"

definition is_twitch_login_char :: "uchar \<Rightarrow> bool" where
  "is_twitch_login_char c = (is_ascii_alphanumeric c \<or> c = 95)"

definition is_twitch_mention :: "rstr \<Rightarrow> bool" where
  "is_twitch_mention word =
     (case strip_prefix word [64] of
        Some name \<Rightarrow> name \<noteq> [] \<and> list_all is_twitch_login_char name
      | None \<Rightarrow> False)"

text \<open>\<^verbatim>\<open>split_whitespace\<close>\<close>

fun split_words :: "rstr \<Rightarrow> rstr \<Rightarrow> rstr list" where
  "split_words acc [] = (if acc = [] then [] else [acc])"
| "split_words acc (c # cs) =
     (if is_whitespace c then (if acc = [] then split_words [] cs else acc # split_words [] cs)
      else split_words (acc @ [c]) cs)"

definition split_whitespace :: "rstr \<Rightarrow> rstr list" where
  "split_whitespace s = split_words [] s"

text \<open>The first \<^verbatim>\<open>@grok\<close> that only mentions precede, and the words after it.\<close>

fun grok_invocation :: "rstr list \<Rightarrow> (rstr \<times> rstr list) option" where
  "grok_invocation [] = None"
| "grok_invocation (w # ws) =
     (if eq_ignore_ascii_case w GROK_ALIAS_TRIGGER then Some (w, ws)
      else if is_twitch_mention w then grok_invocation ws else None)"

definition command_invocation :: "rstr \<Rightarrow> (rstr \<times> rstr list) option" where
  "command_invocation message_text =
     (case split_whitespace message_text of
        [] \<Rightarrow> None
      | w # ws \<Rightarrow>
          (case grok_invocation (w # ws) of
             Some found \<Rightarrow> Some found
           | None \<Rightarrow> Some (w, ws)))"

text \<open>What the dispatcher asks of a command.\<close>

record BotCommand =
  bc_enabled :: bool
  bc_matches :: "rstr \<Rightarrow> bool"
  bc_suspend_key :: "rstr \<Rightarrow> rstr"

record ChatLine =
  ln_channel :: rstr
  ln_text :: rstr
  ln_sender :: ChatMessage

text \<open>
  Which command runs for a message, with its trigger and its arguments.
\<close>

definition dispatch ::
  "rstr option \<Rightarrow> rstr option \<Rightarrow> BotCommand list \<Rightarrow> Suspensions \<Rightarrow> instant \<Rightarrow> ChatLine \<Rightarrow>
   (BotCommand \<times> rstr \<times> rstr list) option" where
  "dispatch admin_channel ai_channel commands m now line =
     (let is_ai_channel = is_some_and ai_channel (\<lambda>ch. ln_channel line = ch) in
      if is_some_and admin_channel (\<lambda>ch. ln_channel line = ch) \<and>
         str ''broadcaster'' \<notin> set (cm_badges (ln_sender line))
      then None
      else case command_invocation (ln_text line) of
        None \<Rightarrow> None
      | Some (trigger, args) \<Rightarrow>
          if is_ai_channel \<and> \<not> is_ai_trigger trigger then None
          else case find (\<lambda>c. bc_enabled c \<and> bc_matches c trigger) commands of
            None \<Rightarrow> None
          | Some c \<Rightarrow>
              if is_suspended m (bc_suspend_key c trigger) now \<noteq> None then None
              else Some (c, trigger, args))"

section \<open>Lemmas\<close>

lemma parse_duration_Inr:
  "parse_duration s = Inr d \<Longrightarrow> 0 < d \<and> d \<le> MAX_SUSPEND_DURATION"
  by (auto simp: parse_duration_def Let_def secs_def split: if_splits option.splits prod.splits)

lemma normalize_lower [simp]: "to_ascii_lowercase (normalize_command_name raw) = normalize_command_name raw"
  by (simp add: normalize_command_name_def Let_def to_ascii_lowercase_def str_def ascii_lower_def
      is_ascii_uppercase_def)

text \<open>One administration command, at a time.\<close>

datatype SuspendEvent = DoSuspend ChatMessage "rstr list" nat | DoUnsuspend ChatMessage "rstr list"

fun run_suspend_event :: "rstr list \<Rightarrow> SuspendEvent \<times> instant \<Rightarrow> Suspensions \<Rightarrow> Suspensions" where
  "run_suspend_event adm (DoSuspend msg args dflt, now) m = fst (suspend_execute adm dflt msg args now m)"
| "run_suspend_event adm (DoUnsuspend msg args, now) m = fst (unsuspend_execute adm msg args now m)"

fun names_command :: "SuspendEvent \<Rightarrow> rstr \<Rightarrow> bool" where
  "names_command (DoSuspend msg args dflt) key = (args \<noteq> [] \<and> normalize_command_name (hd args) = key)"
| "names_command (DoUnsuspend msg args) key = (args \<noteq> [] \<and> normalize_command_name (hd args) = key)"

lemma run_suspend_event_other:
  "\<not> names_command (fst ev) key \<Longrightarrow> run_suspend_event adm ev m key = m key"
  by (cases "(adm, ev, m)" rule: run_suspend_event.cases)
    (auto simp: suspend_execute_def unsuspend_execute_def suspend_def unsuspend_def Let_def
      split: list.splits sum.splits)

lemma run_suspend_events_other:
  "\<forall>ev\<in>set evs. \<not> names_command (fst ev) key \<Longrightarrow> fold (run_suspend_event adm) evs m key = m key"
  by (induction evs arbitrary: m) (auto simp: run_suspend_event_other)

lemma run_suspend_event_exempt:
  "key \<in> set EXEMPT_COMMANDS \<Longrightarrow> m key = None \<Longrightarrow> run_suspend_event adm ev m key = None"
  by (cases "(adm, ev, m)" rule: run_suspend_event.cases)
    (auto simp: suspend_execute_def unsuspend_execute_def suspend_def unsuspend_def Let_def
      split: list.splits sum.splits)

inductive suspend_step :: "Suspensions \<Rightarrow> Suspensions \<Rightarrow> bool" where
  "suspend_step m (run_suspend_event adm ev m)"

definition exempt_free :: "Suspensions \<Rightarrow> bool" where
  "exempt_free m \<longleftrightarrow> (\<forall>key\<in>set EXEMPT_COMMANDS. m key = None)"

interpretation suspensions: invariant "\<lambda>m. m = Map.empty" suspend_step exempt_free
proof
  show "exempt_free m" if "m = Map.empty" for m using that by (simp add: exempt_free_def)
  show "exempt_free m'" if "exempt_free m" "suspend_step m m'" for m m'
    using that by (auto simp: exempt_free_def run_suspend_event_exempt elim!: suspend_step.cases)
qed

lemma last_dec_nat: "is_ascii_digit (last (dec_nat n))"
  using dec_nat_digits [of "last (dec_nat n)" n] by simp

lemma digit_not_whitespace: "is_ascii_digit c \<Longrightarrow> \<not> is_whitespace c"
  by (auto simp: char_class_defs)

lemma dec_nat_hd: "is_ascii_digit (hd (dec_nat n))"
  using dec_nat_digits [of "hd (dec_nat n)" n] by simp

section \<open>Properties\<close>

text \<open>
  No sequence of administration commands ever suspends \<^verbatim>\<open>!suspend\<close>, \<^verbatim>\<open>!unsuspend\<close> or
  \<^verbatim>\<open>!p\<close>, however they are written: the administrators can always lift a suspension.
\<close>

theorem exempt_never_suspended:
  assumes "reachable (\<lambda>m. m = Map.empty) suspend_step m"
    and "normalize_command_name trigger \<in> set EXEMPT_COMMANDS"
  shows "is_suspended m (normalize_command_name trigger) now = None"
  using suspensions.always [OF assms(1)] assms(2) by (simp add: exempt_free_def is_suspended_def)


text \<open>
  Claim C22. A duration is read as it is written: a number with one of the units (or none, for
  seconds) gives that many seconds whenever they are between one second and seven days, and nothing
  outside these bounds is ever accepted.
\<close>

theorem parse_duration_exact:
  assumes "(u, k) \<in> {([], 1), (str ''s'', 1), (str ''m'', 60), (str ''h'', 3600), (str ''d'', 86400)}"
  shows "(if 0 < n * k \<and> n * k \<le> 604800 then parse_duration (dec_nat n @ u) = Inr (secs (int (n * k)))
      else \<exists>e. parse_duration (dec_nat n @ u) = Inl e) \<and>
    (\<forall>s dur. parse_duration s = Inr dur \<longrightarrow> 0 < dur \<and> dur \<le> MAX_SUSPEND_DURATION)"
proof -
  have "u = [] \<or> (last u \<in> {115, 109, 104, 100} \<and> length u = 1)"
    using assms by (auto simp: str_def)
  then have "is_ascii_digit (last (dec_nat n @ u)) \<or> last (dec_nat n @ u) \<in> {115, 109, 104, 100}"
    using last_dec_nat [of n] by (cases u) auto
  then have last_ok: "\<not> is_whitespace (last (dec_nat n @ u))"
    using digit_not_whitespace by (auto simp: is_whitespace_def)
  have trim: "trim (dec_nat n @ u) = dec_nat n @ u"
  proof (rule trim_noop)
    show "dec_nat n @ u \<noteq> [] \<Longrightarrow> \<not> is_whitespace (hd (dec_nat n @ u))"
      using dec_nat_hd digit_not_whitespace by simp
    show "dec_nat n @ u \<noteq> [] \<Longrightarrow> \<not> is_whitespace (last (dec_nat n @ u))"
      by (rule last_ok)
  qed
  have split: "split_unit (dec_nat n @ u) = Some (dec_nat n, k)"
    using assms last_dec_nat [of n] by (auto simp: split_unit_def Let_def str_def is_ascii_digit_def)
  have k: "0 < k" using assms by auto
  have big: "n * k < 2 ^ 64 \<Longrightarrow> n < 2 ^ 64" using k by (metis le_less_trans mult_le_mono2 nat_mult_1_right Suc_leI One_nat_def)
  have max: "MAX_SUSPEND_DURATION < secs (int a) \<longleftrightarrow> 604800 < a" for a
    unfolding MAX_SUSPEND_DURATION_def secs_def by linarith
  have p: "parse_duration (dec_nat n @ u) =
     (if \<not> n < 2 ^ 64 \<or> 2 ^ 64 \<le> n * k then Inl InvalidNumber
      else if n * k = 0 then Inl ZeroDuration
      else if 604800 < n * k then Inl TooLong else Inr (secs (int (n * k))))"
    unfolding parse_duration_def trim Let_def split
    by (simp only: option.case prod.case list.simps dec_nat_nonempty append_is_Nil_conv dec_nat_all_digits
        parse_u64_dec_nat max not_True_eq_False simp_thms if_False if_True split: if_split) simp
  show ?thesis
    unfolding p using big parse_duration_Inr by auto
qed

section \<open>Witnesses\<close>

definition demo_admin :: ChatMessage where
  "demo_admin = \<lparr>cm_login = str ''ada'', cm_user_id = str ''1'', cm_badges = [str ''moderator'']\<rparr>"

lemma demo_reachable: "reachable (\<lambda>m. m = Map.empty) suspend_step
    (run_suspend_event [] (DoSuspend demo_admin [str ''!P''] 600, 5) Map.empty)"
  by (rule reach_step [OF reach_start]) (simp, rule suspend_step.intros)

lemma normalize_p: "normalize_command_name (str ''!P'') = str ''p''"
  by (simp add: normalize_command_name_def trim_start_matches_def to_ascii_lowercase_def
      ascii_lower_def is_ascii_uppercase_def str_def)

lemma normalize_ai: "normalize_command_name (str ''!AI'') = str ''ai''" "normalize_command_name (str ''ai'') = str ''ai''"
  by (simp_all add: normalize_command_name_def trim_start_matches_def to_ascii_lowercase_def
      ascii_lower_def is_ascii_uppercase_def str_def)

theorem exempt_never_suspended_witness:
  "is_suspended (run_suspend_event [] (DoSuspend demo_admin [str ''!P''] 600, 5) Map.empty)
     (normalize_command_name (str ''!P'')) 7 = None"
  by (rule exempt_never_suspended [OF demo_reachable]) (simp add: normalize_p EXEMPT_COMMANDS_def)

lemma demo_duration: "parse_duration (str ''30s'') = Inr (secs 30)"
  by (simp add: parse_duration_def split_unit_def parse_u64_def dec_value_def MAX_SUSPEND_DURATION_def secs_def
      text_eval)


theorem parse_duration_exact_witness:
  "parse_duration (dec_nat 10 @ str ''m'') = Inr (secs 600) \<and> (\<exists>e. parse_duration (dec_nat 8 @ str ''d'') = Inl e)"
  using parse_duration_exact [of "str ''m''" 60 10] parse_duration_exact [of "str ''d''" 86400 8] by simp

end
