(* ===== verification/Chat_History.thy ===== *)
theory Chat_History imports Chat_Basics begin

text \<open>
  \<^verbatim>\<open>ai/chat_history.rs\<close>: the ring of recent chat messages that the AI command reads and that its
  history tool pages through. The capacity is read from the live settings on every push, so it is
  an argument of each push.
\<close>

section \<open>The buffer\<close>

datatype ChatHistorySource = FromUser | FromBot

record ChatHistoryEntry =
  he_seq :: u64
  he_username :: rstr
  he_display_name :: "rstr option"
  he_user_id :: "rstr option"
  he_text :: rstr
  he_source :: ChatHistorySource
  he_timestamp :: instant

record ChatHistoryBuffer =
  hb_next_seq :: u64
  hb_entries :: "ChatHistoryEntry list"

definition new_buffer :: ChatHistoryBuffer where
  "new_buffer = \<lparr>hb_next_seq = 1, hb_entries = []\<rparr>"

text \<open>\<^verbatim>\<open>while self.entries.len() >= cap { pop_front }\<close>, for a capacity that is not zero.\<close>

function pop_while :: "nat \<Rightarrow> 'a list \<Rightarrow> 'a list" where
  "pop_while cap es = (if length es \<ge> cap \<and> es \<noteq> [] then pop_while cap (tl es) else es)"
  by pat_completeness auto
termination by (relation "measure (\<lambda>(cap, es). length es)") auto

declare pop_while.simps [simp del]

definition push ::
  "nat \<Rightarrow> rstr \<Rightarrow> rstr option \<Rightarrow> rstr option \<Rightarrow> rstr \<Rightarrow> ChatHistorySource \<Rightarrow> instant \<Rightarrow>
   ChatHistoryBuffer \<Rightarrow> ChatHistoryBuffer" where
  "push cap username display_name user_id text source timestamp buf =
     (if cap = 0 then buf
      else
        let entries = pop_while cap (hb_entries buf); seq = hb_next_seq buf
        in buf\<lparr>hb_next_seq := saturating_inc (hb_next_seq buf),
               hb_entries := entries @ [\<lparr>he_seq = seq, he_username = username,
                 he_display_name = display_name, he_user_id = user_id, he_text = text,
                 he_source = source, he_timestamp = timestamp\<rparr>]\<rparr>)"

definition push_user_at :: "nat \<Rightarrow> rstr \<Rightarrow> rstr \<Rightarrow> instant \<Rightarrow> ChatHistoryBuffer \<Rightarrow> ChatHistoryBuffer" where
  "push_user_at cap username text timestamp = push cap username None None text FromUser timestamp"

definition push_user_with_identity_at ::
  "nat \<Rightarrow> rstr \<Rightarrow> rstr option \<Rightarrow> rstr option \<Rightarrow> rstr \<Rightarrow> instant \<Rightarrow> ChatHistoryBuffer \<Rightarrow> ChatHistoryBuffer" where
  "push_user_with_identity_at cap username display_name user_id text timestamp =
     push cap username display_name user_id text FromUser timestamp"

definition push_bot_with_identity_at ::
  "nat \<Rightarrow> rstr \<Rightarrow> rstr option \<Rightarrow> rstr \<Rightarrow> instant \<Rightarrow> ChatHistoryBuffer \<Rightarrow> ChatHistoryBuffer" where
  "push_bot_with_identity_at cap username display_name text timestamp =
     push cap username display_name None text FromBot timestamp"

definition from_prefill :: "nat \<Rightarrow> (rstr \<times> rstr \<times> instant) list \<Rightarrow> ChatHistoryBuffer" where
  "from_prefill cap messages =
     (let items = (if length messages > cap then drop (length messages - cap) messages else messages)
      in fold (\<lambda>(username, text, timestamp). push_user_at cap username text timestamp) items new_buffer)"

section \<open>Queries\<close>

definition MAX_TOOL_RESULT_MESSAGES :: nat where "MAX_TOOL_RESULT_MESSAGES = 200"
definition DEFAULT_TOOL_RESULT_MESSAGES :: nat where "DEFAULT_TOOL_RESULT_MESSAGES = 50"

record ChatHistoryQuery =
  hq_limit :: "nat option"
  hq_user :: "rstr option"
  hq_contains :: "rstr option"
  hq_before_seq :: "u64 option"

record ChatHistoryPage =
  hp_messages :: "ChatHistoryEntry list"
  hp_has_more :: bool
  hp_next_before_seq :: "u64 option"

definition query_limit :: "ChatHistoryQuery \<Rightarrow> nat" where
  "query_limit q =
     max 1 (min MAX_TOOL_RESULT_MESSAGES
       (case hq_limit q of Some l \<Rightarrow> l | None \<Rightarrow> DEFAULT_TOOL_RESULT_MESSAGES))"

definition needle :: "rstr option \<Rightarrow> rstr option" where
  "needle s = map_option to_ascii_lowercase (opt_filter (\<lambda>t. t \<noteq> []) (map_option trim s))"

definition entry_matches :: "rstr option \<Rightarrow> rstr option \<Rightarrow> u64 option \<Rightarrow> ChatHistoryEntry \<Rightarrow> bool" where
  "entry_matches user has before e =
     (\<not> is_some_and before (\<lambda>seq. he_seq e \<ge> seq) \<and>
      \<not> is_some_and user (\<lambda>u. to_ascii_lowercase (he_username e) \<noteq> u) \<and>
      \<not> is_some_and has (\<lambda>n. \<not> contains (to_ascii_lowercase (he_text e)) n))"

text \<open>The loop over the entries, newest first, that stops one past the limit.\<close>

fun collect :: "(ChatHistoryEntry \<Rightarrow> bool) \<Rightarrow> nat \<Rightarrow> ChatHistoryEntry list \<Rightarrow> ChatHistoryEntry list \<Rightarrow> ChatHistoryEntry list" where
  "collect P limit [] acc = acc"
| "collect P limit (e # es) acc =
     (if \<not> P e then collect P limit es acc
      else
        let acc = acc @ [e] in
        if length acc > limit then acc else collect P limit es acc)"

definition query :: "ChatHistoryBuffer \<Rightarrow> ChatHistoryQuery \<Rightarrow> ChatHistoryPage" where
  "query buf q =
     (let limit = query_limit q;
          user = needle (hq_user q);
          has = needle (hq_contains q);
          newest_first = collect (entry_matches user has (hq_before_seq q)) limit (rev (hb_entries buf)) [];
          has_more = length newest_first > limit;
          newest_first = (if has_more then take limit newest_first else newest_first);
          messages = rev newest_first;
          next_before_seq =
            (if has_more then (case messages of e # _ \<Rightarrow> Some (he_seq e) | [] \<Rightarrow> None) else None)
      in \<lparr>hp_messages = messages, hp_has_more = has_more, hp_next_before_seq = next_before_seq\<rparr>)"

section \<open>Lemmas on the buffer\<close>

lemma pop_while_drop: "0 < cap \<Longrightarrow> pop_while cap es = drop (length es - (cap - 1)) es"
proof (induction cap es rule: pop_while.induct)
  case (1 cap es)
  show ?case
  proof (cases "length es \<ge> cap \<and> es \<noteq> []")
    case True
    then obtain e es' where es: "es = e # es'" by (cases es) auto
    have "length es - (cap - 1) = Suc (length es' - (cap - 1))" using True es "1.prems" by auto
    then show ?thesis using "1" True es by (subst pop_while.simps) simp
  next
    case False
    then show ?thesis using "1.prems" by (subst pop_while.simps) auto
  qed
qed

text \<open>The abstract view: the log of all messages ever recorded, numbered from one.\<close>

type_synonym message = "rstr \<times> rstr option \<times> rstr option \<times> rstr \<times> ChatHistorySource \<times> instant"

definition payload :: "ChatHistoryEntry \<Rightarrow> message" where
  "payload e = (he_username e, he_display_name e, he_user_id e, he_text e, he_source e, he_timestamp e)"

fun push_message :: "nat \<times> message \<Rightarrow> ChatHistoryBuffer \<Rightarrow> ChatHistoryBuffer" where
  "push_message (cap, u, d, i, t, s, w) buf = push cap u d i t s w buf"

definition recorded :: "(nat \<times> message) list \<Rightarrow> message list" where
  "recorded ps = map snd (filter (\<lambda>p. fst p \<noteq> 0) ps)"

text \<open>
  The buffer shows the last messages of the log under their numbers, and no more than the capacity
  at the last push.
\<close>

definition shows_log :: "ChatHistoryBuffer \<Rightarrow> message list \<Rightarrow> bool" where
  "shows_log buf hist \<longleftrightarrow>
     (let k = length hist - length (hb_entries buf) in
      length (hb_entries buf) \<le> length hist \<and>
      map payload (hb_entries buf) = drop k hist \<and>
      map (unat \<circ> he_seq) (hb_entries buf) = [Suc k..<Suc (length hist)] \<and>
      unat (hb_next_seq buf) = Suc (length hist))"

lemma shows_log_new: "shows_log new_buffer []"
  by (simp add: shows_log_def new_buffer_def)

lemma shows_log_push:
  assumes "shows_log buf hist" and "0 < cap" and "length hist < 2 ^ 64 - 2"
  shows "shows_log (push_message (cap, msg) buf) (hist @ [msg])"
proof -
  obtain u d i t s w where msg: "msg = (u, d, i, t, s, w)" by (cases msg)
  define es where "es = hb_entries buf"
  define es' where "es' = pop_while cap es"
  define k where "k = length hist - length es"
  have n: "unat (hb_next_seq buf) = Suc (length hist)" and le: "length es \<le> length hist"
    and pay: "map payload es = drop k hist" and seq: "map (unat \<circ> he_seq) es = [Suc k..<Suc (length hist)]"
    using assms(1) by (simp_all add: shows_log_def es_def k_def Let_def)
  define j where "j = length es - (cap - 1)"
  have es': "es' = drop j es" unfolding es'_def j_def by (rule pop_while_drop [OF assms(2)])
  have kj: "length hist - length es' = k + min j (length es)"
    unfolding es' k_def using le by (simp add: min_def) 
  have pay': "map payload es' = drop (k + min j (length es)) hist"
    unfolding es' by (cases "j \<le> length es") (use pay le in \<open>auto simp: drop_map [symmetric] k_def add.commute\<close>)
  have seq': "map (unat \<circ> he_seq) es' = [Suc (k + min j (length es))..<Suc (length hist)]"
    unfolding es' drop_map [symmetric] seq using le
    by (cases "j \<le> length es") (simp_all add: drop_upt k_def add.commute del: upt_Suc)
  have inc: "unat (saturating_inc (hb_next_seq buf)) = Suc (Suc (length hist))"
    using assms(3) n by (simp add: unat_saturating_inc)
  have len: "length es' \<le> length hist" using es' le by simp
  have push: "hb_entries (push_message (cap, msg) buf) = es' @ [\<lparr>he_seq = hb_next_seq buf, he_username = u,
        he_display_name = d, he_user_id = i, he_text = t, he_source = s, he_timestamp = w\<rparr>]"
    "hb_next_seq (push_message (cap, msg) buf) = saturating_inc (hb_next_seq buf)"
    using assms(2) by (simp_all add: msg push_def Let_def es'_def es_def)
  show ?thesis
    unfolding shows_log_def push Let_def
    using pay' seq' inc len kj n by (simp add: msg payload_def)
qed

lemma push_disabled: "push_message (0, msg) buf = buf"
  by (cases msg) (simp add: push_def)

lemma shows_log_run:
  "shows_log buf hist \<Longrightarrow> length hist + length (recorded ps) < 2 ^ 64 - 1 \<Longrightarrow>
   shows_log (fold push_message ps buf) (hist @ recorded ps)"
proof (induction ps arbitrary: buf hist)
  case Nil
  then show ?case by (simp add: recorded_def)
next
  case (Cons p ps)
  obtain cap msg where p: "p = (cap, msg)" by (cases p)
  show ?case
  proof (cases "cap = 0")
    case True
    then show ?thesis using Cons by (simp add: p push_disabled recorded_def)
  next
    case False
    then have "shows_log (push_message p buf) (hist @ [msg])"
      using shows_log_push Cons.prems unfolding p by (auto simp: recorded_def p)
    from Cons.IH [OF this] show ?thesis using Cons.prems False by (simp add: p recorded_def)
  qed
qed

lemma push_message_length:
  "0 < cap \<Longrightarrow> length (hb_entries (push_message (cap, msg) buf)) \<le> cap"
  by (cases msg) (simp add: push_def Let_def pop_while_drop)

section \<open>Lemmas on queries\<close>

lemma collect_eq:
  "length acc \<le> limit \<Longrightarrow> collect P limit es acc = acc @ take (Suc limit - length acc) (filter P es)"
proof (induction P limit es acc rule: collect.induct)
  case (2 P limit e es acc)
  show ?case
  proof (cases "P e \<and> length acc < limit")
    case True
    then show ?thesis using 2 by (simp add: Let_def Suc_diff_le)
  next
    case False
    then show ?thesis using 2 by (auto simp: Let_def)
  qed
qed simp

definition query_matches :: "ChatHistoryBuffer \<Rightarrow> ChatHistoryQuery \<Rightarrow> ChatHistoryEntry list" where
  "query_matches buf q =
     filter (entry_matches (needle (hq_user q)) (needle (hq_contains q)) (hq_before_seq q)) (hb_entries buf)"

lemma query_limit_pos: "0 < query_limit q"
  by (simp add: query_limit_def)

lemma query_eq:
  fixes q :: ChatHistoryQuery and buf :: ChatHistoryBuffer
  defines "ms \<equiv> query_matches buf q" and "l \<equiv> query_limit q"
  shows "hp_messages (query buf q) = drop (length ms - l) ms"
    and "hp_has_more (query buf q) \<longleftrightarrow> l < length ms"
    and "hp_next_before_seq (query buf q) =
       (if l < length ms then Some (he_seq (ms ! (length ms - l))) else None)"
proof -
  have c: "collect (entry_matches (needle (hq_user q)) (needle (hq_contains q)) (hq_before_seq q)) l
      (rev (hb_entries buf)) [] = take (Suc l) (rev ms)"
    by (simp add: collect_eq ms_def query_matches_def rev_filter)
  have more: "l < length (take (Suc l) (rev ms)) \<longleftrightarrow> l < length ms" by simp
  have rev_take: "rev (take l (rev ms)) = drop (length ms - l) ms"
    by (simp add: rev_take)
  show "hp_has_more (query buf q) \<longleftrightarrow> l < length ms"
    by (simp add: query_def Let_def l_def [symmetric] c)
  have small: "take (Suc l) (rev ms) = rev ms" if "\<not> l < length ms" using that by simp
  show m: "hp_messages (query buf q) = drop (length ms - l) ms"
    using small by (simp add: query_def Let_def l_def [symmetric] c rev_take min_def)
  have hd: "drop (length ms - l) ms = ms ! (length ms - l) # drop (Suc (length ms - l)) ms"
    if "l < length ms"
    using that query_limit_pos [of q] by (simp add: Cons_nth_drop_Suc l_def)
  show "hp_next_before_seq (query buf q) =
       (if l < length ms then Some (he_seq (ms ! (length ms - l))) else None)"
    using hd by (simp add: query_def Let_def l_def [symmetric] c rev_take min_def)
qed

text \<open>Entries with increasing numbers.\<close>

definition numbered :: "ChatHistoryEntry list \<Rightarrow> bool" where
  "numbered es \<longleftrightarrow> sorted_wrt (<) (map he_seq es)"

lemma numbered_filter: "numbered es \<Longrightarrow> numbered (filter P es)"
  by (simp add: numbered_def sorted_wrt_map sorted_wrt_filter)

lemma numbered_below:
  "numbered es \<Longrightarrow> i < length es \<Longrightarrow> filter (\<lambda>e. he_seq e < he_seq (es ! i)) es = take i es"
proof (induction es arbitrary: i)
  case (Cons e es)
  have gt: "\<forall>x\<in>set es. he_seq e < he_seq x" and n: "numbered es"
    using Cons.prems(1) by (auto simp: numbered_def)
  show ?case
  proof (cases i)
    case 0
    then show ?thesis using gt by (auto simp: filter_empty_conv)
  next
    case (Suc j)
    then show ?thesis using Cons.IH [OF n, of j] Cons.prems(2) gt by simp
  qed
qed simp

lemma shows_log_numbered: "shows_log buf hist \<Longrightarrow> numbered (hb_entries buf)"
proof -
  assume "shows_log buf hist"
  then have "sorted_wrt (<) (map (unat \<circ> he_seq) (hb_entries buf))"
    by (simp add: shows_log_def Let_def del: upt_Suc)
  then show ?thesis by (simp add: numbered_def sorted_wrt_map word_less_nat_alt)
qed

text \<open>The older matches are the matches of the query with the number the page gives.\<close>

lemma query_older:
  assumes "numbered (hb_entries buf)" and "i < length (query_matches buf q)"
  shows "query_matches buf (q\<lparr>hq_before_seq := Some (he_seq (query_matches buf q ! i))\<rparr>) =
     take i (query_matches buf q)"
proof -
  define P where "P = entry_matches (needle (hq_user q)) (needle (hq_contains q)) (hq_before_seq q)"
  define b where "b = he_seq (query_matches buf q ! i)"
  have ms: "query_matches buf q = filter P (hb_entries buf)"
    by (simp add: query_matches_def P_def)
  have "P (query_matches buf q ! i)"
    using nth_mem [OF assms(2)] unfolding ms by simp
  then have le: "\<not> is_some_and (hq_before_seq q) (\<lambda>seq. b \<ge> seq)"
    by (simp add: P_def entry_matches_def b_def)
  have "entry_matches (needle (hq_user q)) (needle (hq_contains q)) (Some b) e \<longleftrightarrow> he_seq e < b \<and> P e" for e
    using le by (cases "hq_before_seq q") (auto simp: P_def entry_matches_def)
  then have "entry_matches (needle (hq_user q)) (needle (hq_contains q)) (Some b) = (\<lambda>e. he_seq e < b \<and> P e)"
    by (intro ext)
  then have "query_matches buf (q\<lparr>hq_before_seq := Some b\<rparr>) = filter (\<lambda>e. he_seq e < b \<and> P e) (hb_entries buf)"
    by (simp add: query_matches_def)
  also have "\<dots> = filter (\<lambda>e. he_seq e < b) (query_matches buf q)"
    unfolding ms by (simp add: conj_commute)
  also have "\<dots> = take i (query_matches buf q)"
    unfolding b_def by (rule numbered_below) (use assms in \<open>simp_all add: query_matches_def numbered_filter\<close>)
  finally show ?thesis unfolding b_def .
qed

text \<open>A reader who follows the pages from the newest to the oldest.\<close>

fun read_back :: "nat \<Rightarrow> ChatHistoryBuffer \<Rightarrow> ChatHistoryQuery \<Rightarrow> ChatHistoryEntry list option" where
  "read_back 0 buf q = None"
| "read_back (Suc fuel) buf q =
     (let page = query buf q in
      case hp_next_before_seq page of
        None \<Rightarrow> Some (hp_messages page)
      | Some b \<Rightarrow> map_option (\<lambda>older. older @ hp_messages page)
          (read_back fuel buf (q\<lparr>hq_before_seq := Some b\<rparr>)))"

lemma read_back_all:
  "numbered (hb_entries buf) \<Longrightarrow> length (query_matches buf q) < fuel \<Longrightarrow>
   read_back fuel buf q = Some (query_matches buf q)"
proof (induction fuel arbitrary: q)
  case (Suc fuel)
  define ms where "ms = query_matches buf q"
  define l where "l = query_limit q"
  show ?case
  proof (cases "l < length ms")
    case False
    then show ?thesis by (simp add: query_eq ms_def l_def Let_def)
  next
    case True
    define i where "i = length ms - l"
    have i: "i < length ms" "i < fuel"
      using True query_limit_pos [of q] Suc.prems(2) by (auto simp: i_def l_def ms_def)
    have older: "query_matches buf (q\<lparr>hq_before_seq := Some (he_seq (ms ! i))\<rparr>) = take i ms"
      using query_older [OF Suc.prems(1), of i q] i by (simp add: ms_def)
    have "read_back fuel buf (q\<lparr>hq_before_seq := Some (he_seq (ms ! i))\<rparr>) = Some (take i ms)"
      using Suc.IH [OF Suc.prems(1), of "q\<lparr>hq_before_seq := Some (he_seq (ms ! i))\<rparr>"] i older by simp
    then show ?thesis
      using True by (simp add: query_eq Let_def ms_def [symmetric] l_def [symmetric] i_def [symmetric])
  qed
qed simp

section \<open>Properties\<close>



text \<open>
  Claim C24. Paging through the history ends and misses nothing: a reader that follows the pages back
  gets, after at most as many pages as there are entries, exactly the matching messages, each once
  and in the order they were written; no page is longer than its limit.
\<close>

theorem history_pages_complete:
  assumes "length (recorded ps) < 2 ^ 64 - 1" and "buf = fold push_message ps new_buffer"
  shows "read_back (Suc (length (hb_entries buf))) buf q =
      Some (filter (entry_matches (needle (hq_user q)) (needle (hq_contains q)) (hq_before_seq q)) (hb_entries buf)) \<and>
    length (hp_messages (query buf q)) \<le> query_limit q"
proof -
  have "numbered (hb_entries buf)"
    using shows_log_numbered shows_log_run [OF shows_log_new, of ps] assms by simp
  moreover have "length (query_matches buf q) < Suc (length (hb_entries buf))"
    by (simp add: query_matches_def le_imp_less_Suc)
  ultimately have "read_back (Suc (length (hb_entries buf))) buf q = Some (query_matches buf q)"
    by (rule read_back_all)
  then show ?thesis
    unfolding query_matches_def [symmetric] query_eq by (simp del: read_back.simps)
qed

theorem history_pages_complete_witness:
  "let buf = fold push_message [(9, [97], None, None, [49], FromUser, 0),
     (9, [98], None, None, [50], FromBot, 1), (9, [97], None, None, [51], FromUser, 2)] new_buffer;
     q = \<lparr>hq_limit = Some 1, hq_user = Some [65], hq_contains = None, hq_before_seq = None\<rparr> in
   map he_text (the (read_back (Suc (length (hb_entries buf))) buf q)) = [[49], [51]]"
  using history_pages_complete [of "[(9, [97], None, None, [49], FromUser, 0),
     (9, [98], None, None, [50], FromBot, 1), (9, [97], None, None, [51], FromUser, 2)]" _
     "\<lparr>hq_limit = Some 1, hq_user = Some [65], hq_contains = None, hq_before_seq = None\<rparr>", OF _ refl]
  unfolding Let_def
  by (simp add: recorded_def new_buffer_def push_def pop_while.simps entry_matches_def needle_def
      text_eval to_ascii_lowercase_def ascii_lower_def saturating_inc_def del: read_back.simps)

end
