(* ===== verification/Schedule_Trigger.thy ===== *)
theory Schedule_Trigger imports Prelude begin

text \<open>
  \<^verbatim>\<open>schedule/weekday.rs\<close>, \<^verbatim>\<open>schedule/trigger.rs\<close> and \<^verbatim>\<open>schedule/schedule.rs\<close>: when a recurring chat
  message fires. An instant is a number of nanoseconds, a local date and time a number of
  nanoseconds of the local calendar, a date a number of days since 1970-01-01. The time zone
  (chrono-tz) is a record of functions; \<^verbatim>\<open>zone_ok\<close> states what the tables of Berlin satisfy.
\<close>

section \<open>The time zone\<close>

datatype LocalResult = Single instant | Ambiguous instant instant | NoLocal

record Zone =
  tz_local :: "instant \<Rightarrow> int"
  tz_from_local :: "int \<Rightarrow> LocalResult"
  tz_min :: instant
  tz_max :: instant

definition day_ns :: int where
  [time_simps]: "day_ns = secs 86400"

definition local_date :: "Zone \<Rightarrow> instant \<Rightarrow> int" where
  "local_date tz t = tz_local tz t div day_ns"

definition local_time :: "Zone \<Rightarrow> instant \<Rightarrow> int" where
  "local_time tz t = tz_local tz t mod day_ns"

fun single :: "LocalResult \<Rightarrow> instant option" where
  "single (Single t) = Some t"
| "single r = None"

text \<open>
  Local time is ahead of universal time by whole seconds and at most three hours; the zone reads a
  local time back to the instants that show it, of two the first comes first; a local time that no
  instant shows is skipped by a clock that is put forward by at most an hour.
\<close>

definition zone_ok :: "Zone \<Rightarrow> bool" where
  "zone_ok tz \<longleftrightarrow>
     (\<forall>t. 0 \<le> tz_local tz t - t \<and> tz_local tz t - t \<le> hours 3 \<and> (tz_local tz t - t) mod secs 1 = 0) \<and>
     (\<forall>n t. tz_from_local tz n = Single t \<longrightarrow> tz_local tz t = n) \<and>
     (\<forall>n a b. tz_from_local tz n = Ambiguous a b \<longrightarrow> tz_local tz a = n \<and> tz_local tz b = n \<and> a < b) \<and>
     (\<forall>t u. t \<le> u \<longrightarrow> local_date tz t \<le> local_date tz u) \<and>
     (\<forall>n. tz_from_local tz n = NoLocal \<longrightarrow> single (tz_from_local tz (n + hours 1)) \<noteq> None)"

text \<open>
  Arithmetic of chrono that the length of an interval can drive out of its range: the duration of
  so many seconds and the sum with an instant, which panic outside.
\<close>

datatype 'a run = Panics | Returns 'a

fun bind_run :: "'a run \<Rightarrow> ('a \<Rightarrow> 'b run) \<Rightarrow> 'b run" where
  "bind_run Panics f = Panics"
| "bind_run (Returns a) f = f a"

definition plus_seconds :: "Zone \<Rightarrow> instant \<Rightarrow> int \<Rightarrow> instant run" where
  "plus_seconds tz t n =
     (if \<bar>n\<bar> \<le> 9223372036854775 \<and> tz_min tz \<le> t + secs n \<and> t + secs n \<le> tz_max tz
      then Returns (t + secs n) else Panics)"

section \<open>Weekdays\<close>

datatype Weekday = Mon | Tue | Wed | Thu | Fri | Sat | Sun

text \<open>1970-01-01 was a Thursday.\<close>

definition weekday_of :: "int \<Rightarrow> Weekday" where
  "weekday_of d = [Mon, Tue, Wed, Thu, Fri, Sat, Sun] ! nat ((d + 3) mod 7)"

definition allows :: "Weekday set \<Rightarrow> Weekday \<Rightarrow> bool" where
  "allows days day \<longleftrightarrow> days = {} \<or> day \<in> days"

section \<open>Triggers\<close>

datatype Trigger =
  Interval (iv_every: duration) (iv_days: "Weekday set") (iv_from: "int option") (iv_to: "int option")
| Calendar (ca_days: "Weekday set") (ca_at: int)

text \<open>\<^verbatim>\<open>Duration::as_secs() as i64\<close>.\<close>

definition as_secs_i64 :: "duration \<Rightarrow> i64" where
  "as_secs_i64 d = (let n = d div 1000000000 in if n < 2 ^ 63 then n else n - 2 ^ 64)"

definition in_window :: "int \<Rightarrow> int option \<Rightarrow> int option \<Rightarrow> bool" where
  "in_window t from to =
     (case (from, to) of
        (Some f, Some e) \<Rightarrow> if e < f then t \<ge> f \<or> t < e else t \<ge> f \<and> t < e
      | _ \<Rightarrow> True)"

definition day_start_berlin :: "Zone \<Rightarrow> int \<Rightarrow> instant run" where
  "day_start_berlin tz date =
     (let naive = date * day_ns in
      case tz_from_local tz naive of
        Single t \<Rightarrow> Returns t
      | Ambiguous t1 _ \<Rightarrow> Returns t1
      | NoLocal \<Rightarrow>
          (case single (tz_from_local tz (naive + hours 1)) of Some t \<Rightarrow> Returns t | None \<Rightarrow> Panics))"

definition slot_allowed :: "Zone \<Rightarrow> Weekday set \<Rightarrow> int option \<Rightarrow> int option \<Rightarrow> instant \<Rightarrow> bool" where
  "slot_allowed tz days from to candidate \<longleftrightarrow>
     in_window (local_time tz candidate) from to \<and> allows days (weekday_of (local_date tz candidate))"

text \<open>The scan of \<^verbatim>\<open>next_interval\<close>, with the number of turns left.\<close>

fun scan_slots ::
  "nat \<Rightarrow> Zone \<Rightarrow> instant \<Rightarrow> i64 \<Rightarrow> Weekday set \<Rightarrow> int option \<Rightarrow> int option \<Rightarrow> i64 \<Rightarrow> instant \<Rightarrow> instant run" where
  "scan_slots 0 tz day_start every_secs days from to slot candidate = Returns candidate"
| "scan_slots (Suc n) tz day_start every_secs days from to slot candidate =
     (if slot_allowed tz days from to candidate then Returns candidate
      else
        let slot = slot + every_secs in
        bind_run (plus_seconds tz day_start slot)
          (\<lambda>candidate. scan_slots n tz day_start every_secs days from to slot candidate))"

definition SCAN_LIMIT :: nat where "SCAN_LIMIT = 14 * 1440"

definition next_interval ::
  "Zone \<Rightarrow> instant \<Rightarrow> duration \<Rightarrow> Weekday set \<Rightarrow> int option \<Rightarrow> int option \<Rightarrow> instant run" where
  "next_interval tz now every days from to =
     (let every_secs = as_secs_i64 every in
      bind_run (day_start_berlin tz (local_date tz now)) (\<lambda>day_start.
        let elapsed = max 0 (num_seconds (now - day_start)) in
        if every_secs = 0 then Panics
        else
          let slot = (trunc_div elapsed every_secs + 1) * every_secs in
          bind_run (plus_seconds tz day_start slot) (\<lambda>candidate.
            scan_slots SCAN_LIMIT tz day_start every_secs days from to slot candidate)))"

definition calendar_candidate :: "Zone \<Rightarrow> instant \<Rightarrow> int \<Rightarrow> instant" where
  "calendar_candidate tz now naive =
     (case tz_from_local tz naive of
        Single t \<Rightarrow> t
      | Ambiguous t1 _ \<Rightarrow> t1
      | NoLocal \<Rightarrow>
          (case single (tz_from_local tz (naive + hours 1)) of Some t \<Rightarrow> t | None \<Rightarrow> now))"

fun scan_dates :: "Zone \<Rightarrow> instant \<Rightarrow> Weekday set \<Rightarrow> int \<Rightarrow> int list \<Rightarrow> instant option" where
  "scan_dates tz now days at_time [] = None"
| "scan_dates tz now days at_time (date # dates) =
     (if \<not> allows days (weekday_of date) then scan_dates tz now days at_time dates
      else
        let candidate = calendar_candidate tz now (date * day_ns + at_time) in
        if candidate > now then Some candidate else scan_dates tz now days at_time dates)"

definition next_calendar :: "Zone \<Rightarrow> instant \<Rightarrow> Weekday set \<Rightarrow> int \<Rightarrow> instant" where
  "next_calendar tz now days at_time =
     (let base_date = local_date tz now in
      case scan_dates tz now days at_time (map (\<lambda>offset. base_date + offset) [0..7]) of
        Some t \<Rightarrow> t
      | None \<Rightarrow>
          (case single (tz_from_local tz ((base_date + 7) * day_ns + at_time)) of
             Some t \<Rightarrow> t
           | None \<Rightarrow> now + 7 * day_ns))"

fun next_fire_after :: "Zone \<Rightarrow> Trigger \<Rightarrow> instant \<Rightarrow> instant run" where
  "next_fire_after tz (Interval every days active_from active_to) now =
     next_interval tz now every days active_from active_to"
| "next_fire_after tz (Calendar days at_time) now = Returns (next_calendar tz now days at_time)"

section \<open>Schedules\<close>

record Schedule =
  sc_name :: rstr
  sc_message :: rstr
  sc_trigger :: Trigger
  sc_start_date :: "int option"
  sc_end_date :: "int option"
  sc_enabled :: bool

record FieldError =
  fe_field :: rstr
  fe_message :: rstr

definition reserved_name_char :: "uchar \<Rightarrow> bool" where
  "reserved_name_char c \<longleftrightarrow> c \<in> set (str ''/?#%&+= '' @ [39, 34]) \<or> is_control c"

text \<open>The printing of characters and of dates is a parameter.\<close>

definition validate_interval :: "rstr \<Rightarrow> Trigger \<Rightarrow> FieldError list" where
  "validate_interval prfx trigger =
     (case trigger of
        Interval every days active_from active_to \<Rightarrow>
          (if every div 1000000000 < 60
           then [\<lparr>fe_field = prfx @ str ''.trigger.every'',
                   fe_message = str ''must be '' @ [8805] @ str '' 1 minute (got '' @
                     dec_int (every div 1000000000) @ str ''s)''\<rparr>]
           else []) @
          (case (active_from, active_to) of
             (Some _, None) \<Rightarrow> [\<lparr>fe_field = prfx @ str ''.trigger.active_to'',
                                  fe_message = str ''must be set when active_from is set''\<rparr>]
           | (None, Some _) \<Rightarrow> [\<lparr>fe_field = prfx @ str ''.trigger.active_from'',
                                  fe_message = str ''must be set when active_to is set''\<rparr>]
           | _ \<Rightarrow> [])
      | Calendar _ _ \<Rightarrow> [])"

definition validate_schedule ::
  "(uchar list \<Rightarrow> rstr) \<Rightarrow> (int \<Rightarrow> rstr) \<Rightarrow> rstr \<Rightarrow> Schedule \<Rightarrow> FieldError list" where
  "validate_schedule show_chars show_date prfx s =
     (if trim (sc_name s) = []
      then [\<lparr>fe_field = prfx @ str ''.name'', fe_message = str ''must not be blank''\<rparr>] else []) @
     (let bad = filter reserved_name_char (sc_name s) in
      if bad \<noteq> []
      then [\<lparr>fe_field = prfx @ str ''.name'',
              fe_message = str ''must not contain URL-reserved, whitespace, quote, or control characters '' @
                show_chars bad\<rparr>] else []) @
     (if trim (sc_message s) = []
      then [\<lparr>fe_field = prfx @ str ''.message'', fe_message = str ''must not be blank''\<rparr>] else []) @
     (if list_ex is_control (sc_message s)
      then [\<lparr>fe_field = prfx @ str ''.message'',
              fe_message = str ''must not contain control characters''\<rparr>] else []) @
     validate_interval prfx (sc_trigger s) @
     (case (sc_start_date s, sc_end_date s) of
        (Some st, Some e) \<Rightarrow>
          if e < st
          then [\<lparr>fe_field = prfx @ str ''.end_date'',
                  fe_message = str ''must be '' @ [8805] @ str '' start_date (start='' @ show_date st @
                    str '', end='' @ show_date e @ str '')''\<rparr>]
          else []
      | _ \<Rightarrow> [])"

definition start_dt :: "Zone \<Rightarrow> int \<Rightarrow> instant option" where
  "start_dt tz start = single (tz_from_local tz (start * day_ns))"

definition end_dt :: "Zone \<Rightarrow> int \<Rightarrow> instant option" where
  "end_dt tz end_date = single (tz_from_local tz (end_date * day_ns + secs 86399))"

definition fire_anchor :: "Zone \<Rightarrow> Schedule \<Rightarrow> instant \<Rightarrow> instant run" where
  "fire_anchor tz s now =
     (case sc_start_date s of
        None \<Rightarrow> Returns now
      | Some start \<Rightarrow>
          (case start_dt tz start of
             None \<Rightarrow> Panics
           | Some st \<Rightarrow> Returns (if now < st then st - secs 1 else now)))"

definition next_active_fire :: "Zone \<Rightarrow> Schedule \<Rightarrow> instant \<Rightarrow> instant option run" where
  "next_active_fire tz s now =
     bind_run (fire_anchor tz s now) (\<lambda>anchor.
       bind_run (next_fire_after tz (sc_trigger s) anchor) (\<lambda>next_fire.
         case sc_end_date s of
           None \<Rightarrow> Returns (Some next_fire)
         | Some end_date \<Rightarrow>
             (case end_dt tz end_date of
                None \<Rightarrow> Panics
              | Some e \<Rightarrow> Returns (if next_fire > e then None else Some next_fire))))"

section \<open>Slots of an interval\<close>

definition is_slot :: "instant \<Rightarrow> duration \<Rightarrow> instant \<Rightarrow> bool" where
  "is_slot day_start every s \<longleftrightarrow> (\<exists>k\<ge>1. s = day_start + secs (k * as_secs_i64 every))"

lemma secs_mono [simp]: "secs a \<le> secs b \<longleftrightarrow> a \<le> b" "secs a < secs b \<longleftrightarrow> a < b"
  by (simp_all add: secs_def)

lemma secs_add: "secs (a + b) = secs a + secs b"
  by (simp add: secs_def distrib_right)

lemma num_seconds_bounds: "0 \<le> d \<Longrightarrow> secs (num_seconds d) \<le> d \<and> d < secs (num_seconds d + 1)"
proof -
  assume "0 \<le> d"
  then have n: "num_seconds d = d div 1000000000" by (rule num_seconds_nonneg)
  have "d div 1000000000 * 1000000000 \<le> d" "d < (d div 1000000000 + 1) * 1000000000" by simp_all
  then show ?thesis unfolding n secs_def by (rule conjI)
qed

lemma plus_seconds_between:
  assumes "0 \<le> a" and "a \<le> m" and "m \<le> 9223372036854775" and "tz_min tz \<le> ds" and "ds + secs m \<le> tz_max tz"
  shows "plus_seconds tz ds a = Returns (ds + secs a)"
proof -
  have "secs a \<le> secs m" "0 \<le> secs a" using assms(1,2) by (simp_all add: secs_def)
  then have "ds + secs a \<le> tz_max tz" "tz_min tz \<le> ds + secs a" using assms(4,5) by linarith+
  then show ?thesis using assms(1-3) by (simp add: plus_seconds_def)
qed

text \<open>The scan returns the first allowed slot, or the last one it looks at.\<close>

lemma scan_slots_eq:
  assumes "i \<le> n" and "\<forall>j<i. \<not> slot_allowed tz days from to (ds + secs (slot + int j * e))"
    and "i < n \<longrightarrow> slot_allowed tz days from to (ds + secs (slot + int i * e))"
    and "\<forall>j\<le>i. plus_seconds tz ds (slot + int j * e) = Returns (ds + secs (slot + int j * e))"
  shows "scan_slots n tz ds e days from to slot (ds + secs slot) = Returns (ds + secs (slot + int i * e))"
  using assms
proof (induction i arbitrary: n slot)
  case 0
  then show ?case by (cases n) simp_all
next
  case (Suc i)
  then obtain m where n: "n = Suc m" by (cases n) auto
  have shift: "slot + e + int j * e = slot + int (Suc j) * e" for j by (simp add: algebra_simps)
  have "\<not> slot_allowed tz days from to (ds + secs slot)" using Suc.prems(2) by fastforce
  moreover have "plus_seconds tz ds (slot + e) = Returns (ds + secs (slot + e))"
    using Suc.prems(4)[rule_format, of 1] by simp
  moreover have "scan_slots m tz ds e days from to (slot + e) (ds + secs (slot + e)) =
      Returns (ds + secs (slot + e + int i * e))"
    by (rule Suc.IH) (use Suc.prems n in \<open>auto simp only: shift\<close>)
  ultimately show ?case by (simp only: n scan_slots.simps Let_def if_False bind_run.simps shift)
qed

text \<open>The number of seconds after the start of the day of the first slot after now.\<close>

definition first_slot :: "instant \<Rightarrow> instant \<Rightarrow> i64 \<Rightarrow> i64" where
  "first_slot now ds e = (max 0 (num_seconds (now - ds)) div e + 1) * e"

lemma next_interval_eq:
  assumes "day_start_berlin tz (local_date tz now) = Returns ds" and "0 < as_secs_i64 every"
  shows "next_interval tz now every days from to =
    bind_run (plus_seconds tz ds (first_slot now ds (as_secs_i64 every))) (\<lambda>candidate.
      scan_slots SCAN_LIMIT tz ds (as_secs_i64 every) days from to (first_slot now ds (as_secs_i64 every)) candidate)"
  using assms by (simp add: next_interval_def Let_def first_slot_def trunc_div_nonneg)

lemma first_slot:
  assumes "0 < e"
  shows "now < ds + secs (first_slot now ds e)" and "\<exists>k\<ge>1. first_slot now ds e = k * e"
    and "1 \<le> k \<Longrightarrow> now < ds + secs (k * e) \<Longrightarrow> first_slot now ds e \<le> k * e"
proof -
  define n where "n = max 0 (num_seconds (now - ds))"
  have s: "first_slot now ds e = (n div e + 1) * e" by (simp add: first_slot_def n_def)
  have "n div e * e + n mod e = n" "0 \<le> n mod e" "n mod e < e" "0 \<le> n"
    using assms by (simp_all add: n_def)
  then have n: "n < (n div e + 1) * e" "0 \<le> n" "n div e * e \<le> n"
    unfolding distrib_right mult_1 by linarith+
  have now: "now < ds + secs (n + 1)"
  proof (cases "ds \<le> now")
    case True
    then show ?thesis using num_seconds_bounds [of "now - ds"] n(2)
      by (simp add: n_def max_def split: if_splits) (smt (verit) secs_mono)
  next
    case False
    then show ?thesis using n(2) by (simp add: secs_def)
  qed
  also have "secs (n + 1) \<le> secs (first_slot now ds e)" using n(1) by (simp add: s)
  finally show "now < ds + secs (first_slot now ds e)" by simp
  have "0 \<le> n div e" using n(2) assms by (simp add: pos_imp_zdiv_nonneg_iff)
  then show "\<exists>k\<ge>1. first_slot now ds e = k * e" unfolding s by (intro exI [of _ "n div e + 1"]) simp
  assume k: "1 \<le> k" "now < ds + secs (k * e)"
  have "n < k * e"
  proof (cases "ds \<le> now")
    case True
    then have "secs n \<le> now - ds"
      using num_seconds_bounds [of "now - ds"] by (simp add: n_def max_def secs_def)
    then have "secs n < secs (k * e)" using k(2) by linarith
    then show ?thesis by simp
  next
    case False
    then have "n = 0" by (simp add: n_def num_seconds_def trunc_div_def max_def sgn_if)
    then show ?thesis using k assms by (simp add: mult_pos_pos)
  qed
  then have "n div e < k" using assms by (meson n(3) le_less_trans mult_less_cancel_right_pos)
  then show "first_slot now ds e \<le> k * e" using assms by (simp add: s)
qed

lemma next_interval_at:
  assumes ds: "day_start_berlin tz (local_date tz now) = Returns ds" and e: "0 < as_secs_i64 every"
    and i: "i \<le> SCAN_LIMIT"
    and before: "\<forall>j<i. \<not> slot_allowed tz days from to
        (ds + secs (first_slot now ds (as_secs_i64 every) + int j * as_secs_i64 every))"
    and hit: "i < SCAN_LIMIT \<longrightarrow> slot_allowed tz days from to
        (ds + secs (first_slot now ds (as_secs_i64 every) + int i * as_secs_i64 every))"
    and range: "tz_min tz \<le> ds" "m \<le> 9223372036854775" "ds + secs m \<le> tz_max tz"
      "first_slot now ds (as_secs_i64 every) + int i * as_secs_i64 every \<le> m"
  shows "next_interval tz now every days from to =
    Returns (ds + secs (first_slot now ds (as_secs_i64 every) + int i * as_secs_i64 every))"
proof -
  define s where "s = first_slot now ds (as_secs_i64 every)"
  define e where "e = as_secs_i64 every"
  have s0: "0 \<le> s" using first_slot(2) [OF e, of now ds] e by (auto simp: s_def)
  have ok: "plus_seconds tz ds (s + int j * e) = Returns (ds + secs (s + int j * e))" if "j \<le> i" for j
  proof (rule plus_seconds_between [where m = m])
    have "int j * e \<le> int i * e" "0 \<le> int j * e"
      using that assms(2) by (simp_all add: e_def mult_right_mono)
    then show "0 \<le> s + int j * e" "s + int j * e \<le> m"
      using s0 range(4) by (simp_all add: s_def e_def)
  qed (use range in simp_all)
  have "scan_slots SCAN_LIMIT tz ds e days from to s (ds + secs s) = Returns (ds + secs (s + int i * e))"
    by (rule scan_slots_eq) (use i before hit ok in \<open>auto simp: s_def e_def\<close>)
  then show ?thesis
    using ok [of 0] unfolding next_interval_eq [OF ds assms(2)] s_def e_def by simp
qed

text \<open>The slots after now are the first one and those at whole intervals after it.\<close>

lemma slots_after:
  assumes e: "0 < as_secs_i64 every" and s: "is_slot ds every s" "now < s"
  shows "\<exists>i. s = ds + secs (first_slot now ds (as_secs_i64 every) + int i * as_secs_i64 every)"
proof -
  obtain k where k: "1 \<le> k" "s = ds + secs (k * as_secs_i64 every)" using s(1) by (auto simp: is_slot_def)
  obtain f where f: "1 \<le> f" "first_slot now ds (as_secs_i64 every) = f * as_secs_i64 every"
    using first_slot(2) [OF e] by blast
  have "f \<le> k" using first_slot(3) [OF e k(1), of now ds] s(2) k(2) e by (simp add: f(2))
  then have "k * as_secs_i64 every = f * as_secs_i64 every + int (nat (k - f)) * as_secs_i64 every"
    by (simp add: algebra_simps)
  then show ?thesis using k(2) f(2) by metis
qed

text \<open>
  The seconds of an interval that validation accepts and that fits the signed integers are the
  seconds that are configured.
\<close>

lemma as_secs_i64_eq: "d div 1000000000 < 2 ^ 63 \<Longrightarrow> as_secs_i64 d = d div 1000000000"
  by (simp add: as_secs_i64_def Let_def)

section \<open>Dates of a calendar trigger\<close>

definition resolve :: "Zone \<Rightarrow> int \<Rightarrow> instant option" where
  "resolve tz naive =
     (case tz_from_local tz naive of
        Single t \<Rightarrow> Some t
      | Ambiguous t1 _ \<Rightarrow> Some t1
      | NoLocal \<Rightarrow> single (tz_from_local tz (naive + hours 1)))"

lemma single_Some: "single r = Some t \<longleftrightarrow> r = Single t"
  by (cases r) auto

lemma resolve_ok:
  assumes "zone_ok tz"
  obtains t where "resolve tz n = Some t" "calendar_candidate tz now n = t"
    "n \<le> tz_local tz t" "tz_local tz t \<le> n + hours 1"
proof (cases "tz_from_local tz n")
  case (Single t)
  then have "tz_local tz t = n" using assms by (simp add: zone_ok_def)
  then show thesis using that [of t] Single by (simp add: resolve_def calendar_candidate_def time_simps)
next
  case (Ambiguous a b)
  then have "tz_local tz a = n" using assms unfolding zone_ok_def by metis
  then show thesis using that [of a] Ambiguous by (simp add: resolve_def calendar_candidate_def time_simps)
next
  case NoLocal
  then obtain t where t: "tz_from_local tz (n + hours 1) = Single t"
    using assms by (fastforce simp: zone_ok_def single_Some)
  then have "tz_local tz t = n + hours 1" using assms by (simp add: zone_ok_def)
  then show thesis using that [of t] NoLocal t by (simp add: resolve_def calendar_candidate_def time_simps)
qed

lemma local_bounds:
  assumes "zone_ok tz"
  shows "t \<le> tz_local tz t" and "tz_local tz t \<le> t + hours 3"
proof -
  have "0 \<le> tz_local tz t - t \<and> tz_local tz t - t \<le> hours 3"
    using assms unfolding zone_ok_def by blast
  then show "t \<le> tz_local tz t" "tz_local tz t \<le> t + hours 3" by linarith+
qed

text \<open>The day starts that the interval trigger anchors to always exist.\<close>

lemma day_start_ok: "zone_ok tz \<Longrightarrow> \<exists>ds. day_start_berlin tz d = Returns ds \<and> resolve tz (d * day_ns) = Some ds"
  by (rule resolve_ok [of tz "d * day_ns"])
    (auto simp: day_start_berlin_def resolve_def Let_def split: LocalResult.splits)

lemma day_ns_value: "day_ns = 86400000000000" "hours 1 = 3600000000000" "hours 3 = 10800000000000"
  by (simp_all add: day_ns_def time_simps)

lemma date_bounds: "local_date tz t * day_ns \<le> tz_local tz t" "tz_local tz t < (local_date tz t + 1) * day_ns"
  by (simp_all add: local_date_def day_ns_value)

lemma resolve_mono:
  assumes "zone_ok tz" and "resolve tz n = Some a" and "resolve tz m = Some b" and "n + day_ns \<le> m"
  shows "a < b"
proof -
  obtain "tz_local tz a \<le> n + hours 1" using resolve_ok [OF assms(1), of n] assms(2) by (metis option.inject)
  moreover obtain "m \<le> tz_local tz b" using resolve_ok [OF assms(1), of m] assms(3) by (metis option.inject)
  ultimately show ?thesis
    using local_bounds(1) [OF assms(1), of a] local_bounds(2) [OF assms(1), of b] assms(4)
    unfolding day_ns_value by linarith
qed

text \<open>Every weekday occurs among the seven days after a date.\<close>

lemma weekday_within: "\<exists>d. b < d \<and> d \<le> b + 7 \<and> weekday_of d = w"
proof -
  define i where "i = (case w of Mon \<Rightarrow> 0 :: int | Tue \<Rightarrow> 1 | Wed \<Rightarrow> 2 | Thu \<Rightarrow> 3 | Fri \<Rightarrow> 4 | Sat \<Rightarrow> 5 | Sun \<Rightarrow> 6)"
  define d where "d = b + 1 + (i - (b + 4)) mod 7"
  have i: "0 \<le> i" "i < 7" by (cases w; simp add: i_def)+
  have "(d + 3) mod 7 = (b + 4 + (i - (b + 4)) mod 7) mod 7" by (simp add: d_def algebra_simps)
  also have "\<dots> = i mod 7" by (simp add: mod_simps)
  also have "\<dots> = i" using i by simp
  finally have "weekday_of d = w" by (cases w; simp add: weekday_of_def i_def)
  moreover have "b < d" "d \<le> b + 7"
    using pos_mod_bound [of 7 "i - (b + 4)"] pos_mod_sign [of 7 "i - (b + 4)"] by (simp_all add: d_def)
  ultimately show ?thesis by blast
qed

lemma scan_dates_first:
  assumes "\<exists>d\<in>set ds. allows days (weekday_of d) \<and> now < calendar_candidate tz now (d * day_ns + a)"
    and "sorted_wrt (<) ds"
  shows "\<exists>d\<in>set ds. scan_dates tz now days a ds = Some (calendar_candidate tz now (d * day_ns + a)) \<and>
    allows days (weekday_of d) \<and> now < calendar_candidate tz now (d * day_ns + a) \<and>
    (\<forall>d'\<in>set ds. d' < d \<longrightarrow> allows days (weekday_of d') \<longrightarrow> \<not> now < calendar_candidate tz now (d' * day_ns + a))"
  using assms by (induction ds) (auto simp: Let_def)
lemma later_date_later:
  assumes "zone_ok tz" and "local_date tz now < d" and "0 \<le> a" and "resolve tz (d * day_ns + a) = Some t"
  shows "now < t"
proof -
  have "d * day_ns + a \<le> tz_local tz t" using resolve_ok [OF assms(1), of "d * day_ns + a"] assms(4)
    by (metis option.inject)
  then have "d * day_ns \<le> tz_local tz t" using assms(3) by linarith
  then have "d * day_ns < (local_date tz t + 1) * day_ns" using date_bounds(2) [of tz t] by linarith
  then have "d \<le> local_date tz t" by (simp add: day_ns_value)
  moreover have "\<forall>t u. t \<le> u \<longrightarrow> local_date tz t \<le> local_date tz u" using assms(1) unfolding zone_ok_def by blast
  ultimately show ?thesis using assms(2) by (metis leD le_less_linear le_less_trans order.strict_trans2)
qed

lemma candidate_resolve:
  assumes "zone_ok tz"
  shows "resolve tz n = Some (calendar_candidate tz now n)"
  by (rule resolve_ok [OF assms, of n now]) simp

lemma calendar_first:
  assumes "zone_ok tz" and "0 \<le> at_time" and "at_time < day_ns"
  shows "\<exists>d t. next_fire_after tz (Calendar days at_time) now = Returns t \<and>
    local_date tz now \<le> d \<and> d \<le> local_date tz now + 7 \<and> allows days (weekday_of d) \<and>
    resolve tz (d * day_ns + at_time) = Some t \<and> now < t \<and>
    (\<forall>d' u. local_date tz now \<le> d' \<and> allows days (weekday_of d') \<and>
       resolve tz (d' * day_ns + at_time) = Some u \<and> now < u \<longrightarrow> t \<le> u)"
proof -
  define b where "b = local_date tz now"
  define c where "c d = calendar_candidate tz now (d * day_ns + at_time)" for d
  define ds where "ds = map (\<lambda>offset. b + offset) [0..7]"
  have ds: "set ds = {b..b + 7}" "sorted_wrt (<) ds" by (auto simp: ds_def upto.simps)
  have c: "resolve tz (d * day_ns + at_time) = Some (c d)" for d
    unfolding c_def by (rule candidate_resolve [OF assms(1)])
  have late: "now < c d" if "b < d" for d
    by (rule later_date_later [OF assms(1) _ assms(2) c]) (use that in \<open>simp add: b_def\<close>)
  obtain w where w: "allows days w" by (auto simp: allows_def)
  obtain d0 where "b < d0" "d0 \<le> b + 7" "weekday_of d0 = w" using weekday_within by blast
  then have "\<exists>d\<in>set ds. allows days (weekday_of d) \<and> now < calendar_candidate tz now (d * day_ns + at_time)"
    using w late by (intro bexI [of _ d0]) (simp_all add: ds c_def [symmetric])
  from scan_dates_first [OF this ds(2)] obtain d where d: "b \<le> d" "d \<le> b + 7"
      "scan_dates tz now days at_time ds = Some (c d)" "allows days (weekday_of d)" "now < c d"
      "\<And>d'. b \<le> d' \<Longrightarrow> d' < d \<Longrightarrow> allows days (weekday_of d') \<Longrightarrow> \<not> now < c d'"
    unfolding c_def [symmetric] by (auto simp: ds)
  have fire: "next_fire_after tz (Calendar days at_time) now = Returns (c d)"
    using d(3) by (simp add: next_calendar_def Let_def ds_def b_def)
  have least: "c d \<le> u" if "b \<le> d'" "allows days (weekday_of d')" "resolve tz (d' * day_ns + at_time) = Some u" "now < u" for d' u
  proof -
    have u: "u = c d'" using that(3) c by simp
    show ?thesis
    proof (cases "d' \<le> d")
      case True
      then show ?thesis using d(6) [of d'] that u by force
    next
      case False
      then have "c d < c d'" by (intro resolve_mono [OF assms(1) c c]) (simp add: day_ns_value)
      then show ?thesis using u by simp
    qed
  qed
  show ?thesis using fire d c [of d] least unfolding b_def [symmetric] by blast
qed

section \<open>Whole seconds\<close>

lemma local_whole: "zone_ok tz \<Longrightarrow> tz_local tz t mod secs 1 = t mod secs 1"
proof -
  assume "zone_ok tz"
  then have "(tz_local tz t - t) mod secs 1 = 0" unfolding zone_ok_def by blast
  then show ?thesis using mod_add_left_eq [of "tz_local tz t - t" "secs 1" t] by simp
qed

lemma plus_whole: "(t + secs n) mod secs 1 = t mod secs 1"
  by (simp add: secs_def)

lemma whole_gap:
  assumes "st mod secs 1 = 0" and "t mod secs 1 = 0" and "st - secs 1 < t"
  shows "st \<le> t"
proof -
  obtain a b where "st = secs a" "t = secs b"
    using assms(1,2) by (auto simp: secs_def elim!: dvdE simp flip: dvd_eq_mod_eq_0)
  moreover then have "secs (a - 1) < secs b" using assms(3) by (simp add: secs_def)
  ultimately show ?thesis by simp
qed

lemma resolve_whole:
  assumes "zone_ok tz" and "resolve tz n = Some t" and "n mod secs 1 = 0"
  shows "t mod secs 1 = 0"
proof -
  have "tz_local tz t = n \<or> tz_local tz t = n + hours 1"
    using assms(1,2) unfolding resolve_def zone_ok_def
    by (auto split: LocalResult.splits simp: single_Some)
  then have "tz_local tz t mod secs 1 = 0" using assms(3) by (auto simp: time_simps mod_simps)
  then show ?thesis using local_whole [OF assms(1)] by simp
qed

lemma scan_slots_shape:
  "scan_slots n tz ds e days from to slot (ds + secs slot) = Returns t \<Longrightarrow> \<exists>j. t = ds + secs (slot + int j * e)"
proof (induction n arbitrary: slot)
  case 0
  then show ?case by (auto intro: exI [of _ 0])
next
  case (Suc n)
  show ?case
  proof (cases "slot_allowed tz days from to (ds + secs slot)")
    case True
    then show ?thesis using Suc.prems by (auto intro: exI [of _ 0])
  next
    case False
    then have "scan_slots n tz ds e days from to (slot + e) (ds + secs (slot + e)) = Returns t"
      using Suc.prems by (auto simp: Let_def plus_seconds_def split: if_splits)
    from Suc.IH [OF this] obtain j where "t = ds + secs (slot + int (Suc j) * e)" by (auto simp: algebra_simps)
    then show ?thesis by blast
  qed
qed

lemma next_interval_shape:
  assumes "zone_ok tz" and "0 < as_secs_i64 every" and "next_interval tz now every days from to = Returns t"
  shows "now < t \<and> t mod secs 1 = 0"
proof -
  obtain ds where ds: "day_start_berlin tz (local_date tz now) = Returns ds"
      "resolve tz (local_date tz now * day_ns) = Some ds"
    using day_start_ok [OF assms(1)] by blast
  let ?f = "first_slot now ds (as_secs_i64 every)"
  have "scan_slots SCAN_LIMIT tz ds (as_secs_i64 every) days from to ?f (ds + secs ?f) = Returns t"
    using assms(3) unfolding next_interval_eq [OF ds(1) assms(2)] plus_seconds_def by (auto split: if_splits)
  then obtain j where t: "t = ds + secs (?f + int j * as_secs_i64 every)" using scan_slots_shape by blast
  have "ds mod secs 1 = 0" by (rule resolve_whole [OF assms(1) ds(2)]) (simp add: time_simps)
  then have "t mod secs 1 = 0" unfolding t plus_whole .
  moreover have "secs ?f \<le> secs (?f + int j * as_secs_i64 every)" using assms(2) by simp
  then have "ds + secs ?f \<le> t" by (simp add: t)
  then have "now < t" using first_slot(1) [OF assms(2), of now ds] by linarith
  ultimately show ?thesis by simp
qed

lemma next_fire_shape:
  assumes "zone_ok tz" and "validate_interval prfx trigger = []"
    and "\<And>every days from to. trigger = Interval every days from to \<Longrightarrow> every div 1000000000 < 2 ^ 63"
    and "\<And>days at_time. trigger = Calendar days at_time \<Longrightarrow>
      0 \<le> at_time \<and> at_time < day_ns \<and> at_time mod secs 1 = 0"
    and "next_fire_after tz trigger now = Returns t"
  shows "now < t \<and> t mod secs 1 = 0"
proof (cases trigger)
  case (Interval every days active_from active_to)
  then have "0 < as_secs_i64 every"
    using assms(2) assms(3) [OF Interval] by (simp add: as_secs_i64_eq validate_interval_def split: if_splits)
  from next_interval_shape [OF assms(1) this] show ?thesis using assms(5) Interval by auto
next
  case (Calendar days at_time)
  note a = assms(4) [OF Calendar]
  obtain d u where "next_fire_after tz trigger now = Returns u" "resolve tz (d * day_ns + at_time) = Some u" "now < u"
    using calendar_first [OF assms(1), of at_time days now] a unfolding Calendar by blast
  moreover have "(d * day_ns + at_time) mod secs 1 = 0"
    using a by (simp add: time_simps mod_add_eq [symmetric])
  ultimately show ?thesis using resolve_whole [OF assms(1)] assms(5) by auto
qed

text \<open>The instant from which a schedule looks for its next firing.\<close>

definition fire_from :: "Schedule \<Rightarrow> Zone \<Rightarrow> instant \<Rightarrow> instant" where
  "fire_from s tz now = (case fire_anchor tz s now of Returns a \<Rightarrow> a | Panics \<Rightarrow> now)"

section \<open>Properties\<close>

definition cet :: Zone where
  "cet = \<lparr>tz_local = (\<lambda>t. t + hours 1), tz_from_local = (\<lambda>n. Single (n - hours 1)),
          tz_min = - secs 8000000000000, tz_max = secs 8000000000000\<rparr>"

lemma cet_ok: "zone_ok cet"
  by (auto simp: zone_ok_def cet_def time_simps local_date_def intro: zdiv_mono1)


text \<open>
  A window that ends when it starts is accepted by the validation although no time is in
  it, and the trigger still fires: after the scan of two weeks of minutes it returns the slot where
  the scan stopped, which is outside the window.
\<close>

theorem empty_window_still_fires:
  assumes "day_start_berlin tz (local_date tz now) = Returns ds" and "60 \<le> every div 1000000000"
    and "every div 1000000000 < 2 ^ 63" and "tz_min tz \<le> ds"
    and "stop = first_slot now ds (every div 1000000000) + int SCAN_LIMIT * (every div 1000000000)"
    and "stop \<le> 9223372036854775" and "ds + secs stop \<le> tz_max tz"
  shows "validate_interval prfx (Interval every days (Some f) (Some f)) = [] \<and>
    next_fire_after tz (Interval every days (Some f) (Some f)) now = Returns (ds + secs stop) \<and>
    (\<forall>t. \<not> slot_allowed tz days (Some f) (Some f) t)"
proof -
  have ev: "as_secs_i64 every = every div 1000000000" using assms(3) by (simp add: as_secs_i64_eq)
  have none: "\<not> slot_allowed tz days (Some f) (Some f) t" for t
    by (simp add: slot_allowed_def in_window_def)
  have "next_interval tz now every days (Some f) (Some f) =
      Returns (ds + secs (first_slot now ds (as_secs_i64 every) + int SCAN_LIMIT * as_secs_i64 every))"
    by (rule next_interval_at [OF assms(1) _ _ _ _ assms(4,6,7)]) (use assms none in \<open>simp_all add: ev\<close>)
  then show ?thesis using assms none by (simp add: ev validate_interval_def)
qed

theorem empty_window_still_fires_witness:
  "next_fire_after cet (Interval (minutes 1) {} (Some 0) (Some 0)) 0 =
     Returns (minutes (14 * 1440 + 1))"
  using empty_window_still_fires [of cet 0 "- hours 1" "minutes 1" "3600 + 60 * (14 * 1440 + 1)" "[]" "{}" 0]
  by (simp add: cet_def local_date_def day_start_berlin_def day_ns_def time_simps first_slot_def SCAN_LIMIT_def
      num_seconds_def trunc_div_def)

text \<open>
  A calendar trigger fires at an allowed weekday within the next seven days, at its time
  (or an hour later where the clock skips it), strictly after now, and at the first such instant of
  all days from today on; in particular its fallback is never used.
\<close>

theorem calendar_next_date:
  assumes "zone_ok tz" and "0 \<le> at_time" and "at_time < day_ns"
  shows "\<exists>d t. next_fire_after tz (Calendar days at_time) now = Returns t \<and>
    local_date tz now \<le> d \<and> d \<le> local_date tz now + 7 \<and> allows days (weekday_of d) \<and>
    resolve tz (d * day_ns + at_time) = Some t \<and> now < t \<and>
    (\<forall>d' u. local_date tz now \<le> d' \<and> allows days (weekday_of d') \<and>
       resolve tz (d' * day_ns + at_time) = Some u \<and> now < u \<longrightarrow> t \<le> u)"
  by (rule calendar_first [OF assms])

theorem calendar_next_date_witness:
  "\<exists>t. next_fire_after cet (Calendar {Thu} (hours 20)) (hours 20) = Returns t \<and> hours 20 < t"
  using calendar_next_date [OF cet_ok, of "hours 20" "{Thu}" "hours 20"] by (force simp: time_simps)

text \<open>
  Claim C30. Whenever a validated schedule reports its next firing, that lies strictly after now, not
  before the midnight that begins its start date and not after the last second of its end date; with
  these two instants unique, and times of whole seconds. It does not end before its end date: a
  schedule is over only when its trigger next fires after the end.
\<close>

theorem active_fire_in_dates:
  assumes "zone_ok tz" and "validate_schedule show_chars show_date prfx s = []"
    and "\<And>every days from to. sc_trigger s = Interval every days from to \<Longrightarrow> every div 1000000000 < 2 ^ 63"
    and "\<And>days at_time. sc_trigger s = Calendar days at_time \<Longrightarrow>
      0 \<le> at_time \<and> at_time < day_ns \<and> at_time mod secs 1 = 0"
    and "next_active_fire tz s now = Returns r"
  shows "(\<forall>t. r = Some t \<longrightarrow> now < t \<and>
      (\<forall>start. sc_start_date s = Some start \<longrightarrow> the (start_dt tz start) \<le> t) \<and>
      (\<forall>stop. sc_end_date s = Some stop \<longrightarrow> t \<le> the (end_dt tz stop))) \<and>
    (r = None \<longrightarrow> (\<exists>stop fire. sc_end_date s = Some stop \<and> the (end_dt tz stop) < fire \<and> now < fire \<and>
      fire_anchor tz s now = Returns (fire_from s tz now) \<and>
      next_fire_after tz (sc_trigger s) (fire_from s tz now) = Returns fire))"
proof -
  have valid: "validate_interval prfx (sc_trigger s) = []" using assms(2) by (simp add: validate_schedule_def)
  obtain a where a: "fire_anchor tz s now = Returns a"
    using assms(5) by (cases "fire_anchor tz s now") (simp_all add: next_active_fire_def)
  obtain t where t: "next_fire_after tz (sc_trigger s) a = Returns t"
    using assms(5) a by (cases "next_fire_after tz (sc_trigger s) a") (simp_all add: next_active_fire_def)
  have at: "a < t \<and> t mod secs 1 = 0" by (rule next_fire_shape [OF assms(1) valid assms(3,4) t])
  have from_a: "fire_from s tz now = a" using a by (simp add: fire_from_def)
  have start: "st \<le> t \<and> now < t" if "sc_start_date s = Some d" "start_dt tz d = Some st" for d st
  proof -
    have "resolve tz (d * day_ns) = Some st" using that(2) by (simp add: start_dt_def single_Some resolve_def)
    then have "st mod secs 1 = 0" by (rule resolve_whole [OF assms(1)]) (simp add: time_simps)
    then have "st - secs 1 < t \<Longrightarrow> st \<le> t" by (rule whole_gap [OF _ conjunct2 [OF at]])
    moreover have "a = (if now < st then st - secs 1 else now)" using a that by (simp add: fire_anchor_def)
    ultimately show ?thesis using at by (simp split: if_splits)
  qed
  have now: "now < t"
    using start a at by (auto simp: fire_anchor_def split: option.splits)
  have starts: "the (start_dt tz d) \<le> t" if "sc_start_date s = Some d" for d
    using start [OF that] a that by (auto simp: fire_anchor_def split: option.splits)
  show ?thesis
  proof (cases "sc_end_date s")
    case None
    then have "r = Some t" using assms(5) a t by (simp add: next_active_fire_def)
    then show ?thesis using None now starts by simp
  next
    case (Some d)
    then obtain e where e: "end_dt tz d = Some e" "r = (if t > e then None else Some t)"
      using assms(5) a t by (cases "end_dt tz d") (simp_all add: next_active_fire_def)
    show ?thesis
    proof (cases "t > e")
      case True
      then show ?thesis using e Some now t a from_a by auto
    next
      case False
      then show ?thesis using e Some now starts by simp
    qed
  qed
qed

theorem active_fire_in_dates_witness:
  "\<exists>t. next_active_fire cet \<lparr>sc_name = [120], sc_message = [121], sc_trigger = Calendar {} (hours 9),
     sc_start_date = Some 3, sc_end_date = Some 3, sc_enabled = True\<rparr> 0 = Returns (Some t) \<and>
     3 * day_ns - hours 1 \<le> t \<and> t \<le> 3 * day_ns + hours 23"
proof -
  let ?s = "\<lparr>sc_name = [120], sc_message = [121], sc_trigger = Calendar {} (hours 9),
     sc_start_date = Some 3, sc_end_date = Some 3, sc_enabled = True\<rparr>"
  have fire: "next_active_fire cet ?s 0 = Returns (Some (3 * day_ns + hours 8))"
    by (simp add: next_active_fire_def fire_anchor_def start_dt_def end_dt_def cet_def next_calendar_def Let_def
        local_date_def time_simps upto.simps allows_def calendar_candidate_def)
  show ?thesis
    using active_fire_in_dates [OF cet_ok, of "\<lambda>_. []" "\<lambda>_. []" "[]" ?s 0 "Some (3 * day_ns + hours 8)"] fire
    by (simp add: validate_schedule_def validate_interval_def reserved_name_char_def is_control_def text_eval
        start_dt_def end_dt_def cet_def time_simps)
qed

end
