(* ===== verification/Settings_Types.thy ===== *)
theory Settings_Types imports Schedule_Trigger begin

text \<open>
  \<^verbatim>\<open>settings/mod.rs\<close> and the files of its sections: the settings of the bot as the commands read them and
  their compiled defaults. \<^verbatim>\<open>u64\<close>, \<^verbatim>\<open>usize\<close> and byte sizes are natural numbers; where the code computes
  with them, the wrap-around is written out there. The threshold of the prefill is compared bit by
  bit in the code; as a rational number it has one representation.
\<close>

section \<open>Settings\<close>

datatype AiBackendKind = OpenAi | Ollama

record Cooldowns =
  cool_ai :: nat
  cool_news :: nat
  cool_up :: nat
  cool_feedback :: nat
  cool_doener :: nat

record PingsSettings =
  png_cooldown :: nat
  png_public :: bool

record AiConnection =
  conn_backend :: AiBackendKind
  conn_base_url :: "rstr option"
  conn_model :: rstr
  conn_timeout :: nat
  conn_reasoning_effort :: "rstr option"
  conn_service_tier :: "rstr option"

record AiBehavior =
  beh_max_turn_rounds :: nat
  beh_max_writes_per_turn :: nat
  beh_persona_name :: rstr

record AiHistory =
  hist_length :: nat
  hist_ai_channel_length :: nat

record AiMemory =
  mem_soul_bytes :: nat
  mem_lore_bytes :: nat
  mem_user_bytes :: nat
  mem_state_bytes :: nat
  mem_inject_byte_budget :: nat
  mem_max_state_files :: nat

record AiDreamer =
  drm_enabled :: bool
  drm_model :: "rstr option"
  drm_reasoning_effort :: "rstr option"
  drm_service_tier :: "rstr option"
  drm_run_at :: rstr
  drm_timeout_secs :: nat
  drm_max_rounds :: nat
  drm_max_writes_per_turn :: nat

record AiPrefill =
  pre_base_url :: rstr
  pre_threshold :: f64

record AiWeb =
  aweb_base_url :: rstr
  aweb_timeout :: nat
  aweb_max_results :: nat
  aweb_max_rounds :: nat
  aweb_cache_ttl_secs :: nat
  aweb_cache_capacity :: nat

record AiEmotes =
  emo_include_global :: bool
  emo_refresh_interval_secs :: nat
  emo_max_prompt_emotes :: nat
  emo_min_baseline_emotes :: nat
  emo_pinned_emotes :: "rstr list"
  emo_base_url :: "rstr option"

record AiMedia =
  med_model :: rstr
  med_timeout :: nat
  med_max_image_size :: nat
  med_max_pdf_size :: nat
  med_max_audio_size :: nat
  med_max_video_size :: nat
  med_max_text_size :: nat

record TwitchRuntime =
  twi_expected_latency :: nat
  twi_hidden_admins :: "rstr list"
  twi_viewer_allowlist :: "rstr list"
  twi_admin_channel :: "rstr option"
  twi_ai_channel :: "rstr option"

record AviationstackSettings =
  avs_enabled :: bool
  avs_base_url :: rstr
  avs_timeout_secs :: nat

record SuspendSettings =
  sus_default_duration_secs :: nat

record WebRuntime =
  wrt_session_ttl_secs :: nat
  wrt_mod_check_refresh_secs :: nat

record AiSettings =
  ai_connection :: AiConnection
  ai_behavior :: AiBehavior
  ai_history :: AiHistory
  ai_memory :: AiMemory
  ai_dreamer :: AiDreamer
  ai_prefill :: "AiPrefill option"
  ai_web :: "AiWeb option"
  ai_emotes :: "AiEmotes option"
  ai_media :: AiMedia

record Settings =
  st_schema_version :: nat
  st_cooldowns :: Cooldowns
  st_pings :: PingsSettings
  st_ai :: AiSettings
  st_twitch :: TwitchRuntime
  st_aviationstack :: AviationstackSettings
  st_suspend :: SuspendSettings
  st_web :: WebRuntime
  st_schedules :: "Schedule list"

definition SCHEMA_VERSION :: nat where "SCHEMA_VERSION = 4"

section \<open>Defaults\<close>

definition default_Cooldowns :: Cooldowns where
  "default_Cooldowns =
     \<lparr>cool_ai = 30,
      cool_news = 60,
      cool_up = 30,
      cool_feedback = 300,
      cool_doener = 30\<rparr>"

definition default_PingsSettings :: PingsSettings where
  "default_PingsSettings =
     \<lparr>png_cooldown = 300,
      png_public = False\<rparr>"

definition default_AiConnection :: AiConnection where
  "default_AiConnection =
     \<lparr>conn_backend = OpenAi,
      conn_base_url = None,
      conn_model = [],
      conn_timeout = 30,
      conn_reasoning_effort = None,
      conn_service_tier = None\<rparr>"

definition default_AiBehavior :: AiBehavior where
  "default_AiBehavior =
     \<lparr>beh_max_turn_rounds = 4,
      beh_max_writes_per_turn = 8,
      beh_persona_name = str ''Aurora''\<rparr>"

definition default_AiHistory :: AiHistory where
  "default_AiHistory =
     \<lparr>hist_length = 200,
      hist_ai_channel_length = 50\<rparr>"

definition default_AiMemory :: AiMemory where
  "default_AiMemory =
     \<lparr>mem_soul_bytes = 4096,
      mem_lore_bytes = 12288,
      mem_user_bytes = 4096,
      mem_state_bytes = 2048,
      mem_inject_byte_budget = 24576,
      mem_max_state_files = 16\<rparr>"

definition default_AiDreamer :: AiDreamer where
  "default_AiDreamer =
     \<lparr>drm_enabled = True,
      drm_model = None,
      drm_reasoning_effort = None,
      drm_service_tier = None,
      drm_run_at = str ''04:00'',
      drm_timeout_secs = 120,
      drm_max_rounds = 20,
      drm_max_writes_per_turn = 32\<rparr>"

definition default_AiPrefill :: AiPrefill where
  "default_AiPrefill =
     \<lparr>pre_base_url = str ''https://logs.zonian.dev'',
      pre_threshold = 1 / 2\<rparr>"

definition default_AiWeb :: AiWeb where
  "default_AiWeb =
     \<lparr>aweb_base_url = str ''http://localhost:8080/search'',
      aweb_timeout = 15,
      aweb_max_results = 5,
      aweb_max_rounds = 3,
      aweb_cache_ttl_secs = 300,
      aweb_cache_capacity = 100\<rparr>"

definition default_AiEmotes :: AiEmotes where
  "default_AiEmotes =
     \<lparr>emo_include_global = True,
      emo_refresh_interval_secs = 3600,
      emo_max_prompt_emotes = 20,
      emo_min_baseline_emotes = 4,
      emo_pinned_emotes = [str ''PepeLa'', str ''okjj''],
      emo_base_url = None\<rparr>"

definition default_AiMedia :: AiMedia where
  "default_AiMedia =
     \<lparr>med_model = str ''~google/gemini-flash-latest'',
      med_timeout = 60,
      med_max_image_size = 10 * 1048576,
      med_max_pdf_size = 25 * 1048576,
      med_max_audio_size = 25 * 1048576,
      med_max_video_size = 50 * 1048576,
      med_max_text_size = 1048576\<rparr>"

definition default_TwitchRuntime :: TwitchRuntime where
  "default_TwitchRuntime =
     \<lparr>twi_expected_latency = 100,
      twi_hidden_admins = [],
      twi_viewer_allowlist = [],
      twi_admin_channel = None,
      twi_ai_channel = None\<rparr>"

definition default_AviationstackSettings :: AviationstackSettings where
  "default_AviationstackSettings =
     \<lparr>avs_enabled = False,
      avs_base_url = str ''https://api.aviationstack.com/v1'',
      avs_timeout_secs = 5\<rparr>"

definition default_SuspendSettings :: SuspendSettings where
  "default_SuspendSettings =
     \<lparr>sus_default_duration_secs = 600\<rparr>"

definition default_WebRuntime :: WebRuntime where
  "default_WebRuntime =
     \<lparr>wrt_session_ttl_secs = 7 * 24 * 60 * 60,
      wrt_mod_check_refresh_secs = 300\<rparr>"

definition default_AiSettings :: AiSettings where
  "default_AiSettings =
     \<lparr>ai_connection = default_AiConnection,
      ai_behavior = default_AiBehavior,
      ai_history = default_AiHistory,
      ai_memory = default_AiMemory,
      ai_dreamer = default_AiDreamer,
      ai_prefill = None,
      ai_web = None,
      ai_emotes = None,
      ai_media = default_AiMedia\<rparr>"

definition compiled_defaults :: Settings where
  "compiled_defaults =
     \<lparr>st_schema_version = SCHEMA_VERSION, st_cooldowns = default_Cooldowns, st_pings = default_PingsSettings,
      st_ai = default_AiSettings, st_twitch = default_TwitchRuntime,
      st_aviationstack = default_AviationstackSettings, st_suspend = default_SuspendSettings,
      st_web = default_WebRuntime, st_schedules = []\<rparr>"

end
