(* ===== verification/Settings_Overrides.thy ===== *)
theory Settings_Overrides imports Settings_Types begin

text \<open>
  \<^verbatim>\<open>settings/overrides.rs\<close> and \<^verbatim>\<open>settings/store/merge.rs\<close>: the sparse overrides that are stored on disk and
  that the dashboard submits as patches, and the merge of a patch.
\<close>

section \<open>Overrides\<close>

text \<open>
  A field of an optional setting is overridden by an optional value: \<^term>\<open>Some None\<close> clears it.
\<close>

record CooldownsOverrides =
  ocool_ai :: "nat option"
  ocool_news :: "nat option"
  ocool_up :: "nat option"
  ocool_feedback :: "nat option"
  ocool_doener :: "nat option"

record PingsOverrides =
  opng_cooldown :: "nat option"
  opng_public :: "bool option"

record AiConnectionOverrides =
  oconn_backend :: "AiBackendKind option"
  oconn_base_url :: "rstr option option"
  oconn_model :: "rstr option"
  oconn_timeout :: "nat option"
  oconn_reasoning_effort :: "rstr option option"
  oconn_service_tier :: "rstr option option"

record AiBehaviorOverrides =
  obeh_max_turn_rounds :: "nat option"
  obeh_max_writes_per_turn :: "nat option"
  obeh_persona_name :: "rstr option"

record AiHistoryOverrides =
  ohist_length :: "nat option"
  ohist_ai_channel_length :: "nat option"

record AiMemoryOverrides =
  omem_soul_bytes :: "nat option"
  omem_lore_bytes :: "nat option"
  omem_user_bytes :: "nat option"
  omem_state_bytes :: "nat option"
  omem_inject_byte_budget :: "nat option"
  omem_max_state_files :: "nat option"

record AiDreamerOverrides =
  odrm_enabled :: "bool option"
  odrm_model :: "rstr option option"
  odrm_reasoning_effort :: "rstr option option"
  odrm_service_tier :: "rstr option option"
  odrm_run_at :: "rstr option"
  odrm_timeout_secs :: "nat option"
  odrm_max_rounds :: "nat option"
  odrm_max_writes_per_turn :: "nat option"

record AiPrefillOverrides =
  opre_enabled :: "bool option"
  opre_base_url :: "rstr option"
  opre_threshold :: "f64 option"

record AiWebOverrides =
  oaweb_enabled :: "bool option"
  oaweb_base_url :: "rstr option"
  oaweb_timeout :: "nat option"
  oaweb_max_results :: "nat option"
  oaweb_max_rounds :: "nat option"
  oaweb_cache_ttl_secs :: "nat option"
  oaweb_cache_capacity :: "nat option"

record AiEmotesOverrides =
  oemo_enabled :: "bool option"
  oemo_include_global :: "bool option"
  oemo_refresh_interval_secs :: "nat option"
  oemo_max_prompt_emotes :: "nat option"
  oemo_min_baseline_emotes :: "nat option"
  oemo_pinned_emotes :: "(rstr list) option"
  oemo_base_url :: "rstr option option"

record AiMediaOverrides =
  omed_model :: "rstr option"
  omed_timeout :: "nat option"
  omed_max_image_size :: "nat option"
  omed_max_pdf_size :: "nat option"
  omed_max_audio_size :: "nat option"
  omed_max_video_size :: "nat option"
  omed_max_text_size :: "nat option"

record TwitchOverrides =
  otwi_expected_latency :: "nat option"
  otwi_hidden_admins :: "(rstr list) option"
  otwi_viewer_allowlist :: "(rstr list) option"
  otwi_admin_channel :: "rstr option option"
  otwi_ai_channel :: "rstr option option"

record AviationstackOverrides =
  oavs_enabled :: "bool option"
  oavs_base_url :: "rstr option"
  oavs_timeout_secs :: "nat option"

record SuspendOverrides =
  osus_default_duration_secs :: "nat option"

record WebRuntimeOverrides =
  owrt_session_ttl_secs :: "nat option"
  owrt_mod_check_refresh_secs :: "nat option"

record AiOverrides =
  oai_connection :: AiConnectionOverrides
  oai_behavior :: AiBehaviorOverrides
  oai_history :: AiHistoryOverrides
  oai_memory :: AiMemoryOverrides
  oai_dreamer :: AiDreamerOverrides
  oai_prefill :: AiPrefillOverrides
  oai_web :: AiWebOverrides
  oai_emotes :: AiEmotesOverrides
  oai_media :: AiMediaOverrides

record SettingsOverrides =
  os_schema_version :: nat
  os_cooldowns :: CooldownsOverrides
  os_pings :: PingsOverrides
  os_ai :: AiOverrides
  os_twitch :: TwitchOverrides
  os_aviationstack :: AviationstackOverrides
  os_suspend :: SuspendOverrides
  os_web :: WebRuntimeOverrides
  os_schedules :: "Schedule list option"

definition no_CooldownsOverrides :: CooldownsOverrides where
  "no_CooldownsOverrides =
     \<lparr>ocool_ai = None, ocool_news = None, ocool_up = None, ocool_feedback = None, ocool_doener = None\<rparr>"

definition no_PingsOverrides :: PingsOverrides where
  "no_PingsOverrides =
     \<lparr>opng_cooldown = None, opng_public = None\<rparr>"

definition no_AiConnectionOverrides :: AiConnectionOverrides where
  "no_AiConnectionOverrides =
     \<lparr>oconn_backend = None, oconn_base_url = None, oconn_model = None, oconn_timeout = None, oconn_reasoning_effort = None, oconn_service_tier = None\<rparr>"

definition no_AiBehaviorOverrides :: AiBehaviorOverrides where
  "no_AiBehaviorOverrides =
     \<lparr>obeh_max_turn_rounds = None, obeh_max_writes_per_turn = None, obeh_persona_name = None\<rparr>"

definition no_AiHistoryOverrides :: AiHistoryOverrides where
  "no_AiHistoryOverrides =
     \<lparr>ohist_length = None, ohist_ai_channel_length = None\<rparr>"

definition no_AiMemoryOverrides :: AiMemoryOverrides where
  "no_AiMemoryOverrides =
     \<lparr>omem_soul_bytes = None, omem_lore_bytes = None, omem_user_bytes = None, omem_state_bytes = None, omem_inject_byte_budget = None, omem_max_state_files = None\<rparr>"

definition no_AiDreamerOverrides :: AiDreamerOverrides where
  "no_AiDreamerOverrides =
     \<lparr>odrm_enabled = None, odrm_model = None, odrm_reasoning_effort = None, odrm_service_tier = None, odrm_run_at = None, odrm_timeout_secs = None, odrm_max_rounds = None, odrm_max_writes_per_turn = None\<rparr>"

definition no_AiPrefillOverrides :: AiPrefillOverrides where
  "no_AiPrefillOverrides =
     \<lparr>opre_enabled = None, opre_base_url = None, opre_threshold = None\<rparr>"

definition no_AiWebOverrides :: AiWebOverrides where
  "no_AiWebOverrides =
     \<lparr>oaweb_enabled = None, oaweb_base_url = None, oaweb_timeout = None, oaweb_max_results = None, oaweb_max_rounds = None, oaweb_cache_ttl_secs = None, oaweb_cache_capacity = None\<rparr>"

definition no_AiEmotesOverrides :: AiEmotesOverrides where
  "no_AiEmotesOverrides =
     \<lparr>oemo_enabled = None, oemo_include_global = None, oemo_refresh_interval_secs = None, oemo_max_prompt_emotes = None, oemo_min_baseline_emotes = None, oemo_pinned_emotes = None, oemo_base_url = None\<rparr>"

definition no_AiMediaOverrides :: AiMediaOverrides where
  "no_AiMediaOverrides =
     \<lparr>omed_model = None, omed_timeout = None, omed_max_image_size = None, omed_max_pdf_size = None, omed_max_audio_size = None, omed_max_video_size = None, omed_max_text_size = None\<rparr>"

definition no_TwitchOverrides :: TwitchOverrides where
  "no_TwitchOverrides =
     \<lparr>otwi_expected_latency = None, otwi_hidden_admins = None, otwi_viewer_allowlist = None, otwi_admin_channel = None, otwi_ai_channel = None\<rparr>"

definition no_AviationstackOverrides :: AviationstackOverrides where
  "no_AviationstackOverrides =
     \<lparr>oavs_enabled = None, oavs_base_url = None, oavs_timeout_secs = None\<rparr>"

definition no_SuspendOverrides :: SuspendOverrides where
  "no_SuspendOverrides =
     \<lparr>osus_default_duration_secs = None\<rparr>"

definition no_WebRuntimeOverrides :: WebRuntimeOverrides where
  "no_WebRuntimeOverrides =
     \<lparr>owrt_session_ttl_secs = None, owrt_mod_check_refresh_secs = None\<rparr>"

definition no_AiOverrides :: AiOverrides where
  "no_AiOverrides =
     \<lparr>oai_connection = no_AiConnectionOverrides,
      oai_behavior = no_AiBehaviorOverrides,
      oai_history = no_AiHistoryOverrides,
      oai_memory = no_AiMemoryOverrides,
      oai_dreamer = no_AiDreamerOverrides,
      oai_prefill = no_AiPrefillOverrides,
      oai_web = no_AiWebOverrides,
      oai_emotes = no_AiEmotesOverrides,
      oai_media = no_AiMediaOverrides\<rparr>"

definition no_overrides :: SettingsOverrides where
  "no_overrides =
     \<lparr>os_schema_version = SCHEMA_VERSION, os_cooldowns = no_CooldownsOverrides, os_pings = no_PingsOverrides,
      os_ai = no_AiOverrides, os_twitch = no_TwitchOverrides,
      os_aviationstack = no_AviationstackOverrides,
      os_suspend = no_SuspendOverrides,
      os_web = no_WebRuntimeOverrides, os_schedules = None\<rparr>"

section \<open>Merging a patch\<close>

text \<open>\<^verbatim>\<open>if let Some(v) = patch { into = Some(v) }\<close>.\<close>

definition pick :: "'a option \<Rightarrow> 'a option \<Rightarrow> 'a option" where
  "pick patch into = (case patch of Some v \<Rightarrow> Some v | None \<Rightarrow> into)"

definition merge_cool :: "CooldownsOverrides \<Rightarrow> CooldownsOverrides \<Rightarrow> CooldownsOverrides" where
  "merge_cool into patch =
     \<lparr>ocool_ai = pick (ocool_ai patch) (ocool_ai into),
      ocool_news = pick (ocool_news patch) (ocool_news into),
      ocool_up = pick (ocool_up patch) (ocool_up into),
      ocool_feedback = pick (ocool_feedback patch) (ocool_feedback into),
      ocool_doener = pick (ocool_doener patch) (ocool_doener into)\<rparr>"

definition merge_png :: "PingsOverrides \<Rightarrow> PingsOverrides \<Rightarrow> PingsOverrides" where
  "merge_png into patch =
     \<lparr>opng_cooldown = pick (opng_cooldown patch) (opng_cooldown into),
      opng_public = pick (opng_public patch) (opng_public into)\<rparr>"

definition merge_conn :: "AiConnectionOverrides \<Rightarrow> AiConnectionOverrides \<Rightarrow> AiConnectionOverrides" where
  "merge_conn into patch =
     \<lparr>oconn_backend = pick (oconn_backend patch) (oconn_backend into),
      oconn_base_url = pick (oconn_base_url patch) (oconn_base_url into),
      oconn_model = pick (oconn_model patch) (oconn_model into),
      oconn_timeout = pick (oconn_timeout patch) (oconn_timeout into),
      oconn_reasoning_effort = pick (oconn_reasoning_effort patch) (oconn_reasoning_effort into),
      oconn_service_tier = pick (oconn_service_tier patch) (oconn_service_tier into)\<rparr>"

definition merge_beh :: "AiBehaviorOverrides \<Rightarrow> AiBehaviorOverrides \<Rightarrow> AiBehaviorOverrides" where
  "merge_beh into patch =
     \<lparr>obeh_max_turn_rounds = pick (obeh_max_turn_rounds patch) (obeh_max_turn_rounds into),
      obeh_max_writes_per_turn = pick (obeh_max_writes_per_turn patch) (obeh_max_writes_per_turn into),
      obeh_persona_name = pick (obeh_persona_name patch) (obeh_persona_name into)\<rparr>"

definition merge_hist :: "AiHistoryOverrides \<Rightarrow> AiHistoryOverrides \<Rightarrow> AiHistoryOverrides" where
  "merge_hist into patch =
     \<lparr>ohist_length = pick (ohist_length patch) (ohist_length into),
      ohist_ai_channel_length = pick (ohist_ai_channel_length patch) (ohist_ai_channel_length into)\<rparr>"

definition merge_mem :: "AiMemoryOverrides \<Rightarrow> AiMemoryOverrides \<Rightarrow> AiMemoryOverrides" where
  "merge_mem into patch =
     \<lparr>omem_soul_bytes = pick (omem_soul_bytes patch) (omem_soul_bytes into),
      omem_lore_bytes = pick (omem_lore_bytes patch) (omem_lore_bytes into),
      omem_user_bytes = pick (omem_user_bytes patch) (omem_user_bytes into),
      omem_state_bytes = pick (omem_state_bytes patch) (omem_state_bytes into),
      omem_inject_byte_budget = pick (omem_inject_byte_budget patch) (omem_inject_byte_budget into),
      omem_max_state_files = pick (omem_max_state_files patch) (omem_max_state_files into)\<rparr>"

definition merge_drm :: "AiDreamerOverrides \<Rightarrow> AiDreamerOverrides \<Rightarrow> AiDreamerOverrides" where
  "merge_drm into patch =
     \<lparr>odrm_enabled = pick (odrm_enabled patch) (odrm_enabled into),
      odrm_model = pick (odrm_model patch) (odrm_model into),
      odrm_reasoning_effort = pick (odrm_reasoning_effort patch) (odrm_reasoning_effort into),
      odrm_service_tier = pick (odrm_service_tier patch) (odrm_service_tier into),
      odrm_run_at = pick (odrm_run_at patch) (odrm_run_at into),
      odrm_timeout_secs = pick (odrm_timeout_secs patch) (odrm_timeout_secs into),
      odrm_max_rounds = pick (odrm_max_rounds patch) (odrm_max_rounds into),
      odrm_max_writes_per_turn = pick (odrm_max_writes_per_turn patch) (odrm_max_writes_per_turn into)\<rparr>"

definition merge_pre :: "AiPrefillOverrides \<Rightarrow> AiPrefillOverrides \<Rightarrow> AiPrefillOverrides" where
  "merge_pre into patch =
     \<lparr>opre_enabled = pick (opre_enabled patch) (opre_enabled into),
      opre_base_url = pick (opre_base_url patch) (opre_base_url into),
      opre_threshold = pick (opre_threshold patch) (opre_threshold into)\<rparr>"

definition merge_aweb :: "AiWebOverrides \<Rightarrow> AiWebOverrides \<Rightarrow> AiWebOverrides" where
  "merge_aweb into patch =
     \<lparr>oaweb_enabled = pick (oaweb_enabled patch) (oaweb_enabled into),
      oaweb_base_url = pick (oaweb_base_url patch) (oaweb_base_url into),
      oaweb_timeout = pick (oaweb_timeout patch) (oaweb_timeout into),
      oaweb_max_results = pick (oaweb_max_results patch) (oaweb_max_results into),
      oaweb_max_rounds = pick (oaweb_max_rounds patch) (oaweb_max_rounds into),
      oaweb_cache_ttl_secs = pick (oaweb_cache_ttl_secs patch) (oaweb_cache_ttl_secs into),
      oaweb_cache_capacity = pick (oaweb_cache_capacity patch) (oaweb_cache_capacity into)\<rparr>"

definition merge_emo :: "AiEmotesOverrides \<Rightarrow> AiEmotesOverrides \<Rightarrow> AiEmotesOverrides" where
  "merge_emo into patch =
     \<lparr>oemo_enabled = pick (oemo_enabled patch) (oemo_enabled into),
      oemo_include_global = pick (oemo_include_global patch) (oemo_include_global into),
      oemo_refresh_interval_secs = pick (oemo_refresh_interval_secs patch) (oemo_refresh_interval_secs into),
      oemo_max_prompt_emotes = pick (oemo_max_prompt_emotes patch) (oemo_max_prompt_emotes into),
      oemo_min_baseline_emotes = pick (oemo_min_baseline_emotes patch) (oemo_min_baseline_emotes into),
      oemo_pinned_emotes = pick (oemo_pinned_emotes patch) (oemo_pinned_emotes into),
      oemo_base_url = pick (oemo_base_url patch) (oemo_base_url into)\<rparr>"

definition merge_med :: "AiMediaOverrides \<Rightarrow> AiMediaOverrides \<Rightarrow> AiMediaOverrides" where
  "merge_med into patch =
     \<lparr>omed_model = pick (omed_model patch) (omed_model into),
      omed_timeout = pick (omed_timeout patch) (omed_timeout into),
      omed_max_image_size = pick (omed_max_image_size patch) (omed_max_image_size into),
      omed_max_pdf_size = pick (omed_max_pdf_size patch) (omed_max_pdf_size into),
      omed_max_audio_size = pick (omed_max_audio_size patch) (omed_max_audio_size into),
      omed_max_video_size = pick (omed_max_video_size patch) (omed_max_video_size into),
      omed_max_text_size = pick (omed_max_text_size patch) (omed_max_text_size into)\<rparr>"

definition merge_twi :: "TwitchOverrides \<Rightarrow> TwitchOverrides \<Rightarrow> TwitchOverrides" where
  "merge_twi into patch =
     \<lparr>otwi_expected_latency = pick (otwi_expected_latency patch) (otwi_expected_latency into),
      otwi_hidden_admins = pick (otwi_hidden_admins patch) (otwi_hidden_admins into),
      otwi_viewer_allowlist = pick (otwi_viewer_allowlist patch) (otwi_viewer_allowlist into),
      otwi_admin_channel = pick (otwi_admin_channel patch) (otwi_admin_channel into),
      otwi_ai_channel = pick (otwi_ai_channel patch) (otwi_ai_channel into)\<rparr>"

definition merge_avs :: "AviationstackOverrides \<Rightarrow> AviationstackOverrides \<Rightarrow> AviationstackOverrides" where
  "merge_avs into patch =
     \<lparr>oavs_enabled = pick (oavs_enabled patch) (oavs_enabled into),
      oavs_base_url = pick (oavs_base_url patch) (oavs_base_url into),
      oavs_timeout_secs = pick (oavs_timeout_secs patch) (oavs_timeout_secs into)\<rparr>"

definition merge_sus :: "SuspendOverrides \<Rightarrow> SuspendOverrides \<Rightarrow> SuspendOverrides" where
  "merge_sus into patch =
     \<lparr>osus_default_duration_secs = pick (osus_default_duration_secs patch) (osus_default_duration_secs into)\<rparr>"

definition merge_wrt :: "WebRuntimeOverrides \<Rightarrow> WebRuntimeOverrides \<Rightarrow> WebRuntimeOverrides" where
  "merge_wrt into patch =
     \<lparr>owrt_session_ttl_secs = pick (owrt_session_ttl_secs patch) (owrt_session_ttl_secs into),
      owrt_mod_check_refresh_secs = pick (owrt_mod_check_refresh_secs patch) (owrt_mod_check_refresh_secs into)\<rparr>"

definition merge_ai :: "AiOverrides \<Rightarrow> AiOverrides \<Rightarrow> AiOverrides" where
  "merge_ai into patch =
     \<lparr>oai_connection = merge_conn (oai_connection into) (oai_connection patch),
      oai_behavior = merge_beh (oai_behavior into) (oai_behavior patch),
      oai_history = merge_hist (oai_history into) (oai_history patch),
      oai_memory = merge_mem (oai_memory into) (oai_memory patch),
      oai_dreamer = merge_drm (oai_dreamer into) (oai_dreamer patch),
      oai_prefill = merge_pre (oai_prefill into) (oai_prefill patch),
      oai_web = merge_aweb (oai_web into) (oai_web patch),
      oai_emotes = merge_emo (oai_emotes into) (oai_emotes patch),
      oai_media = merge_med (oai_media into) (oai_media patch)\<rparr>"

definition merge_into :: "SettingsOverrides \<Rightarrow> SettingsOverrides \<Rightarrow> SettingsOverrides" where
  "merge_into into patch =
     \<lparr>os_schema_version = os_schema_version into,
      os_cooldowns = merge_cool (os_cooldowns into) (os_cooldowns patch),
      os_pings = merge_png (os_pings into) (os_pings patch),
      os_ai = merge_ai (os_ai into) (os_ai patch),
      os_twitch = merge_twi (os_twitch into) (os_twitch patch),
      os_aviationstack = merge_avs (os_aviationstack into) (os_aviationstack patch),
      os_suspend = merge_sus (os_suspend into) (os_suspend patch),
      os_web = merge_wrt (os_web into) (os_web patch),
      os_schedules = pick (os_schedules patch) (os_schedules into)\<rparr>"

end
