(* ===== verification/Settings_Resolve.thy ===== *)
theory Settings_Resolve imports Settings_Overrides begin

text \<open>
  \<^verbatim>\<open>settings/resolve.rs\<close>: the settings that overrides yield over the compiled defaults.
\<close>

section \<open>Resolution\<close>

text \<open>\<^verbatim>\<open>Option::unwrap_or\<close>.\<close>

definition unwrap_or :: "'a option \<Rightarrow> 'a \<Rightarrow> 'a" where
  "unwrap_or x d = (case x of Some v \<Rightarrow> v | None \<Rightarrow> d)"

definition resolve_cool :: "Cooldowns \<Rightarrow> CooldownsOverrides \<Rightarrow> Cooldowns" where
  "resolve_cool base over =
     \<lparr>cool_ai = unwrap_or (ocool_ai over) (cool_ai base),
      cool_news = unwrap_or (ocool_news over) (cool_news base),
      cool_up = unwrap_or (ocool_up over) (cool_up base),
      cool_feedback = unwrap_or (ocool_feedback over) (cool_feedback base),
      cool_doener = unwrap_or (ocool_doener over) (cool_doener base)\<rparr>"

definition resolve_png :: "PingsSettings \<Rightarrow> PingsOverrides \<Rightarrow> PingsSettings" where
  "resolve_png base over =
     \<lparr>png_cooldown = unwrap_or (opng_cooldown over) (png_cooldown base),
      png_public = unwrap_or (opng_public over) (png_public base)\<rparr>"

definition resolve_conn :: "AiConnection \<Rightarrow> AiConnectionOverrides \<Rightarrow> AiConnection" where
  "resolve_conn base over =
     \<lparr>conn_backend = unwrap_or (oconn_backend over) (conn_backend base),
      conn_base_url = unwrap_or (oconn_base_url over) (conn_base_url base),
      conn_model = unwrap_or (oconn_model over) (conn_model base),
      conn_timeout = unwrap_or (oconn_timeout over) (conn_timeout base),
      conn_reasoning_effort = unwrap_or (oconn_reasoning_effort over) (conn_reasoning_effort base),
      conn_service_tier = unwrap_or (oconn_service_tier over) (conn_service_tier base)\<rparr>"

definition resolve_beh :: "AiBehavior \<Rightarrow> AiBehaviorOverrides \<Rightarrow> AiBehavior" where
  "resolve_beh base over =
     \<lparr>beh_max_turn_rounds = unwrap_or (obeh_max_turn_rounds over) (beh_max_turn_rounds base),
      beh_max_writes_per_turn = unwrap_or (obeh_max_writes_per_turn over) (beh_max_writes_per_turn base),
      beh_persona_name = unwrap_or (obeh_persona_name over) (beh_persona_name base)\<rparr>"

definition resolve_hist :: "AiHistory \<Rightarrow> AiHistoryOverrides \<Rightarrow> AiHistory" where
  "resolve_hist base over =
     \<lparr>hist_length = unwrap_or (ohist_length over) (hist_length base),
      hist_ai_channel_length = unwrap_or (ohist_ai_channel_length over) (hist_ai_channel_length base)\<rparr>"

definition resolve_mem :: "AiMemory \<Rightarrow> AiMemoryOverrides \<Rightarrow> AiMemory" where
  "resolve_mem base over =
     \<lparr>mem_soul_bytes = unwrap_or (omem_soul_bytes over) (mem_soul_bytes base),
      mem_lore_bytes = unwrap_or (omem_lore_bytes over) (mem_lore_bytes base),
      mem_user_bytes = unwrap_or (omem_user_bytes over) (mem_user_bytes base),
      mem_state_bytes = unwrap_or (omem_state_bytes over) (mem_state_bytes base),
      mem_inject_byte_budget = unwrap_or (omem_inject_byte_budget over) (mem_inject_byte_budget base),
      mem_max_state_files = unwrap_or (omem_max_state_files over) (mem_max_state_files base)\<rparr>"

definition resolve_drm :: "AiDreamer \<Rightarrow> AiDreamerOverrides \<Rightarrow> AiDreamer" where
  "resolve_drm base over =
     \<lparr>drm_enabled = unwrap_or (odrm_enabled over) (drm_enabled base),
      drm_model = unwrap_or (odrm_model over) (drm_model base),
      drm_reasoning_effort = unwrap_or (odrm_reasoning_effort over) (drm_reasoning_effort base),
      drm_service_tier = unwrap_or (odrm_service_tier over) (drm_service_tier base),
      drm_run_at = unwrap_or (odrm_run_at over) (drm_run_at base),
      drm_timeout_secs = unwrap_or (odrm_timeout_secs over) (drm_timeout_secs base),
      drm_max_rounds = unwrap_or (odrm_max_rounds over) (drm_max_rounds base),
      drm_max_writes_per_turn = unwrap_or (odrm_max_writes_per_turn over) (drm_max_writes_per_turn base)\<rparr>"

definition resolve_prefill :: "AiPrefill option \<Rightarrow> AiPrefillOverrides \<Rightarrow> AiPrefill option" where
  "resolve_prefill defaults over =
     (if \<not> unwrap_or (opre_enabled over) (defaults \<noteq> None) then None
      else
        let base = unwrap_or defaults default_AiPrefill in
        Some \<lparr>pre_base_url = unwrap_or (opre_base_url over) (pre_base_url base),
           pre_threshold = unwrap_or (opre_threshold over) (pre_threshold base)\<rparr>)"

definition resolve_web :: "AiWeb option \<Rightarrow> AiWebOverrides \<Rightarrow> AiWeb option" where
  "resolve_web defaults over =
     (if \<not> unwrap_or (oaweb_enabled over) (defaults \<noteq> None) then None
      else
        let base = unwrap_or defaults default_AiWeb in
        Some \<lparr>aweb_base_url = unwrap_or (oaweb_base_url over) (aweb_base_url base),
           aweb_timeout = unwrap_or (oaweb_timeout over) (aweb_timeout base),
           aweb_max_results = unwrap_or (oaweb_max_results over) (aweb_max_results base),
           aweb_max_rounds = unwrap_or (oaweb_max_rounds over) (aweb_max_rounds base),
           aweb_cache_ttl_secs = unwrap_or (oaweb_cache_ttl_secs over) (aweb_cache_ttl_secs base),
           aweb_cache_capacity = unwrap_or (oaweb_cache_capacity over) (aweb_cache_capacity base)\<rparr>)"

definition resolve_emotes :: "AiEmotes option \<Rightarrow> AiEmotesOverrides \<Rightarrow> AiEmotes option" where
  "resolve_emotes defaults over =
     (if \<not> unwrap_or (oemo_enabled over) (defaults \<noteq> None) then None
      else
        let base = unwrap_or defaults default_AiEmotes in
        Some \<lparr>emo_include_global = unwrap_or (oemo_include_global over) (emo_include_global base),
           emo_refresh_interval_secs = unwrap_or (oemo_refresh_interval_secs over) (emo_refresh_interval_secs base),
           emo_max_prompt_emotes = unwrap_or (oemo_max_prompt_emotes over) (emo_max_prompt_emotes base),
           emo_min_baseline_emotes = unwrap_or (oemo_min_baseline_emotes over) (emo_min_baseline_emotes base),
           emo_pinned_emotes = unwrap_or (oemo_pinned_emotes over) (emo_pinned_emotes base),
           emo_base_url = unwrap_or (oemo_base_url over) (emo_base_url base)\<rparr>)"

definition resolve_med :: "AiMedia \<Rightarrow> AiMediaOverrides \<Rightarrow> AiMedia" where
  "resolve_med base over =
     \<lparr>med_model = unwrap_or (omed_model over) (med_model base),
      med_timeout = unwrap_or (omed_timeout over) (med_timeout base),
      med_max_image_size = unwrap_or (omed_max_image_size over) (med_max_image_size base),
      med_max_pdf_size = unwrap_or (omed_max_pdf_size over) (med_max_pdf_size base),
      med_max_audio_size = unwrap_or (omed_max_audio_size over) (med_max_audio_size base),
      med_max_video_size = unwrap_or (omed_max_video_size over) (med_max_video_size base),
      med_max_text_size = unwrap_or (omed_max_text_size over) (med_max_text_size base)\<rparr>"

definition resolve_twi :: "TwitchRuntime \<Rightarrow> TwitchOverrides \<Rightarrow> TwitchRuntime" where
  "resolve_twi base over =
     \<lparr>twi_expected_latency = unwrap_or (otwi_expected_latency over) (twi_expected_latency base),
      twi_hidden_admins = unwrap_or (otwi_hidden_admins over) (twi_hidden_admins base),
      twi_viewer_allowlist = unwrap_or (otwi_viewer_allowlist over) (twi_viewer_allowlist base),
      twi_admin_channel = unwrap_or (otwi_admin_channel over) (twi_admin_channel base),
      twi_ai_channel = unwrap_or (otwi_ai_channel over) (twi_ai_channel base)\<rparr>"

definition resolve_avs :: "AviationstackSettings \<Rightarrow> AviationstackOverrides \<Rightarrow> AviationstackSettings" where
  "resolve_avs base over =
     \<lparr>avs_enabled = unwrap_or (oavs_enabled over) (avs_enabled base),
      avs_base_url = unwrap_or (oavs_base_url over) (avs_base_url base),
      avs_timeout_secs = unwrap_or (oavs_timeout_secs over) (avs_timeout_secs base)\<rparr>"

definition resolve_sus :: "SuspendSettings \<Rightarrow> SuspendOverrides \<Rightarrow> SuspendSettings" where
  "resolve_sus base over =
     \<lparr>sus_default_duration_secs = unwrap_or (osus_default_duration_secs over) (sus_default_duration_secs base)\<rparr>"

definition resolve_wrt :: "WebRuntime \<Rightarrow> WebRuntimeOverrides \<Rightarrow> WebRuntime" where
  "resolve_wrt base over =
     \<lparr>wrt_session_ttl_secs = unwrap_or (owrt_session_ttl_secs over) (wrt_session_ttl_secs base),
      wrt_mod_check_refresh_secs = unwrap_or (owrt_mod_check_refresh_secs over) (wrt_mod_check_refresh_secs base)\<rparr>"

definition resolve_ai :: "AiSettings \<Rightarrow> AiOverrides \<Rightarrow> AiSettings" where
  "resolve_ai defaults over =
     \<lparr>ai_connection = resolve_conn (ai_connection defaults) (oai_connection over),
      ai_behavior = resolve_beh (ai_behavior defaults) (oai_behavior over),
      ai_history = resolve_hist (ai_history defaults) (oai_history over),
      ai_memory = resolve_mem (ai_memory defaults) (oai_memory over),
      ai_dreamer = resolve_drm (ai_dreamer defaults) (oai_dreamer over),
      ai_prefill = resolve_prefill (ai_prefill defaults) (oai_prefill over),
      ai_web = resolve_web (ai_web defaults) (oai_web over),
      ai_emotes = resolve_emotes (ai_emotes defaults) (oai_emotes over),
      ai_media = resolve_med (ai_media defaults) (oai_media over)\<rparr>"

definition resolve_settings :: "Settings \<Rightarrow> SettingsOverrides \<Rightarrow> Settings" where
  "resolve_settings defaults over =
     \<lparr>st_schema_version = SCHEMA_VERSION,
      st_cooldowns = resolve_cool (st_cooldowns defaults) (os_cooldowns over),
      st_pings = resolve_png (st_pings defaults) (os_pings over),
      st_ai = resolve_ai (st_ai defaults) (os_ai over),
      st_twitch = resolve_twi (st_twitch defaults) (os_twitch over),
      st_aviationstack = resolve_avs (st_aviationstack defaults) (os_aviationstack over),
      st_suspend = resolve_sus (st_suspend defaults) (os_suspend over),
      st_web = resolve_wrt (st_web defaults) (os_web over),
      st_schedules = unwrap_or (os_schedules over) (st_schedules defaults)\<rparr>"

end
