(* ===== verification/Settings_Laws.thy ===== *)
theory Settings_Laws imports Settings_Resolve begin

text \<open>
  Laws of the overrides: how patches compose, and how a patch shows in the settings resolved from it.
\<close>

lemmas merge_defs = merge_cool_def merge_png_def merge_conn_def merge_beh_def merge_hist_def merge_mem_def
  merge_drm_def merge_pre_def merge_aweb_def merge_emo_def merge_med_def merge_twi_def merge_avs_def merge_sus_def
  merge_wrt_def

lemmas no_defs = no_CooldownsOverrides_def no_PingsOverrides_def no_AiConnectionOverrides_def
  no_AiBehaviorOverrides_def no_AiHistoryOverrides_def no_AiMemoryOverrides_def no_AiDreamerOverrides_def
  no_AiPrefillOverrides_def no_AiWebOverrides_def no_AiEmotesOverrides_def no_AiMediaOverrides_def
  no_TwitchOverrides_def no_AviationstackOverrides_def no_SuspendOverrides_def no_WebRuntimeOverrides_def

lemmas resolve_defs = resolve_cool_def resolve_png_def resolve_conn_def resolve_beh_def resolve_hist_def
  resolve_mem_def resolve_drm_def resolve_med_def resolve_twi_def resolve_avs_def resolve_sus_def resolve_wrt_def

lemma pick_laws [simp]:
  "pick c (pick b a) = pick (pick c b) a" "pick a a = a" "pick None a = a" "pick a None = a" "pick (Some x) a = Some x"
  by (auto simp: pick_def split: option.splits)

lemma pick_again [simp]: "pick (pick p p) a = pick p a"
  by simp

lemma unwrap_or_laws [simp]:
  "unwrap_or None d = d" "unwrap_or (Some x) d = x" "unwrap_or (pick p a) d = unwrap_or p (unwrap_or a d)"
  by (auto simp: unwrap_or_def pick_def split: option.splits)

section \<open>Patches compose\<close>

lemma merge_section_assoc:
  "merge_cool (merge_cool a1 b1) c1 = merge_cool a1 (merge_cool b1 c1)"
  "merge_png (merge_png a2 b2) c2 = merge_png a2 (merge_png b2 c2)"
  "merge_conn (merge_conn a3 b3) c3 = merge_conn a3 (merge_conn b3 c3)"
  "merge_beh (merge_beh a4 b4) c4 = merge_beh a4 (merge_beh b4 c4)"
  "merge_hist (merge_hist a5 b5) c5 = merge_hist a5 (merge_hist b5 c5)"
  "merge_mem (merge_mem a6 b6) c6 = merge_mem a6 (merge_mem b6 c6)"
  "merge_drm (merge_drm a7 b7) c7 = merge_drm a7 (merge_drm b7 c7)"
  "merge_pre (merge_pre a8 b8) c8 = merge_pre a8 (merge_pre b8 c8)"
  "merge_aweb (merge_aweb a9 b9) c9 = merge_aweb a9 (merge_aweb b9 c9)"
  "merge_emo (merge_emo a10 b10) c10 = merge_emo a10 (merge_emo b10 c10)"
  "merge_med (merge_med a11 b11) c11 = merge_med a11 (merge_med b11 c11)"
  "merge_twi (merge_twi a12 b12) c12 = merge_twi a12 (merge_twi b12 c12)"
  "merge_avs (merge_avs a13 b13) c13 = merge_avs a13 (merge_avs b13 c13)"
  "merge_sus (merge_sus a14 b14) c14 = merge_sus a14 (merge_sus b14 c14)"
  "merge_wrt (merge_wrt a15 b15) c15 = merge_wrt a15 (merge_wrt b15 c15)"
  by (simp_all add: merge_defs)

lemma merge_assoc: "merge_into (merge_into a b) c = merge_into a (merge_into b c)"
  by (simp add: merge_into_def merge_ai_def merge_section_assoc)

lemma merge_section_idem:
  "merge_cool a1 a1 = a1" "merge_png a2 a2 = a2" "merge_conn a3 a3 = a3" "merge_beh a4 a4 = a4"
  "merge_hist a5 a5 = a5" "merge_mem a6 a6 = a6" "merge_drm a7 a7 = a7" "merge_pre a8 a8 = a8"
  "merge_aweb a9 a9 = a9" "merge_emo a10 a10 = a10" "merge_med a11 a11 = a11" "merge_twi a12 a12 = a12"
  "merge_avs a13 a13 = a13" "merge_sus a14 a14 = a14" "merge_wrt a15 a15 = a15"
  by (simp_all add: merge_defs)

lemma merge_idem: "merge_into a a = a"
  by (simp add: merge_into_def merge_ai_def merge_section_idem)

lemma merge_twice: "merge_into (merge_into a p) p = merge_into a p"
  by (simp add: merge_assoc merge_idem)

lemma merge_section_none:
  "merge_cool a1 no_CooldownsOverrides = a1" "merge_png a2 no_PingsOverrides = a2"
  "merge_conn a3 no_AiConnectionOverrides = a3" "merge_beh a4 no_AiBehaviorOverrides = a4"
  "merge_hist a5 no_AiHistoryOverrides = a5" "merge_mem a6 no_AiMemoryOverrides = a6"
  "merge_drm a7 no_AiDreamerOverrides = a7" "merge_pre a8 no_AiPrefillOverrides = a8"
  "merge_aweb a9 no_AiWebOverrides = a9" "merge_emo a10 no_AiEmotesOverrides = a10"
  "merge_med a11 no_AiMediaOverrides = a11" "merge_twi a12 no_TwitchOverrides = a12"
  "merge_avs a13 no_AviationstackOverrides = a13" "merge_sus a14 no_SuspendOverrides = a14"
  "merge_wrt a15 no_WebRuntimeOverrides = a15"
  by (simp_all add: merge_defs no_defs)

lemma merge_none: "merge_into a no_overrides = a"
  by (simp add: merge_into_def merge_ai_def no_overrides_def no_AiOverrides_def merge_section_none)

section \<open>A patch shows on top of what it patches\<close>

lemma resolve_section_merge:
  "resolve_cool d1 (merge_cool a1 p1) = resolve_cool (resolve_cool d1 a1) p1"
  "resolve_png d2 (merge_png a2 p2) = resolve_png (resolve_png d2 a2) p2"
  "resolve_conn d3 (merge_conn a3 p3) = resolve_conn (resolve_conn d3 a3) p3"
  "resolve_beh d4 (merge_beh a4 p4) = resolve_beh (resolve_beh d4 a4) p4"
  "resolve_hist d5 (merge_hist a5 p5) = resolve_hist (resolve_hist d5 a5) p5"
  "resolve_mem d6 (merge_mem a6 p6) = resolve_mem (resolve_mem d6 a6) p6"
  "resolve_drm d7 (merge_drm a7 p7) = resolve_drm (resolve_drm d7 a7) p7"
  "resolve_med d8 (merge_med a8 p8) = resolve_med (resolve_med d8 a8) p8"
  "resolve_twi d9 (merge_twi a9 p9) = resolve_twi (resolve_twi d9 a9) p9"
  "resolve_avs d10 (merge_avs a10 p10) = resolve_avs (resolve_avs d10 a10) p10"
  "resolve_sus d11 (merge_sus a11 p11) = resolve_sus (resolve_sus d11 a11) p11"
  "resolve_wrt d12 (merge_wrt a12 p12) = resolve_wrt (resolve_wrt d12 a12) p12"
  by (simp_all add: merge_defs resolve_defs)

text \<open>
  A card that is on shows the patch on top of what it showed; a card that is off shows nothing, but
  the stored overrides are kept, so that switching it on brings its former values back.
\<close>

lemma resolve_card_merge:
  "resolve_prefill d1 a1 \<noteq> None \<Longrightarrow> resolve_prefill d1 (merge_pre a1 p1) = resolve_prefill (resolve_prefill d1 a1) p1"
  "resolve_web d2 a2 \<noteq> None \<Longrightarrow> resolve_web d2 (merge_aweb a2 p2) = resolve_web (resolve_web d2 a2) p2"
  "resolve_emotes d3 a3 \<noteq> None \<Longrightarrow> resolve_emotes d3 (merge_emo a3 p3) = resolve_emotes (resolve_emotes d3 a3) p3"
  by (auto simp: resolve_prefill_def resolve_web_def resolve_emotes_def merge_defs Let_def split: if_splits)

definition cards_on :: "AiSettings \<Rightarrow> bool" where
  "cards_on ai \<longleftrightarrow> ai_prefill ai \<noteq> None \<and> ai_web ai \<noteq> None \<and> ai_emotes ai \<noteq> None"

lemma resolve_none: "resolve_settings compiled_defaults no_overrides = compiled_defaults"
  by (simp add: resolve_settings_def compiled_defaults_def no_overrides_def resolve_defs no_defs resolve_ai_def
      no_AiOverrides_def default_AiSettings_def resolve_prefill_def resolve_web_def resolve_emotes_def)



end
