(* ===== verification/Settings_Validation.thy ===== *)
theory Settings_Validation imports Settings_Types begin

text \<open>
  \<^verbatim>\<open>settings/validation.rs\<close>: the checks of a resolved snapshot of the settings, in the order the
  code makes them. The parsers of URLs (reqwest) and of times of the day (chrono), and the texts the
  standard library prints for a quoted string, a list of characters, a floating point number and a
  date are the fields of \<^verbatim>\<open>Checks\<close>.
\<close>

record Checks =
  ck_url :: "rstr \<Rightarrow> bool"
  ck_hhmm :: "rstr \<Rightarrow> bool"
  ck_debug :: "rstr \<Rightarrow> rstr"
  ck_chars :: "uchar list \<Rightarrow> rstr"
  ck_float :: "f64 \<Rightarrow> rstr"
  ck_date :: "int \<Rightarrow> rstr"

definition MAX_HISTORY_LENGTH :: nat where "MAX_HISTORY_LENGTH = 5000"

section \<open>The checks\<close>

definition error_if :: "bool \<Rightarrow> rstr \<Rightarrow> rstr \<Rightarrow> FieldError list" where
  "error_if bad field message = (if bad then [\<lparr>fe_field = field, fe_message = message\<rparr>] else [])"

definition bound :: "rstr \<Rightarrow> nat \<Rightarrow> nat \<Rightarrow> nat \<Rightarrow> FieldError list" where
  "bound name v lo hi =
     error_if (v < lo \<or> hi < v) name
       (str ''must be '' @ dec_nat lo @ str ''..='' @ dec_nat hi @ str '' seconds (got '' @ dec_nat v @ str '')'')"

definition outside :: "nat \<Rightarrow> nat \<Rightarrow> nat \<Rightarrow> bool" where
  "outside lo hi v \<longleftrightarrow> \<not> (lo \<le> v \<and> v \<le> hi)"

definition range_msg :: "nat \<Rightarrow> nat \<Rightarrow> nat \<Rightarrow> rstr" where
  "range_msg lo hi v =
     str ''must be '' @ dec_nat lo @ str ''..='' @ dec_nat hi @ str '' (got '' @ dec_nat v @ str '')''"

definition url_msg :: "Checks \<Rightarrow> rstr \<Rightarrow> rstr" where
  "url_msg ck url = str ''must be a valid URL (got '' @ ck_debug ck url @ str '')''"

definition positive_msg :: rstr where "positive_msg = str ''must be > 0''"

text \<open>The reasoning effort and the service tier of the connection and of the dreamer.\<close>

definition effort_errors :: "rstr \<Rightarrow> rstr option \<Rightarrow> FieldError list" where
  "effort_errors field val =
     (case val of
        Some v \<Rightarrow> error_if (trim v = []) field (str ''must be non-empty when set'')
      | None \<Rightarrow> [])"

definition tier_errors :: "Checks \<Rightarrow> rstr \<Rightarrow> rstr option \<Rightarrow> FieldError list" where
  "tier_errors ck field val =
     (case val of
        Some v \<Rightarrow>
          if trim v = [] then [\<lparr>fe_field = field, fe_message = str ''must be non-empty when set''\<rparr>]
          else error_if (trim v \<notin> {str ''flex'', str ''priority''}) field
            (str ''must be one of '' @ [39] @ str ''flex'' @ [39] @ str '' | '' @ [39] @ str ''priority'' @ [39] @
             str '' (got '' @ ck_debug ck v @ str '')'')
      | None \<Rightarrow> [])"

definition prefill_errors :: "Checks \<Rightarrow> AiSettings \<Rightarrow> FieldError list" where
  "prefill_errors ck ai =
     (case ai_prefill ai of
        None \<Rightarrow> []
      | Some prefill \<Rightarrow>
          error_if (\<not> ck_url ck (pre_base_url prefill)) (str ''ai.prefill.base_url'')
            (url_msg ck (pre_base_url prefill)) @
          error_if (\<not> (0 \<le> pre_threshold prefill \<and> pre_threshold prefill \<le> 1)) (str ''ai.prefill.threshold'')
            (str ''must be 0.0..=1.0 (got '' @ ck_float ck (pre_threshold prefill) @ str '')'') @
          error_if (hist_length (ai_history ai) = 0) (str ''ai.prefill'')
            (str ''requires ai.history.length > 0''))"

definition web_errors :: "Checks \<Rightarrow> AiWeb option \<Rightarrow> FieldError list" where
  "web_errors ck opt =
     (case opt of
        None \<Rightarrow> []
      | Some web \<Rightarrow>
          error_if (\<not> ck_url ck (aweb_base_url web)) (str ''ai.web.base_url'') (url_msg ck (aweb_base_url web)) @
          error_if (outside 1 10 (aweb_max_results web)) (str ''ai.web.max_results'')
            (range_msg 1 10 (aweb_max_results web)) @
          error_if (outside 1 6 (aweb_max_rounds web)) (str ''ai.web.max_rounds'')
            (range_msg 1 6 (aweb_max_rounds web)) @
          error_if (aweb_cache_capacity web = 0) (str ''ai.web.cache_capacity'') positive_msg)"

definition emotes_errors :: "AiEmotes option \<Rightarrow> FieldError list" where
  "emotes_errors opt =
     (case opt of
        None \<Rightarrow> []
      | Some em \<Rightarrow>
          error_if (emo_refresh_interval_secs em = 0) (str ''ai.emotes.refresh_interval_secs'') positive_msg @
          error_if (outside 1 200 (emo_max_prompt_emotes em)) (str ''ai.emotes.max_prompt_emotes'')
            (range_msg 1 200 (emo_max_prompt_emotes em)) @
          error_if (emo_max_prompt_emotes em < emo_min_baseline_emotes em) (str ''ai.emotes.min_baseline_emotes'')
            (str ''must be <= max_prompt_emotes'') @
          error_if (emo_max_prompt_emotes em < length (emo_pinned_emotes em)) (str ''ai.emotes.pinned_emotes'')
            (str ''must have <= max_prompt_emotes entries (got '' @ dec_nat (length (emo_pinned_emotes em)) @
             str '', max '' @ dec_nat (emo_max_prompt_emotes em) @ str '')'') @
          (case emo_base_url em of
             Some url \<Rightarrow> error_if (trim url = []) (str ''ai.emotes.base_url'') (str ''must be non-empty when set'')
           | None \<Rightarrow> []))"

text \<open>The sum of two sizes wraps at 64 bits in a release build.\<close>

definition usize_add :: "nat \<Rightarrow> nat \<Rightarrow> nat" where
  "usize_add a b = (a + b) mod 2 ^ 64"

definition validate_ai :: "Checks \<Rightarrow> AiSettings \<Rightarrow> FieldError list" where
  "validate_ai ck ai =
     error_if (outside 1 20 (beh_max_turn_rounds (ai_behavior ai))) (str ''ai.behavior.max_turn_rounds'')
       (range_msg 1 20 (beh_max_turn_rounds (ai_behavior ai))) @
     error_if (outside 1 64 (beh_max_writes_per_turn (ai_behavior ai))) (str ''ai.behavior.max_writes_per_turn'')
       (range_msg 1 64 (beh_max_writes_per_turn (ai_behavior ai))) @
     error_if (trim (beh_persona_name (ai_behavior ai)) = []) (str ''ai.behavior.persona_name'')
       (str ''must not be empty'') @
     error_if (MAX_HISTORY_LENGTH < hist_length (ai_history ai)) (str ''ai.history.length'')
       (str ''must be <= '' @ dec_nat MAX_HISTORY_LENGTH) @
     error_if (MAX_HISTORY_LENGTH < hist_ai_channel_length (ai_history ai)) (str ''ai.history.ai_channel_length'')
       (str ''must be <= '' @ dec_nat MAX_HISTORY_LENGTH) @
     error_if (mem_inject_byte_budget (ai_memory ai)
         < usize_add (mem_soul_bytes (ai_memory ai)) (mem_lore_bytes (ai_memory ai)))
       (str ''ai.memory.inject_byte_budget'') (str ''must be >= soul_bytes + lore_bytes'') @
     error_if (outside 1 200 (drm_max_rounds (ai_dreamer ai))) (str ''ai.dreamer.max_rounds'')
       (range_msg 1 200 (drm_max_rounds (ai_dreamer ai))) @
     error_if (outside 1 64 (drm_max_writes_per_turn (ai_dreamer ai))) (str ''ai.dreamer.max_writes_per_turn'')
       (range_msg 1 64 (drm_max_writes_per_turn (ai_dreamer ai))) @
     error_if (drm_timeout_secs (ai_dreamer ai) = 0) (str ''ai.dreamer.timeout_secs'') positive_msg @
     error_if (\<not> ck_hhmm ck (drm_run_at (ai_dreamer ai))) (str ''ai.dreamer.run_at'')
       (str ''must be HH:MM (got '' @ ck_debug ck (drm_run_at (ai_dreamer ai)) @ str '')'') @
     effort_errors (str ''ai.connection.reasoning_effort'') (conn_reasoning_effort (ai_connection ai)) @
     effort_errors (str ''ai.dreamer.reasoning_effort'') (drm_reasoning_effort (ai_dreamer ai)) @
     tier_errors ck (str ''ai.connection.service_tier'') (conn_service_tier (ai_connection ai)) @
     tier_errors ck (str ''ai.dreamer.service_tier'') (drm_service_tier (ai_dreamer ai)) @
     (case conn_base_url (ai_connection ai) of
        Some url \<Rightarrow> error_if (\<not> ck_url ck url) (str ''ai.connection.base_url'') (url_msg ck url)
      | None \<Rightarrow> []) @
     error_if (conn_timeout (ai_connection ai) = 0) (str ''ai.connection.timeout'') positive_msg @
     prefill_errors ck ai @
     web_errors ck (ai_web ai) @
     emotes_errors (ai_emotes ai)"

definition channel_errors :: "Checks \<Rightarrow> rstr \<Rightarrow> rstr \<Rightarrow> rstr option \<Rightarrow> FieldError list" where
  "channel_errors ck channel field val =
     (case val of
        None \<Rightarrow> []
      | Some v \<Rightarrow>
          if trim v = [] then [\<lparr>fe_field = field, fe_message = str ''must not be blank when set''\<rparr>]
          else error_if (trim v = channel) field
            (str ''must differ from twitch.channel ('' @ ck_debug ck channel @ str '')''))"

definition same_channel_errors :: "rstr option \<Rightarrow> rstr option \<Rightarrow> FieldError list" where
  "same_channel_errors admin ai =
     (case (admin, ai) of
        (Some ad, Some a) \<Rightarrow>
          error_if (trim ad \<noteq> [] \<and> trim a \<noteq> [] \<and> trim ad = trim a) (str ''twitch.ai_channel'')
            (str ''must differ from twitch.admin_channel'')
      | _ \<Rightarrow> [])"

fun blank_errors :: "rstr \<Rightarrow> nat \<Rightarrow> rstr list \<Rightarrow> FieldError list" where
  "blank_errors field idx [] = []"
| "blank_errors field idx (x # xs) =
     error_if (trim x = []) (field @ str ''['' @ dec_nat idx @ str '']'') (str ''must not be blank'') @
     blank_errors field (idx + 1) xs"

definition schedule_prefix :: "nat \<Rightarrow> rstr" where
  "schedule_prefix idx = str ''schedules['' @ dec_nat idx @ str '']''"

fun schedule_errors :: "Checks \<Rightarrow> nat \<Rightarrow> rstr set \<Rightarrow> Schedule list \<Rightarrow> FieldError list" where
  "schedule_errors ck idx seen [] = []"
| "schedule_errors ck idx seen (sc # scs) =
     (let name = trim (sc_name sc) in
      validate_schedule (ck_chars ck) (ck_date ck) (schedule_prefix idx) sc @
      error_if (name \<noteq> [] \<and> name \<in> seen) (schedule_prefix idx @ str ''.name'')
        (str ''duplicate name '' @ ck_debug ck name) @
      schedule_errors ck (idx + 1) (if name = [] then seen else insert name seen) scs)"

definition aviationstack_errors :: "Checks \<Rightarrow> AviationstackSettings \<Rightarrow> FieldError list" where
  "aviationstack_errors ck av =
     (if avs_enabled av
      then error_if (\<not> ck_url ck (avs_base_url av)) (str ''aviationstack.base_url'') (url_msg ck (avs_base_url av)) @
           error_if (avs_timeout_secs av = 0) (str ''aviationstack.timeout_secs'') positive_msg
      else [])"

definition validate_settings :: "Checks \<Rightarrow> rstr \<Rightarrow> Settings \<Rightarrow> FieldError list" where
  "validate_settings ck channel s =
     bound (str ''cooldowns.ai'') (cool_ai (st_cooldowns s)) 1 3600 @
     bound (str ''cooldowns.news'') (cool_news (st_cooldowns s)) 1 3600 @
     bound (str ''cooldowns.up'') (cool_up (st_cooldowns s)) 1 3600 @
     bound (str ''cooldowns.feedback'') (cool_feedback (st_cooldowns s)) 1 3600 @
     bound (str ''cooldowns.doener'') (cool_doener (st_cooldowns s)) 1 3600 @
     bound (str ''pings.cooldown'') (png_cooldown (st_pings s)) 1 86400 @
     validate_ai ck (st_ai s) @
     error_if (1000 < twi_expected_latency (st_twitch s)) (str ''twitch.expected_latency'')
       (str ''must be <= 1000ms (got '' @ dec_nat (twi_expected_latency (st_twitch s)) @ str '')'') @
     channel_errors ck channel (str ''twitch.admin_channel'') (twi_admin_channel (st_twitch s)) @
     channel_errors ck channel (str ''twitch.ai_channel'') (twi_ai_channel (st_twitch s)) @
     same_channel_errors (twi_admin_channel (st_twitch s)) (twi_ai_channel (st_twitch s)) @
     blank_errors (str ''twitch.hidden_admins'') 0 (twi_hidden_admins (st_twitch s)) @
     blank_errors (str ''twitch.viewer_allowlist'') 0 (twi_viewer_allowlist (st_twitch s)) @
     error_if (outside 1 604800 (sus_default_duration_secs (st_suspend s))) (str ''suspend.default_duration_secs'')
       (range_msg 1 604800 (sus_default_duration_secs (st_suspend s))) @
     aviationstack_errors ck (st_aviationstack s) @
     error_if (outside 3600 2592000 (wrt_session_ttl_secs (st_web s))) (str ''web.session_ttl_secs'')
       (range_msg 3600 2592000 (wrt_session_ttl_secs (st_web s))) @
     error_if (outside 30 3600 (wrt_mod_check_refresh_secs (st_web s))) (str ''web.mod_check_refresh_secs'')
       (range_msg 30 3600 (wrt_mod_check_refresh_secs (st_web s))) @
     schedule_errors ck 0 {} (st_schedules s)"

section \<open>What a valid snapshot satisfies\<close>

lemma error_if_Nil [simp]: "error_if bad field message = [] \<longleftrightarrow> \<not> bad"
  by (simp add: error_if_def)

lemma bound_Nil [simp]: "bound name v lo hi = [] \<longleftrightarrow> lo \<le> v \<and> v \<le> hi"
  by (auto simp: bound_def)

lemma outside_iff [simp]: "\<not> outside lo hi v \<longleftrightarrow> lo \<le> v \<and> v \<le> hi"
  by (simp add: outside_def)

definition none_or :: "('a \<Rightarrow> bool) \<Rightarrow> 'a option \<Rightarrow> bool" where
  "none_or P x \<longleftrightarrow> (case x of None \<Rightarrow> True | Some v \<Rightarrow> P v)"

lemma none_or_simps [simp]: "none_or P None" "none_or P (Some v) \<longleftrightarrow> P v"
  by (simp_all add: none_or_def)

lemma effort_Nil: "effort_errors field val = [] \<longleftrightarrow> none_or (\<lambda>v. trim v \<noteq> []) val"
  by (cases val) (simp_all add: effort_errors_def)

lemma tier_Nil: "tier_errors ck field val = [] \<longleftrightarrow> none_or (\<lambda>v. trim v \<in> {str ''flex'', str ''priority''}) val"
  by (cases val) (auto simp: tier_errors_def str_def)

lemma channel_Nil: "channel_errors ck channel field val = [] \<longleftrightarrow> none_or (\<lambda>v. trim v \<notin> {[], channel}) val"
  by (cases val) (auto simp: channel_errors_def)

lemma blank_Nil: "blank_errors field idx xs = [] \<longleftrightarrow> (\<forall>x\<in>set xs. trim x \<noteq> [])"
  by (induction xs arbitrary: idx) simp_all

lemma validate_schedule_prefix:
  "validate_schedule sc sd p s = [] \<Longrightarrow> validate_schedule sc sd q s = []"
  by (auto simp: validate_schedule_def validate_interval_def Let_def split: if_splits Trigger.splits option.splits)

lemma valid_schedule_name: "validate_schedule sc sd p s = [] \<Longrightarrow> trim (sc_name s) \<noteq> []"
  by (auto simp: validate_schedule_def)

definition schedule_ok :: "Checks \<Rightarrow> Schedule \<Rightarrow> bool" where
  "schedule_ok ck sc \<longleftrightarrow> validate_schedule (ck_chars ck) (ck_date ck) [] sc = []"

lemma schedule_ok_prefix: "validate_schedule (ck_chars ck) (ck_date ck) p sc = [] \<longleftrightarrow> schedule_ok ck sc"
  unfolding schedule_ok_def using validate_schedule_prefix by metis

lemma schedule_errors_Nil:
  "schedule_errors ck idx seen scs = [] \<longleftrightarrow>
   (\<forall>sc\<in>set scs. schedule_ok ck sc \<and> trim (sc_name sc) \<notin> seen) \<and> distinct (map (trim \<circ> sc_name) scs)"
proof (induction scs arbitrary: idx seen)
  case (Cons sc scs)
  show ?case
  proof (cases "schedule_ok ck sc")
    case True
    then have "trim (sc_name sc) \<noteq> []" using valid_schedule_name by (auto simp: schedule_ok_def)
    moreover have "distinct (map (trim \<circ> sc_name) (sc # scs)) \<longleftrightarrow>
        (\<forall>s\<in>set scs. trim (sc_name s) \<noteq> trim (sc_name sc)) \<and> distinct (map (trim \<circ> sc_name) scs)"
      by (simp add: image_iff) metis
    moreover have "(\<forall>s\<in>set scs. schedule_ok ck s \<and> trim (sc_name s) \<notin> insert (trim (sc_name sc)) seen) \<longleftrightarrow>
        (\<forall>s\<in>set scs. schedule_ok ck s \<and> trim (sc_name s) \<notin> seen) \<and>
        (\<forall>s\<in>set scs. trim (sc_name s) \<noteq> trim (sc_name sc))"
      by blast
    ultimately show ?thesis
      using Cons.IH [of "idx + 1" "insert (trim (sc_name sc)) seen"] True
      by (simp only: schedule_errors.simps Let_def append_is_Nil_conv schedule_ok_prefix error_if_Nil if_False
          list.set ball_simps) argo
  qed (simp add: Let_def schedule_ok_prefix)
qed simp

definition ai_settings_ok :: "Checks \<Rightarrow> AiSettings \<Rightarrow> bool" where
  "ai_settings_ok ck ai \<longleftrightarrow>
     beh_max_turn_rounds (ai_behavior ai) \<in> {1..20} \<and> beh_max_writes_per_turn (ai_behavior ai) \<in> {1..64} \<and>
     trim (beh_persona_name (ai_behavior ai)) \<noteq> [] \<and>
     hist_length (ai_history ai) \<le> 5000 \<and> hist_ai_channel_length (ai_history ai) \<le> 5000 \<and>
     usize_add (mem_soul_bytes (ai_memory ai)) (mem_lore_bytes (ai_memory ai)) \<le> mem_inject_byte_budget (ai_memory ai) \<and>
     drm_max_rounds (ai_dreamer ai) \<in> {1..200} \<and> drm_max_writes_per_turn (ai_dreamer ai) \<in> {1..64} \<and>
     0 < drm_timeout_secs (ai_dreamer ai) \<and> ck_hhmm ck (drm_run_at (ai_dreamer ai)) \<and>
     none_or (\<lambda>v. trim v \<noteq> []) (conn_reasoning_effort (ai_connection ai)) \<and>
     none_or (\<lambda>v. trim v \<noteq> []) (drm_reasoning_effort (ai_dreamer ai)) \<and>
     none_or (\<lambda>v. trim v \<in> {str ''flex'', str ''priority''}) (conn_service_tier (ai_connection ai)) \<and>
     none_or (\<lambda>v. trim v \<in> {str ''flex'', str ''priority''}) (drm_service_tier (ai_dreamer ai)) \<and>
     none_or (ck_url ck) (conn_base_url (ai_connection ai)) \<and> 0 < conn_timeout (ai_connection ai) \<and>
     none_or (\<lambda>p. ck_url ck (pre_base_url p) \<and> 0 \<le> pre_threshold p \<and> pre_threshold p \<le> 1 \<and>
        0 < hist_length (ai_history ai)) (ai_prefill ai) \<and>
     none_or (\<lambda>w. ck_url ck (aweb_base_url w) \<and> aweb_max_results w \<in> {1..10} \<and> aweb_max_rounds w \<in> {1..6} \<and>
        0 < aweb_cache_capacity w) (ai_web ai) \<and>
     none_or (\<lambda>e. 0 < emo_refresh_interval_secs e \<and> emo_max_prompt_emotes e \<in> {1..200} \<and>
        emo_min_baseline_emotes e \<le> emo_max_prompt_emotes e \<and>
        length (emo_pinned_emotes e) \<le> emo_max_prompt_emotes e \<and>
        none_or (\<lambda>url. trim url \<noteq> []) (emo_base_url e)) (ai_emotes ai)"

definition twitch_ok :: "rstr \<Rightarrow> TwitchRuntime \<Rightarrow> bool" where
  "twitch_ok channel tw \<longleftrightarrow>
     twi_expected_latency tw \<le> 1000 \<and>
     none_or (\<lambda>v. trim v \<notin> {[], channel}) (twi_admin_channel tw) \<and>
     none_or (\<lambda>v. trim v \<notin> {[], channel}) (twi_ai_channel tw) \<and>
     none_or (\<lambda>ad. none_or (\<lambda>a. trim ad \<noteq> trim a) (twi_ai_channel tw)) (twi_admin_channel tw) \<and>
     (\<forall>x\<in>set (twi_hidden_admins tw) \<union> set (twi_viewer_allowlist tw). trim x \<noteq> [])"

definition settings_ok :: "Checks \<Rightarrow> rstr \<Rightarrow> Settings \<Rightarrow> bool" where
  "settings_ok ck channel s \<longleftrightarrow>
     (\<forall>c\<in>{cool_ai, cool_news, cool_up, cool_feedback, cool_doener}. c (st_cooldowns s) \<in> {1..3600}) \<and>
     png_cooldown (st_pings s) \<in> {1..86400} \<and>
     ai_settings_ok ck (st_ai s) \<and> twitch_ok channel (st_twitch s) \<and>
     sus_default_duration_secs (st_suspend s) \<in> {1..604800} \<and>
     (avs_enabled (st_aviationstack s) \<longrightarrow>
        ck_url ck (avs_base_url (st_aviationstack s)) \<and> 0 < avs_timeout_secs (st_aviationstack s)) \<and>
     wrt_session_ttl_secs (st_web s) \<in> {3600..2592000} \<and> wrt_mod_check_refresh_secs (st_web s) \<in> {30..3600} \<and>
     (\<forall>sc\<in>set (st_schedules s). schedule_ok ck sc) \<and> distinct (map (trim \<circ> sc_name) (st_schedules s))"

lemma case_none_or: "(case x of None \<Rightarrow> [] | Some v \<Rightarrow> f v) = [] \<longleftrightarrow> none_or (\<lambda>v. f v = []) x"
  by (cases x) simp_all

lemma validate_ai_Nil: "validate_ai ck ai = [] \<longleftrightarrow> ai_settings_ok ck ai"
  unfolding validate_ai_def ai_settings_ok_def prefill_errors_def web_errors_def emotes_errors_def
    append_is_Nil_conv error_if_Nil case_none_or effort_Nil tier_Nil outside_iff not_less not_not
    MAX_HISTORY_LENGTH_def atLeastAtMost_iff neq0_conv conj_assoc
  by (rule refl)

lemma twitch_Nil:
  "(twi_expected_latency tw \<le> 1000 \<and>
    channel_errors ck channel f1 (twi_admin_channel tw) = [] \<and>
    channel_errors ck channel f2 (twi_ai_channel tw) = [] \<and>
    same_channel_errors (twi_admin_channel tw) (twi_ai_channel tw) = [] \<and>
    blank_errors f3 i (twi_hidden_admins tw) = [] \<and> blank_errors f4 j (twi_viewer_allowlist tw) = []) \<longleftrightarrow>
   twitch_ok channel tw"
  unfolding twitch_ok_def channel_Nil blank_Nil same_channel_errors_def none_or_def
  by (auto split: option.splits)

lemma validate_settings_Nil: "validate_settings ck channel s = [] \<longleftrightarrow> settings_ok ck channel s"
proof -
  have av: "aviationstack_errors ck a = [] \<longleftrightarrow>
      (avs_enabled a \<longrightarrow> ck_url ck (avs_base_url a) \<and> 0 < avs_timeout_secs a)" for a
    by (simp add: aviationstack_errors_def)
  show ?thesis
    unfolding validate_settings_def settings_ok_def append_is_Nil_conv validate_ai_Nil error_if_Nil bound_Nil
      outside_iff not_less av schedule_errors_Nil atLeastAtMost_iff
      twitch_Nil [where i = 0 and j = 0, symmetric, of channel "st_twitch s" ck "str ''twitch.admin_channel''"
        "str ''twitch.ai_channel''" "str ''twitch.hidden_admins''" "str ''twitch.viewer_allowlist''"]
    by (simp add: conj_assoc)
qed

end
