(* ===== verification/Settings_Audit.thy ===== *)
theory Settings_Audit imports Settings_Validation Json "HOL-Library.List_Lexorder" begin

text \<open>
  \<^verbatim>\<open>settings/audit.rs\<close>: the entry of the audit log and the comparison of two snapshots of the
  settings, leaf by leaf. The JSON of a byte size (the bytesize crate) and of a schedule (with the
  dates and times of chrono) are the fields of \<^verbatim>\<open>AuditFmt\<close>.
\<close>

record AuditFmt =
  af_bytesize :: "nat \<Rightarrow> json"
  af_schedule :: "Schedule \<Rightarrow> json"

record AuditChange =
  ac_key :: rstr
  ac_old :: json
  ac_new :: json

record AuditEntry =
  ae_ts :: instant
  ae_actor_id :: rstr
  ae_actor_login :: rstr
  ae_changes :: "AuditChange list"

section \<open>The leaves of a section\<close>

definition cmp :: "rstr \<Rightarrow> ('a \<Rightarrow> json) \<Rightarrow> 'a \<Rightarrow> 'a \<Rightarrow> AuditChange list" where
  "cmp key j p n = (if p \<noteq> n then [\<lparr>ac_key = key, ac_old = j p, ac_new = j n\<rparr>] else [])"

definition json_nat :: "nat \<Rightarrow> json" where "json_nat n = JInt (int n)"

definition json_strs :: "rstr list \<Rightarrow> json" where "json_strs xs = JArr (map JStr xs)"

fun backend_json :: "AiBackendKind \<Rightarrow> json" where
  "backend_json OpenAi = JStr (str ''openai'')"
| "backend_json Ollama = JStr (str ''ollama'')"

definition diff_cool :: "Cooldowns \<Rightarrow> Cooldowns \<Rightarrow> AuditChange list" where
  "diff_cool p n =
     cmp (str ''cooldowns.ai'') json_nat (cool_ai p) (cool_ai n) @
     cmp (str ''cooldowns.news'') json_nat (cool_news p) (cool_news n) @
     cmp (str ''cooldowns.up'') json_nat (cool_up p) (cool_up n) @
     cmp (str ''cooldowns.feedback'') json_nat (cool_feedback p) (cool_feedback n) @
     cmp (str ''cooldowns.doener'') json_nat (cool_doener p) (cool_doener n)"

definition diff_png :: "PingsSettings \<Rightarrow> PingsSettings \<Rightarrow> AuditChange list" where
  "diff_png p n =
     cmp (str ''pings.cooldown'') json_nat (png_cooldown p) (png_cooldown n) @
     cmp (str ''pings.public'') JBool (png_public p) (png_public n)"

definition diff_conn :: "AiConnection \<Rightarrow> AiConnection \<Rightarrow> AuditChange list" where
  "diff_conn p n =
     cmp (str ''ai.connection.backend'') backend_json (conn_backend p) (conn_backend n) @
     cmp (str ''ai.connection.base_url'') (opt_json JStr) (conn_base_url p) (conn_base_url n) @
     cmp (str ''ai.connection.model'') JStr (conn_model p) (conn_model n) @
     cmp (str ''ai.connection.timeout'') json_nat (conn_timeout p) (conn_timeout n) @
     cmp (str ''ai.connection.reasoning_effort'') (opt_json JStr) (conn_reasoning_effort p) (conn_reasoning_effort n) @
     cmp (str ''ai.connection.service_tier'') (opt_json JStr) (conn_service_tier p) (conn_service_tier n)"

definition diff_beh :: "AiBehavior \<Rightarrow> AiBehavior \<Rightarrow> AuditChange list" where
  "diff_beh p n =
     cmp (str ''ai.behavior.max_turn_rounds'') json_nat (beh_max_turn_rounds p) (beh_max_turn_rounds n) @
     cmp (str ''ai.behavior.max_writes_per_turn'') json_nat (beh_max_writes_per_turn p) (beh_max_writes_per_turn n) @
     cmp (str ''ai.behavior.persona_name'') JStr (beh_persona_name p) (beh_persona_name n)"

definition diff_hist :: "AiHistory \<Rightarrow> AiHistory \<Rightarrow> AuditChange list" where
  "diff_hist p n =
     cmp (str ''ai.history.length'') json_nat (hist_length p) (hist_length n) @
     cmp (str ''ai.history.ai_channel_length'') json_nat (hist_ai_channel_length p) (hist_ai_channel_length n)"

definition diff_mem :: "AiMemory \<Rightarrow> AiMemory \<Rightarrow> AuditChange list" where
  "diff_mem p n =
     cmp (str ''ai.memory.soul_bytes'') json_nat (mem_soul_bytes p) (mem_soul_bytes n) @
     cmp (str ''ai.memory.lore_bytes'') json_nat (mem_lore_bytes p) (mem_lore_bytes n) @
     cmp (str ''ai.memory.user_bytes'') json_nat (mem_user_bytes p) (mem_user_bytes n) @
     cmp (str ''ai.memory.state_bytes'') json_nat (mem_state_bytes p) (mem_state_bytes n) @
     cmp (str ''ai.memory.inject_byte_budget'') json_nat (mem_inject_byte_budget p) (mem_inject_byte_budget n) @
     cmp (str ''ai.memory.max_state_files'') json_nat (mem_max_state_files p) (mem_max_state_files n)"

definition diff_drm :: "AiDreamer \<Rightarrow> AiDreamer \<Rightarrow> AuditChange list" where
  "diff_drm p n =
     cmp (str ''ai.dreamer.enabled'') JBool (drm_enabled p) (drm_enabled n) @
     cmp (str ''ai.dreamer.model'') (opt_json JStr) (drm_model p) (drm_model n) @
     cmp (str ''ai.dreamer.reasoning_effort'') (opt_json JStr) (drm_reasoning_effort p) (drm_reasoning_effort n) @
     cmp (str ''ai.dreamer.service_tier'') (opt_json JStr) (drm_service_tier p) (drm_service_tier n) @
     cmp (str ''ai.dreamer.run_at'') JStr (drm_run_at p) (drm_run_at n) @
     cmp (str ''ai.dreamer.timeout_secs'') json_nat (drm_timeout_secs p) (drm_timeout_secs n) @
     cmp (str ''ai.dreamer.max_rounds'') json_nat (drm_max_rounds p) (drm_max_rounds n) @
     cmp (str ''ai.dreamer.max_writes_per_turn'') json_nat (drm_max_writes_per_turn p) (drm_max_writes_per_turn n)"

definition diff_pre :: "AiPrefill \<Rightarrow> AiPrefill \<Rightarrow> AuditChange list" where
  "diff_pre p n =
     cmp (str ''ai.prefill.base_url'') JStr (pre_base_url p) (pre_base_url n) @
     cmp (str ''ai.prefill.threshold'') JNum (pre_threshold p) (pre_threshold n)"

definition diff_aweb :: "AiWeb \<Rightarrow> AiWeb \<Rightarrow> AuditChange list" where
  "diff_aweb p n =
     cmp (str ''ai.web.base_url'') JStr (aweb_base_url p) (aweb_base_url n) @
     cmp (str ''ai.web.timeout'') json_nat (aweb_timeout p) (aweb_timeout n) @
     cmp (str ''ai.web.max_results'') json_nat (aweb_max_results p) (aweb_max_results n) @
     cmp (str ''ai.web.max_rounds'') json_nat (aweb_max_rounds p) (aweb_max_rounds n) @
     cmp (str ''ai.web.cache_ttl_secs'') json_nat (aweb_cache_ttl_secs p) (aweb_cache_ttl_secs n) @
     cmp (str ''ai.web.cache_capacity'') json_nat (aweb_cache_capacity p) (aweb_cache_capacity n)"

definition diff_emo :: "AiEmotes \<Rightarrow> AiEmotes \<Rightarrow> AuditChange list" where
  "diff_emo p n =
     cmp (str ''ai.emotes.include_global'') JBool (emo_include_global p) (emo_include_global n) @
     cmp (str ''ai.emotes.refresh_interval_secs'') json_nat (emo_refresh_interval_secs p) (emo_refresh_interval_secs n) @
     cmp (str ''ai.emotes.max_prompt_emotes'') json_nat (emo_max_prompt_emotes p) (emo_max_prompt_emotes n) @
     cmp (str ''ai.emotes.min_baseline_emotes'') json_nat (emo_min_baseline_emotes p) (emo_min_baseline_emotes n) @
     cmp (str ''ai.emotes.pinned_emotes'') json_strs (emo_pinned_emotes p) (emo_pinned_emotes n) @
     cmp (str ''ai.emotes.base_url'') (opt_json JStr) (emo_base_url p) (emo_base_url n)"

definition diff_med :: "AuditFmt \<Rightarrow> AiMedia \<Rightarrow> AiMedia \<Rightarrow> AuditChange list" where
  "diff_med af p n =
     cmp (str ''ai.media.model'') JStr (med_model p) (med_model n) @
     cmp (str ''ai.media.timeout'') json_nat (med_timeout p) (med_timeout n) @
     cmp (str ''ai.media.max_image_size'') (af_bytesize af) (med_max_image_size p) (med_max_image_size n) @
     cmp (str ''ai.media.max_pdf_size'') (af_bytesize af) (med_max_pdf_size p) (med_max_pdf_size n) @
     cmp (str ''ai.media.max_audio_size'') (af_bytesize af) (med_max_audio_size p) (med_max_audio_size n) @
     cmp (str ''ai.media.max_video_size'') (af_bytesize af) (med_max_video_size p) (med_max_video_size n) @
     cmp (str ''ai.media.max_text_size'') (af_bytesize af) (med_max_text_size p) (med_max_text_size n)"

definition diff_twi :: "TwitchRuntime \<Rightarrow> TwitchRuntime \<Rightarrow> AuditChange list" where
  "diff_twi p n =
     cmp (str ''twitch.expected_latency'') json_nat (twi_expected_latency p) (twi_expected_latency n) @
     cmp (str ''twitch.hidden_admins'') json_strs (twi_hidden_admins p) (twi_hidden_admins n) @
     cmp (str ''twitch.viewer_allowlist'') json_strs (twi_viewer_allowlist p) (twi_viewer_allowlist n) @
     cmp (str ''twitch.admin_channel'') (opt_json JStr) (twi_admin_channel p) (twi_admin_channel n) @
     cmp (str ''twitch.ai_channel'') (opt_json JStr) (twi_ai_channel p) (twi_ai_channel n)"

definition diff_avs :: "AviationstackSettings \<Rightarrow> AviationstackSettings \<Rightarrow> AuditChange list" where
  "diff_avs p n =
     cmp (str ''aviationstack.enabled'') JBool (avs_enabled p) (avs_enabled n) @
     cmp (str ''aviationstack.base_url'') JStr (avs_base_url p) (avs_base_url n) @
     cmp (str ''aviationstack.timeout_secs'') json_nat (avs_timeout_secs p) (avs_timeout_secs n)"

definition diff_sus :: "SuspendSettings \<Rightarrow> SuspendSettings \<Rightarrow> AuditChange list" where
  "diff_sus p n =
     cmp (str ''suspend.default_duration_secs'') json_nat (sus_default_duration_secs p) (sus_default_duration_secs n)"

definition diff_wrt :: "WebRuntime \<Rightarrow> WebRuntime \<Rightarrow> AuditChange list" where
  "diff_wrt p n =
     cmp (str ''web.session_ttl_secs'') json_nat (wrt_session_ttl_secs p) (wrt_session_ttl_secs n) @
     cmp (str ''web.mod_check_refresh_secs'') json_nat (wrt_mod_check_refresh_secs p) (wrt_mod_check_refresh_secs n)"

section \<open>Sections that can be switched off\<close>

definition prefill_json :: "AiPrefill \<Rightarrow> json" where
  "prefill_json p =
     JObj [(str ''base_url'', JStr (pre_base_url p)), (str ''threshold'', JNum (pre_threshold p))]"

definition aweb_json :: "AiWeb \<Rightarrow> json" where
  "aweb_json w =
     JObj [(str ''base_url'', JStr (aweb_base_url w)), (str ''timeout'', json_nat (aweb_timeout w)),
           (str ''max_results'', json_nat (aweb_max_results w)), (str ''max_rounds'', json_nat (aweb_max_rounds w)),
           (str ''cache_ttl_secs'', json_nat (aweb_cache_ttl_secs w)),
           (str ''cache_capacity'', json_nat (aweb_cache_capacity w))]"

definition emotes_json :: "AiEmotes \<Rightarrow> json" where
  "emotes_json e =
     JObj [(str ''include_global'', JBool (emo_include_global e)),
           (str ''refresh_interval_secs'', json_nat (emo_refresh_interval_secs e)),
           (str ''max_prompt_emotes'', json_nat (emo_max_prompt_emotes e)),
           (str ''min_baseline_emotes'', json_nat (emo_min_baseline_emotes e)),
           (str ''pinned_emotes'', json_strs (emo_pinned_emotes e)),
           (str ''base_url'', opt_json JStr (emo_base_url e))]"

definition diff_card ::
  "rstr \<Rightarrow> ('a \<Rightarrow> json) \<Rightarrow> ('a \<Rightarrow> 'a \<Rightarrow> AuditChange list) \<Rightarrow> 'a option \<Rightarrow> 'a option \<Rightarrow> AuditChange list" where
  "diff_card key j leaves p n =
     (case (p, n) of
        (None, None) \<Rightarrow> []
      | (Some a, Some b) \<Rightarrow> leaves a b
      | _ \<Rightarrow> [\<lparr>ac_key = key, ac_old = opt_json j p, ac_new = opt_json j n\<rparr>])"

section \<open>Schedules, by name\<close>

definition by_name :: "Schedule list \<Rightarrow> rstr \<Rightarrow> Schedule option" where
  "by_name scs = map_of (rev (map (\<lambda>s. (sc_name s, s)) scs))"

definition schedule_names :: "Schedule list \<Rightarrow> Schedule list \<Rightarrow> rstr list" where
  "schedule_names p n = sort (remdups (map sc_name p @ map sc_name n))"

definition diff_schedules :: "AuditFmt \<Rightarrow> Schedule list \<Rightarrow> Schedule list \<Rightarrow> AuditChange list" where
  "diff_schedules af p n =
     concat (map (\<lambda>name. cmp (str ''schedules.'' @ name) (opt_json (af_schedule af)) (by_name p name) (by_name n name))
       (schedule_names p n))"

section \<open>The comparison\<close>

definition diff_ai :: "AuditFmt \<Rightarrow> AiSettings \<Rightarrow> AiSettings \<Rightarrow> AuditChange list" where
  "diff_ai af p n =
     diff_conn (ai_connection p) (ai_connection n) @
     diff_beh (ai_behavior p) (ai_behavior n) @
     diff_hist (ai_history p) (ai_history n) @
     diff_mem (ai_memory p) (ai_memory n) @
     diff_drm (ai_dreamer p) (ai_dreamer n) @
     diff_card (str ''ai.prefill'') prefill_json diff_pre (ai_prefill p) (ai_prefill n) @
     diff_card (str ''ai.web'') aweb_json diff_aweb (ai_web p) (ai_web n) @
     diff_card (str ''ai.emotes'') emotes_json diff_emo (ai_emotes p) (ai_emotes n) @
     diff_med af (ai_media p) (ai_media n)"

definition diff_changes :: "AuditFmt \<Rightarrow> Settings \<Rightarrow> Settings \<Rightarrow> AuditChange list" where
  "diff_changes af p n =
     diff_cool (st_cooldowns p) (st_cooldowns n) @
     diff_png (st_pings p) (st_pings n) @
     diff_ai af (st_ai p) (st_ai n) @
     diff_twi (st_twitch p) (st_twitch n) @
     diff_avs (st_aviationstack p) (st_aviationstack n) @
     diff_sus (st_suspend p) (st_suspend n) @
     diff_wrt (st_web p) (st_web n) @
     diff_schedules af (st_schedules p) (st_schedules n)"

section \<open>Nothing is reported exactly when nothing changed\<close>

lemma cmp_Nil [simp]: "cmp key j p n = [] \<longleftrightarrow> p = n"
  by (simp add: cmp_def)

lemmas diff_defs = diff_cool_def diff_png_def diff_conn_def diff_beh_def diff_hist_def diff_mem_def diff_drm_def
  diff_pre_def diff_aweb_def diff_emo_def diff_med_def diff_twi_def diff_avs_def diff_sus_def diff_wrt_def

lemma diff_section_Nil:
  "diff_cool p1 n1 = [] \<longleftrightarrow> p1 = n1" "diff_png p2 n2 = [] \<longleftrightarrow> p2 = n2" "diff_conn p3 n3 = [] \<longleftrightarrow> p3 = n3"
  "diff_beh p4 n4 = [] \<longleftrightarrow> p4 = n4" "diff_hist p5 n5 = [] \<longleftrightarrow> p5 = n5" "diff_mem p6 n6 = [] \<longleftrightarrow> p6 = n6"
  "diff_drm p7 n7 = [] \<longleftrightarrow> p7 = n7" "diff_pre p8 n8 = [] \<longleftrightarrow> p8 = n8" "diff_aweb p9 n9 = [] \<longleftrightarrow> p9 = n9"
  "diff_emo p10 n10 = [] \<longleftrightarrow> p10 = n10" "diff_med af p11 n11 = [] \<longleftrightarrow> p11 = n11"
  "diff_twi p12 n12 = [] \<longleftrightarrow> p12 = n12" "diff_avs p13 n13 = [] \<longleftrightarrow> p13 = n13"
  "diff_sus p14 n14 = [] \<longleftrightarrow> p14 = n14" "diff_wrt p15 n15 = [] \<longleftrightarrow> p15 = n15"
  by (auto simp: diff_defs)

lemma diff_card_Nil: "(\<And>a b. leaves a b = [] \<longleftrightarrow> a = b) \<Longrightarrow> diff_card key j leaves p n = [] \<longleftrightarrow> p = n"
  by (auto simp: diff_card_def split: option.splits)

lemma diff_ai_Nil: "diff_ai af p n = [] \<longleftrightarrow> p = n"
  by (cases p; cases n) (simp add: diff_ai_def diff_section_Nil diff_card_Nil)

lemma by_name_Some:
  assumes "distinct (map sc_name scs)"
  shows "by_name scs name = Some s \<longleftrightarrow> s \<in> set scs \<and> sc_name s = name"
proof -
  have "distinct (map fst (rev (map (\<lambda>s. (sc_name s, s)) scs)))"
    using assms by (simp add: rev_map [symmetric] comp_def)
  then show ?thesis unfolding by_name_def by (auto simp: map_of_eq_Some_iff)
qed

lemma diff_schedules_Nil:
  assumes "distinct (map sc_name p)" and "distinct (map sc_name n)"
  shows "diff_schedules af p n = [] \<longleftrightarrow> set p = set n"
proof -
  have "diff_schedules af p n = [] \<longleftrightarrow> (\<forall>name \<in> sc_name ` (set p \<union> set n). by_name p name = by_name n name)"
    by (auto simp: diff_schedules_def schedule_names_def)
  also have "\<dots> \<longleftrightarrow> set p = set n"
    using by_name_Some [OF assms(1)] by_name_Some [OF assms(2)] by (auto; metis UnCI image_eqI)
  finally show ?thesis .
qed

lemma diff_changes_Nil:
  assumes "distinct (map sc_name (st_schedules p))" and "distinct (map sc_name (st_schedules n))"
    and "st_schema_version p = st_schema_version n"
  shows "diff_changes af p n = [] \<longleftrightarrow>
    p\<lparr>st_schedules := []\<rparr> = n\<lparr>st_schedules := []\<rparr> \<and> set (st_schedules p) = set (st_schedules n)"
  using assms(3) diff_schedules_Nil [OF assms(1,2), of af]
  by (cases p; cases n) (simp add: diff_changes_def diff_section_Nil diff_ai_Nil)

lemma distinct_trimmed: "distinct (map (trim \<circ> sc_name) scs) \<Longrightarrow> distinct (map sc_name scs)"
  by (metis distinct_map map_map)

end
