(* ===== verification/Settings_Store.thy ===== *)
theory Settings_Store imports Settings_Laws Settings_Audit Reachability begin

text \<open>
  \<^verbatim>\<open>settings/store/mod.rs\<close> and \<^verbatim>\<open>settings/store/load.rs\<close>: the owner of \<^verbatim>\<open>settings.ron\<close>. The file is
  missing, holds overrides, or cannot be read or parsed; whether renaming, writing and appending
  succeed are arguments. A write of the file is a rename: it happens as a whole or not at all. All
  changes run under the write lock, so each is one step.
\<close>

datatype SettingsFile = Missing | Holds SettingsOverrides | Unreadable

datatype SettingsError = Validation "FieldError list" | Unparsable | PersistFailed | RenameFailed

datatype SettingsSection =
    SecCooldowns | SecPings | SecAiConnection | SecAiBehavior | SecAiHistory | SecAiMemory | SecAiDreamer
  | SecAiPrefill | SecAiWeb | SecAiEmotes | SecAiMedia | SecTwitchPermissions | SecTwitchChannels
  | SecAviationstack | SecSuspend | SecWebRuntime | SecSchedules

record Actor =
  act_user_id :: rstr
  act_user_login :: rstr

record SettingsStore =
  so_file :: SettingsFile
  so_live :: Settings
  so_audit :: "AuditEntry list"
  so_notified :: nat

section \<open>Opening\<close>

fun load_overrides :: "SettingsFile \<Rightarrow> SettingsError + SettingsOverrides option" where
  "load_overrides Missing = Inr None"
| "load_overrides (Holds ov) = Inr (Some ov)"
| "load_overrides Unreadable = Inl Unparsable"

definition quarantine :: "bool \<Rightarrow> SettingsFile \<Rightarrow> SettingsError + SettingsFile" where
  "quarantine rename_ok file =
     (if file = Missing then Inr Missing else if rename_ok then Inr Missing else Inl RenameFailed)"

definition load_or_quarantine ::
  "bool \<Rightarrow> SettingsFile \<Rightarrow> SettingsError + (SettingsOverrides \<times> SettingsFile)" where
  "load_or_quarantine rename_ok file =
     (case load_overrides file of
        Inr (Some ov) \<Rightarrow> Inr (ov, file)
      | Inr None \<Rightarrow> Inr (no_overrides, file)
      | Inl _ \<Rightarrow>
          (case quarantine rename_ok file of
             Inl e \<Rightarrow> Inl e
           | Inr file' \<Rightarrow> Inr (no_overrides, file')))"

definition new_store :: "SettingsFile \<Rightarrow> Settings \<Rightarrow> AuditEntry list \<Rightarrow> SettingsStore" where
  "new_store file live audit = \<lparr>so_file = file, so_live = live, so_audit = audit, so_notified = 0\<rparr>"

definition open_store ::
  "Checks \<Rightarrow> rstr \<Rightarrow> bool \<Rightarrow> SettingsFile \<Rightarrow> AuditEntry list \<Rightarrow> SettingsError + SettingsStore" where
  "open_store ck boot_channel rename_ok file audit =
     (case load_or_quarantine rename_ok file of
        Inl e \<Rightarrow> Inl e
      | Inr (overrides, file') \<Rightarrow>
          let resolved = resolve_settings compiled_defaults overrides in
          if validate_settings ck boot_channel resolved \<noteq> []
          then (case quarantine rename_ok file' of
                  Inl e \<Rightarrow> Inl e
                | Inr file'' \<Rightarrow> Inr (new_store file'' compiled_defaults audit))
          else Inr (new_store file' resolved audit))"

section \<open>Changes\<close>

definition commit ::
  "AuditFmt \<Rightarrow> bool \<Rightarrow> bool \<Rightarrow> instant \<Rightarrow> Actor \<Rightarrow> SettingsOverrides \<Rightarrow> Settings \<Rightarrow> Settings \<Rightarrow> SettingsStore \<Rightarrow>
   (SettingsError + Settings) \<times> SettingsStore" where
  "commit af saved appended now actor current prior resolved s =
     (if \<not> saved then (Inl PersistFailed, s)
      else
        let s = s\<lparr>so_file := Holds current, so_live := resolved\<rparr>;
            changes = diff_changes af prior resolved;
            s = (if changes \<noteq> [] \<and> appended
                 then s\<lparr>so_audit := so_audit s @
                   [\<lparr>ae_ts = now, ae_actor_id = act_user_id actor, ae_actor_login = act_user_login actor,
                     ae_changes = changes\<rparr>]\<rparr>
                 else s)
        in (Inr resolved, s\<lparr>so_notified := so_notified s + 1\<rparr>))"

definition loaded :: "SettingsOverrides option \<Rightarrow> SettingsOverrides" where
  "loaded x = (case x of None \<Rightarrow> no_overrides | Some ov \<Rightarrow> ov)"

definition apply_with ::
  "Checks \<Rightarrow> AuditFmt \<Rightarrow> rstr \<Rightarrow> bool \<Rightarrow> bool \<Rightarrow> instant \<Rightarrow> (SettingsOverrides \<Rightarrow> SettingsOverrides) \<Rightarrow> Actor \<Rightarrow>
   SettingsStore \<Rightarrow> (SettingsError + Settings) \<times> SettingsStore" where
  "apply_with ck af boot_channel saved appended now mutate actor s =
     (case load_overrides (so_file s) of
        Inl e \<Rightarrow> (Inl e, s)
      | Inr found \<Rightarrow>
          let current = loaded found;
              prior = resolve_settings compiled_defaults current;
              current = mutate current;
              resolved = resolve_settings compiled_defaults current;
              errs = validate_settings ck boot_channel resolved
          in if errs \<noteq> [] then (Inl (Validation errs), s)
             else commit af saved appended now actor current prior resolved s)"

definition apply_patch ::
  "Checks \<Rightarrow> AuditFmt \<Rightarrow> rstr \<Rightarrow> bool \<Rightarrow> bool \<Rightarrow> instant \<Rightarrow> SettingsOverrides \<Rightarrow> Actor \<Rightarrow>
   SettingsStore \<Rightarrow> (SettingsError + Settings) \<times> SettingsStore" where
  "apply_patch ck af boot_channel saved appended now patch actor s =
     apply_with ck af boot_channel saved appended now (\<lambda>current. merge_into current patch) actor s"

fun clear_section :: "SettingsSection \<Rightarrow> SettingsOverrides \<Rightarrow> SettingsOverrides" where
  "clear_section SecCooldowns ov = ov\<lparr>os_cooldowns := no_CooldownsOverrides\<rparr>"
| "clear_section SecPings ov = ov\<lparr>os_pings := no_PingsOverrides\<rparr>"
| "clear_section SecAiConnection ov = ov\<lparr>os_ai := (os_ai ov)\<lparr>oai_connection := no_AiConnectionOverrides\<rparr>\<rparr>"
| "clear_section SecAiBehavior ov = ov\<lparr>os_ai := (os_ai ov)\<lparr>oai_behavior := no_AiBehaviorOverrides\<rparr>\<rparr>"
| "clear_section SecAiHistory ov = ov\<lparr>os_ai := (os_ai ov)\<lparr>oai_history := no_AiHistoryOverrides\<rparr>\<rparr>"
| "clear_section SecAiMemory ov = ov\<lparr>os_ai := (os_ai ov)\<lparr>oai_memory := no_AiMemoryOverrides\<rparr>\<rparr>"
| "clear_section SecAiDreamer ov = ov\<lparr>os_ai := (os_ai ov)\<lparr>oai_dreamer := no_AiDreamerOverrides\<rparr>\<rparr>"
| "clear_section SecAiPrefill ov = ov\<lparr>os_ai := (os_ai ov)\<lparr>oai_prefill := no_AiPrefillOverrides\<rparr>\<rparr>"
| "clear_section SecAiWeb ov = ov\<lparr>os_ai := (os_ai ov)\<lparr>oai_web := no_AiWebOverrides\<rparr>\<rparr>"
| "clear_section SecAiEmotes ov = ov\<lparr>os_ai := (os_ai ov)\<lparr>oai_emotes := no_AiEmotesOverrides\<rparr>\<rparr>"
| "clear_section SecAiMedia ov = ov\<lparr>os_ai := (os_ai ov)\<lparr>oai_media := no_AiMediaOverrides\<rparr>\<rparr>"
| "clear_section SecTwitchPermissions ov =
     ov\<lparr>os_twitch := (os_twitch ov)\<lparr>otwi_hidden_admins := None, otwi_viewer_allowlist := None\<rparr>\<rparr>"
| "clear_section SecTwitchChannels ov =
     ov\<lparr>os_twitch := (os_twitch ov)\<lparr>otwi_admin_channel := None, otwi_ai_channel := None\<rparr>\<rparr>"
| "clear_section SecAviationstack ov = ov\<lparr>os_aviationstack := no_AviationstackOverrides\<rparr>"
| "clear_section SecSuspend ov = ov\<lparr>os_suspend := no_SuspendOverrides\<rparr>"
| "clear_section SecWebRuntime ov = ov\<lparr>os_web := no_WebRuntimeOverrides\<rparr>"
| "clear_section SecSchedules ov = ov\<lparr>os_schedules := None\<rparr>"

definition reset ::
  "AuditFmt \<Rightarrow> bool \<Rightarrow> bool \<Rightarrow> instant \<Rightarrow> SettingsSection \<Rightarrow> Actor \<Rightarrow> SettingsStore \<Rightarrow>
   (SettingsError + Settings) \<times> SettingsStore" where
  "reset af saved appended now sec actor s =
     (case load_overrides (so_file s) of
        Inl e \<Rightarrow> (Inl e, s)
      | Inr found \<Rightarrow>
          let current = loaded found;
              prior = resolve_settings compiled_defaults current;
              current = clear_section sec current
          in commit af saved appended now actor current prior (resolve_settings compiled_defaults current) s)"

section \<open>A reset restores the defaults of its section\<close>

fun restore_section :: "SettingsSection \<Rightarrow> Settings \<Rightarrow> Settings \<Rightarrow> Settings" where
  "restore_section SecCooldowns d s = s\<lparr>st_cooldowns := st_cooldowns d\<rparr>"
| "restore_section SecPings d s = s\<lparr>st_pings := st_pings d\<rparr>"
| "restore_section SecAiConnection d s = s\<lparr>st_ai := (st_ai s)\<lparr>ai_connection := ai_connection (st_ai d)\<rparr>\<rparr>"
| "restore_section SecAiBehavior d s = s\<lparr>st_ai := (st_ai s)\<lparr>ai_behavior := ai_behavior (st_ai d)\<rparr>\<rparr>"
| "restore_section SecAiHistory d s = s\<lparr>st_ai := (st_ai s)\<lparr>ai_history := ai_history (st_ai d)\<rparr>\<rparr>"
| "restore_section SecAiMemory d s = s\<lparr>st_ai := (st_ai s)\<lparr>ai_memory := ai_memory (st_ai d)\<rparr>\<rparr>"
| "restore_section SecAiDreamer d s = s\<lparr>st_ai := (st_ai s)\<lparr>ai_dreamer := ai_dreamer (st_ai d)\<rparr>\<rparr>"
| "restore_section SecAiPrefill d s = s\<lparr>st_ai := (st_ai s)\<lparr>ai_prefill := ai_prefill (st_ai d)\<rparr>\<rparr>"
| "restore_section SecAiWeb d s = s\<lparr>st_ai := (st_ai s)\<lparr>ai_web := ai_web (st_ai d)\<rparr>\<rparr>"
| "restore_section SecAiEmotes d s = s\<lparr>st_ai := (st_ai s)\<lparr>ai_emotes := ai_emotes (st_ai d)\<rparr>\<rparr>"
| "restore_section SecAiMedia d s = s\<lparr>st_ai := (st_ai s)\<lparr>ai_media := ai_media (st_ai d)\<rparr>\<rparr>"
| "restore_section SecTwitchPermissions d s =
     s\<lparr>st_twitch := (st_twitch s)\<lparr>twi_hidden_admins := twi_hidden_admins (st_twitch d),
       twi_viewer_allowlist := twi_viewer_allowlist (st_twitch d)\<rparr>\<rparr>"
| "restore_section SecTwitchChannels d s =
     s\<lparr>st_twitch := (st_twitch s)\<lparr>twi_admin_channel := twi_admin_channel (st_twitch d),
       twi_ai_channel := twi_ai_channel (st_twitch d)\<rparr>\<rparr>"
| "restore_section SecAviationstack d s = s\<lparr>st_aviationstack := st_aviationstack d\<rparr>"
| "restore_section SecSuspend d s = s\<lparr>st_suspend := st_suspend d\<rparr>"
| "restore_section SecWebRuntime d s = s\<lparr>st_web := st_web d\<rparr>"
| "restore_section SecSchedules d s = s\<lparr>st_schedules := st_schedules d\<rparr>"

lemma resolve_section_none:
  "resolve_cool d1 no_CooldownsOverrides = d1" "resolve_png d2 no_PingsOverrides = d2"
  "resolve_conn d3 no_AiConnectionOverrides = d3" "resolve_beh d4 no_AiBehaviorOverrides = d4"
  "resolve_hist d5 no_AiHistoryOverrides = d5" "resolve_mem d6 no_AiMemoryOverrides = d6"
  "resolve_drm d7 no_AiDreamerOverrides = d7" "resolve_med d8 no_AiMediaOverrides = d8"
  "resolve_avs d9 no_AviationstackOverrides = d9" "resolve_sus d10 no_SuspendOverrides = d10"
  "resolve_wrt d11 no_WebRuntimeOverrides = d11" "resolve_prefill d12 no_AiPrefillOverrides = d12"
  "resolve_web d13 no_AiWebOverrides = d13" "resolve_emotes d14 no_AiEmotesOverrides = d14"
  by (auto simp: resolve_defs no_defs resolve_prefill_def resolve_web_def resolve_emotes_def)

lemma resolve_cleared:
  "resolve_settings d (clear_section sec ov) = restore_section sec d (resolve_settings d ov)"
  by (cases sec) (simp_all add: resolve_settings_def resolve_ai_def resolve_section_none resolve_twi_def)

lemma defaults_valid:
  assumes "ck_hhmm ck (str ''04:00'')"
  shows "settings_ok ck channel compiled_defaults"
  using assms by (simp add: settings_ok_def compiled_defaults_def default_Cooldowns_def default_PingsSettings_def
      ai_settings_ok_def default_AiSettings_def default_AiBehavior_def default_AiHistory_def default_AiMemory_def
      default_AiDreamer_def default_AiConnection_def usize_add_def twitch_ok_def default_TwitchRuntime_def
      default_SuspendSettings_def default_AviationstackSettings_def default_WebRuntime_def text_eval)

lemma restored_valid:
  assumes "settings_ok ck channel s" and "settings_ok ck channel d"
    and "0 < hist_length (ai_history (st_ai d))" and "twi_admin_channel (st_twitch d) = None"
    and "twi_ai_channel (st_twitch d) = None" and "ai_prefill (st_ai d) = None"
  shows "settings_ok ck channel (restore_section sec d s)"
proof -
  have ai: "ai_settings_ok ck (st_ai s)" "ai_settings_ok ck (st_ai d)" and tw: "twitch_ok channel (st_twitch s)"
      "twitch_ok channel (st_twitch d)"
    using assms(1,2) by (simp_all add: settings_ok_def)
  have "ai_settings_ok ck (st_ai (restore_section sec d s))"
    using ai assms(3,6) by (cases sec; cases "ai_prefill (st_ai s)") (simp_all add: ai_settings_ok_def)
  moreover have "twitch_ok channel (st_twitch (restore_section sec d s))"
    using tw assms(4,5) by (cases sec) (simp_all add: twitch_ok_def)
  ultimately show ?thesis using assms(1,2) by (cases sec) (simp_all add: settings_ok_def)
qed

section \<open>The store as a machine\<close>

inductive store_step :: "Checks \<Rightarrow> AuditFmt \<Rightarrow> rstr \<Rightarrow> SettingsStore \<Rightarrow> SettingsStore \<Rightarrow> bool" for ck af channel where
  step_apply: "apply_with ck af channel saved appended now mutate actor s = (r, s') \<Longrightarrow> store_step ck af channel s s'"
| step_reset: "reset af saved appended now sec actor s = (r, s') \<Longrightarrow> store_step ck af channel s s'"

definition store_init :: "Checks \<Rightarrow> rstr \<Rightarrow> SettingsStore \<Rightarrow> bool" where
  "store_init ck channel s \<longleftrightarrow> (\<exists>rename_ok file audit. open_store ck channel rename_ok file audit = Inr s)"

fun stored :: "SettingsFile \<Rightarrow> SettingsOverrides" where
  "stored (Holds ov) = ov"
| "stored file = no_overrides"

definition store_inv :: "Checks \<Rightarrow> rstr \<Rightarrow> SettingsStore \<Rightarrow> bool" where
  "store_inv ck channel s \<longleftrightarrow>
     settings_ok ck channel (so_live s) \<and> so_file s \<noteq> Unreadable \<and>
     so_live s = resolve_settings compiled_defaults (stored (so_file s))"

lemma commit_Inl: "commit af saved appended now actor cur prior resolved s = (Inl e, s') \<Longrightarrow> e = PersistFailed \<and> \<not> saved \<and> s' = s"
  by (auto simp: commit_def Let_def split: if_splits)

lemma commit_Inr:
  assumes "commit af saved appended now actor cur prior resolved s = (Inr x, s')"
  shows "saved" and "x = resolved" and "so_file s' = Holds cur" and "so_live s' = resolved"
    and "so_notified s' = so_notified s + 1"
    and "so_audit s' = so_audit s @ (if diff_changes af prior resolved \<noteq> [] \<and> appended
      then [\<lparr>ae_ts = now, ae_actor_id = act_user_id actor, ae_actor_login = act_user_login actor,
             ae_changes = diff_changes af prior resolved\<rparr>] else [])"
  using assms by (auto simp: commit_def Let_def split: if_splits)

lemma opened_inv:
  assumes "ck_hhmm ck (str ''04:00'')" and "open_store ck channel rename_ok file audit = Inr s"
  shows "store_inv ck channel s"
  using assms(2) defaults_valid [OF assms(1), of channel] resolve_none
  by (cases "file") (auto simp: open_store_def load_or_quarantine_def quarantine_def Let_def new_store_def
      store_inv_def validate_settings_Nil split: if_splits)

lemma committed_inv:
  assumes "commit af saved appended now actor cur prior (resolve_settings compiled_defaults cur) s = (r, s')"
    and "store_inv ck channel s" and "settings_ok ck channel (resolve_settings compiled_defaults cur)"
  shows "store_inv ck channel s'"
  using assms by (cases r) (auto dest: commit_Inl simp: store_inv_def commit_Inr)

lemma loaded_stored:
  "so_file s \<noteq> Unreadable \<Longrightarrow> \<exists>found. load_overrides (so_file s) = Inr found \<and> loaded found = stored (so_file s)"
  by (cases "so_file s") (simp_all add: loaded_def)

lemma apply_inv:
  assumes "store_inv ck channel s"
  shows "apply_with ck af channel saved appended now mutate actor s =
    (let ov = mutate (stored (so_file s)); errs = validate_settings ck channel (resolve_settings compiled_defaults ov) in
     if errs \<noteq> [] then (Inl (Validation errs), s)
     else commit af saved appended now actor ov (so_live s) (resolve_settings compiled_defaults ov) s)"
  using assms loaded_stored [of s] by (auto simp: store_inv_def apply_with_def Let_def)

lemma reset_inv:
  assumes "store_inv ck channel s"
  shows "reset af saved appended now sec actor s =
    (let ov = clear_section sec (stored (so_file s)) in
     commit af saved appended now actor ov (so_live s) (resolve_settings compiled_defaults ov) s)"
  using assms loaded_stored [of s] by (auto simp: store_inv_def reset_def Let_def)

lemma cleared_valid:
  assumes "ck_hhmm ck (str ''04:00'')" and "store_inv ck channel s"
  shows "settings_ok ck channel (resolve_settings compiled_defaults (clear_section sec (stored (so_file s))))"
proof -
  have "0 < hist_length (ai_history (st_ai compiled_defaults))" "ai_prefill (st_ai compiled_defaults) = None"
      "twi_admin_channel (st_twitch compiled_defaults) = None" "twi_ai_channel (st_twitch compiled_defaults) = None"
    by (simp_all add: compiled_defaults_def default_AiSettings_def default_AiHistory_def default_TwitchRuntime_def)
  moreover have "settings_ok ck channel (resolve_settings compiled_defaults (stored (so_file s)))"
    using assms(2) by (metis store_inv_def)
  ultimately show ?thesis
    unfolding resolve_cleared using defaults_valid [OF assms(1)] restored_valid by blast
qed

lemma step_inv:
  assumes "ck_hhmm ck (str ''04:00'')" and "store_inv ck channel s" and "store_step ck af channel s s'"
  shows "store_inv ck channel s'"
  using assms(3)
proof cases
  case (step_apply saved appended now mutate actor r)
  then show ?thesis using committed_inv [OF _ assms(2)] assms(2)
    by (auto simp: apply_inv [OF assms(2)] Let_def validate_settings_Nil split: if_splits)
next
  case (step_reset saved appended now sec actor r)
  then show ?thesis using committed_inv [OF _ assms(2) cleared_valid [OF assms(1,2)]]
    by (simp add: reset_inv [OF assms(2)] Let_def)
qed

interpretation settings_store: invariant "store_init ck channel" "store_step ck af channel"
    "\<lambda>s. ck_hhmm ck (str ''04:00'') \<longrightarrow> store_inv ck channel s"
  for ck af channel
  by unfold_locales (auto simp: store_init_def intro: opened_inv step_inv)

lemma store_always:
  "reachable (store_init ck channel) (store_step ck af channel) s \<Longrightarrow> ck_hhmm ck (str ''04:00'') \<Longrightarrow>
   store_inv ck channel s"
  using settings_store.always by blast

section \<open>A sample store\<close>

definition sample_checks :: Checks where
  "sample_checks =
     \<lparr>ck_url = (\<lambda>url. url \<noteq> []), ck_hhmm = (\<lambda>t. length t = 5), ck_debug = id, ck_chars = id, ck_float = (\<lambda>_. []),
      ck_date = (\<lambda>_. [])\<rparr>"

definition sample_fmt :: AuditFmt where
  "sample_fmt = \<lparr>af_bytesize = json_nat, af_schedule = (\<lambda>s. JStr (sc_name s))\<rparr>"

definition sample_actor :: Actor where
  "sample_actor = \<lparr>act_user_id = [49], act_user_login = [97]\<rparr>"

definition sample_store :: SettingsStore where
  "sample_store = new_store Missing compiled_defaults []"

definition patch_ai :: "nat \<Rightarrow> SettingsOverrides \<Rightarrow> SettingsOverrides" where
  "patch_ai v ov = ov\<lparr>os_cooldowns := (os_cooldowns ov)\<lparr>ocool_ai := Some v\<rparr>\<rparr>"

lemma sample_hhmm: "ck_hhmm sample_checks (str ''04:00'')"
  by (simp add: sample_checks_def text_eval)

lemma sample_reachable: "reachable (store_init sample_checks channel) (store_step sample_checks af channel) sample_store"
proof (rule reach_start)
  have "open_store sample_checks channel True Missing [] = Inr sample_store"
    using defaults_valid [OF sample_hhmm, of channel]
    by (simp add: open_store_def load_or_quarantine_def resolve_none validate_settings_Nil sample_store_def)
  then show "store_init sample_checks channel sample_store" unfolding store_init_def by blast
qed

lemma cleared_none: "clear_section sec no_overrides = no_overrides"
  by (cases sec) (simp_all add: no_overrides_def no_AiOverrides_def no_TwitchOverrides_def)

lemma sample_patched:
  "resolve_settings compiled_defaults (patch_ai v no_overrides) =
   compiled_defaults\<lparr>st_cooldowns := (st_cooldowns compiled_defaults)\<lparr>cool_ai := v\<rparr>\<rparr>"
proof -
  have "resolve_settings compiled_defaults (patch_ai v no_overrides) = (resolve_settings compiled_defaults no_overrides)
      \<lparr>st_cooldowns := (resolve_cool (st_cooldowns compiled_defaults) no_CooldownsOverrides)\<lparr>cool_ai := v\<rparr>\<rparr>"
    by (simp add: resolve_settings_def patch_ai_def no_overrides_def resolve_cool_def)
  then show ?thesis by (simp add: resolve_none resolve_section_none)
qed

lemma sample_patched_valid:
  "settings_ok sample_checks channel (resolve_settings compiled_defaults (patch_ai v no_overrides)) \<longleftrightarrow> v \<in> {1..3600}"
  using defaults_valid [OF sample_hhmm, of channel] unfolding sample_patched settings_ok_def by auto

section \<open>Properties\<close>

text \<open>
  Claim C37. The checks accept a snapshot exactly when every field is in its range and the relations
  between the fields hold: the channels differ from each other and from the channel of the
  connection, the prefill has a history to fill, the emotes fit their window, every schedule is
  valid on its own and no two have the same trimmed name. The one relation that does not follow is
  the budget of the injected memory, which is compared with a sum that wraps at 64 bits: it covers
  the two files whenever their sizes add up to less than that.
\<close>

theorem validation_exact:
  "(validate_settings ck channel s = [] \<longleftrightarrow> settings_ok ck channel s) \<and>
   (let m = ai_memory (st_ai s) in
    validate_settings ck channel s \<noteq> [] \<or> 2 ^ 64 \<le> mem_soul_bytes m + mem_lore_bytes m \<or>
    mem_soul_bytes m + mem_lore_bytes m \<le> mem_inject_byte_budget m)"
  by (auto simp: validate_settings_Nil settings_ok_def ai_settings_ok_def usize_add_def Let_def not_le)

theorem validation_exact_witness:
  "validate_settings sample_checks [99] compiled_defaults = [] \<and>
   (let m = ai_memory (st_ai compiled_defaults) in mem_soul_bytes m + mem_lore_bytes m \<le> mem_inject_byte_budget m)"
proof -
  have "ai_memory (st_ai compiled_defaults) = default_AiMemory"
    by (simp add: compiled_defaults_def default_AiSettings_def)
  then have "\<not> 2 ^ 64 \<le> mem_soul_bytes (ai_memory (st_ai compiled_defaults)) + mem_lore_bytes (ai_memory (st_ai compiled_defaults))"
    by (simp add: default_AiMemory_def)
  then show ?thesis
    using validation_exact [of sample_checks "[99]" compiled_defaults] defaults_valid [OF sample_hhmm, of "[99]"]
    by (simp add: Let_def)
qed





text \<open>Equal but for the order of the schedules.\<close>

definition same_but_order :: "Settings \<Rightarrow> Settings \<Rightarrow> bool" where
  "same_but_order p n \<longleftrightarrow>
     p\<lparr>st_schedules := []\<rparr> = n\<lparr>st_schedules := []\<rparr> \<and> set (st_schedules p) = set (st_schedules n)"





end
