(* ===== verification/Schedule_Runner.thy ===== *)
theory Schedule_Runner imports Schedule_Trigger Reachability "HOL-Library.AList" "HOL-Library.Multiset" begin

text \<open>
  \<^verbatim>\<open>twitch/handlers/schedule_runner.rs\<close>: the orchestrator that keeps one task per enabled schedule,
  and the tasks; \<^verbatim>\<open>schedule/telemetry.rs\<close>: what is counted when one fires. The orchestrator and its
  tasks run concurrently, so the program is a step relation: one step per piece of code between two
  points where a task waits.
\<close>

section \<open>Telemetry\<close>

record ScheduleRuntime =
  rt_last_fired_at :: "instant option"
  rt_fires_today :: u32
  rt_day_anchor :: "int option"

definition default_runtime :: ScheduleRuntime where
  "default_runtime = \<lparr>rt_last_fired_at = None, rt_fires_today = 0, rt_day_anchor = None\<rparr>"

definition maybe_rollover :: "int \<Rightarrow> ScheduleRuntime \<Rightarrow> ScheduleRuntime" where
  "maybe_rollover today r =
     (if rt_day_anchor r = Some today then r else r\<lparr>rt_day_anchor := Some today, rt_fires_today := 0\<rparr>)"

record Telemetry =
  te_map :: "(rstr \<times> ScheduleRuntime) list"
  te_dirty :: bool
  te_last_flush :: instant

text \<open>
  \<^verbatim>\<open>record_fire\<close> up to the release of the lock: the new state and what is to be written, when the
  last flush is at least five seconds ago on the monotonic clock.
\<close>

definition FLUSH_INTERVAL :: duration where "FLUSH_INTERVAL = secs 5"

definition record_fire ::
  "Zone \<Rightarrow> rstr \<Rightarrow> instant \<Rightarrow> instant \<Rightarrow> Telemetry \<Rightarrow> Telemetry \<times> (rstr \<times> ScheduleRuntime) list option" where
  "record_fire tz name fired_at mono_now g =
     (let entry = (case map_of (te_map g) name of Some r \<Rightarrow> r | None \<Rightarrow> default_runtime);
          entry = maybe_rollover (local_date tz fired_at) entry;
          entry = entry\<lparr>rt_last_fired_at := Some fired_at, rt_fires_today := saturating_inc (rt_fires_today entry)\<rparr>;
          g = g\<lparr>te_map := AList.update name entry (te_map g), te_dirty := True\<rparr>
      in (g, if mono_now - te_last_flush g \<ge> FLUSH_INTERVAL then Some (te_map g) else None))"

text \<open>The end of a write that succeeded.\<close>

definition flushed :: "instant \<Rightarrow> Telemetry \<Rightarrow> Telemetry" where
  "flushed mono_now g = g\<lparr>te_dirty := False, te_last_flush := mono_now\<rparr>"

definition flush :: "Telemetry \<Rightarrow> (rstr \<times> ScheduleRuntime) list option" where
  "flush g = (if te_dirty g then Some (te_map g) else None)"

section \<open>The orchestrator\<close>

text \<open>
  A task computes its next firing, sleeps until then, sends its message and records the firing. A
  running entry holds the name, the cancellation token and the captured schedule. The last two
  fields are not state of the program: \<^verbatim>\<open>oc_seen\<close> is the list of schedules that the last
  reconciliation loaded, \<^verbatim>\<open>oc_missed\<close> tells whether one was stored since while no notification was
  registered.
\<close>

datatype TaskPhase = Planning | Sleeping instant | Saying

record Task =
  tk_token :: nat
  tk_schedule :: Schedule
  tk_phase :: TaskPhase

type_synonym entry = "rstr \<times> nat \<times> Schedule"

record Orchestrator =
  oc_settings :: "Schedule list"
  oc_listening :: bool
  oc_notified :: bool
  oc_alive :: bool
  oc_running :: "entry list"
  oc_tasks :: "Task list"
  oc_cancelled :: "nat set"
  oc_next_token :: nat
  oc_said :: "(nat \<times> Schedule \<times> instant) list"
  oc_telemetry :: Telemetry
  oc_seen :: "Schedule list"
  oc_missed :: bool

definition desired_schedules :: "Schedule list \<Rightarrow> (rstr \<times> Schedule) list" where
  "desired_schedules schedules =
     fold (\<lambda>s d. AList.update (sc_name s) s d) (filter sc_enabled schedules) []"

definition keep_entry :: "(rstr \<times> Schedule) list \<Rightarrow> entry \<Rightarrow> bool" where
  "keep_entry desired = (\<lambda>(name, tok, captured).
     (case map_of desired name of None \<Rightarrow> False | Some want \<Rightarrow> want = captured))"

text \<open>\<^verbatim>\<open>running.entry(name).or_insert_with(..)\<close>, which spawns the task.\<close>

definition spawn_task :: "rstr \<times> Schedule \<Rightarrow> Orchestrator \<Rightarrow> Orchestrator" where
  "spawn_task = (\<lambda>(name, schedule) s.
     if name \<in> fst ` set (oc_running s) then s
     else s\<lparr>oc_running := oc_running s @ [(name, oc_next_token s, schedule)],
            oc_tasks := oc_tasks s @ [\<lparr>tk_token = oc_next_token s, tk_schedule = schedule, tk_phase = Planning\<rparr>],
            oc_next_token := oc_next_token s + 1\<rparr>)"

definition stop_changed :: "(rstr \<times> Schedule) list \<Rightarrow> Orchestrator \<Rightarrow> Orchestrator" where
  "stop_changed desired s =
     s\<lparr>oc_cancelled := oc_cancelled s \<union> (fst \<circ> snd) ` set (filter (\<lambda>e. \<not> keep_entry desired e) (oc_running s)),
       oc_running := filter (keep_entry desired) (oc_running s)\<rparr>"

text \<open>The order of the additions is that of the hash map, so it is an argument.\<close>

definition reconcile :: "(rstr \<times> Schedule) list \<Rightarrow> Orchestrator \<Rightarrow> Orchestrator" where
  "reconcile order s =
     (let desired = desired_schedules (oc_settings s);
          s = stop_changed desired s
      in (fold spawn_task order s)\<lparr>oc_seen := oc_settings s, oc_missed := False\<rparr>)"

text \<open>\<^verbatim>\<open>settings.store\<close> and \<^verbatim>\<open>notify_waiters()\<close>: only a registered future is woken.\<close>

definition settings_changed :: "Schedule list \<Rightarrow> Orchestrator \<Rightarrow> Orchestrator" where
  "settings_changed schedules s =
     s\<lparr>oc_settings := schedules,
       oc_notified := oc_notified s \<or> oc_listening s,
       oc_missed := oc_missed s \<or> \<not> oc_listening s\<rparr>"

definition orchestrator_shutdown :: "Orchestrator \<Rightarrow> Orchestrator" where
  "orchestrator_shutdown s =
     s\<lparr>oc_cancelled := oc_cancelled s \<union> (fst \<circ> snd) ` set (oc_running s), oc_running := [], oc_alive := False\<rparr>"

section \<open>The tasks\<close>

definition set_phase :: "nat \<Rightarrow> TaskPhase \<Rightarrow> Orchestrator \<Rightarrow> Orchestrator" where
  "set_phase i p s = s\<lparr>oc_tasks := (oc_tasks s)[i := (oc_tasks s ! i)\<lparr>tk_phase := p\<rparr>]\<rparr>"

definition exit_task :: "nat \<Rightarrow> Orchestrator \<Rightarrow> Orchestrator" where
  "exit_task i s = s\<lparr>oc_tasks := remove_at i (oc_tasks s)\<rparr>"

text \<open>The computation of the next firing; a panic ends the task like the end date does.\<close>

definition task_plan :: "Zone \<Rightarrow> instant \<Rightarrow> nat \<Rightarrow> Orchestrator \<Rightarrow> Orchestrator" where
  "task_plan tz now i s =
     (case next_active_fire tz (tk_schedule (oc_tasks s ! i)) now of
        Returns (Some next_utc) \<Rightarrow> set_phase i (Sleeping next_utc) s
      | Returns None \<Rightarrow> exit_task i s
      | Panics \<Rightarrow> exit_task i s)"

text \<open>After the sleep: the second look at the token, then the message.\<close>

definition task_wake :: "instant \<Rightarrow> nat \<Rightarrow> Orchestrator \<Rightarrow> Orchestrator" where
  "task_wake now i s =
     (let t = oc_tasks s ! i in
      if tk_token t \<in> oc_cancelled s then exit_task i s
      else set_phase i Saying (s\<lparr>oc_said := oc_said s @ [(tk_token t, tk_schedule t, now)]\<rparr>))"

definition task_recorded :: "Zone \<Rightarrow> instant \<Rightarrow> instant \<Rightarrow> nat \<Rightarrow> Orchestrator \<Rightarrow> Orchestrator" where
  "task_recorded tz now mono_now i s =
     set_phase i Planning
       (s\<lparr>oc_telemetry := fst (record_fire tz (sc_name (tk_schedule (oc_tasks s ! i))) now mono_now (oc_telemetry s))\<rparr>)"

inductive sched_step :: "Zone \<Rightarrow> Orchestrator \<Rightarrow> Orchestrator \<Rightarrow> bool" for tz where
  step_change: "sched_step tz s (settings_changed schedules s)"
| step_reconcile:
    "oc_alive s \<Longrightarrow> oc_listening s \<Longrightarrow> oc_notified s \<Longrightarrow>
     mset order = mset (desired_schedules (oc_settings s)) \<Longrightarrow>
     sched_step tz s ((reconcile order s)\<lparr>oc_listening := False, oc_notified := False\<rparr>)"
| step_listen: "oc_alive s \<Longrightarrow> \<not> oc_listening s \<Longrightarrow> sched_step tz s (s\<lparr>oc_listening := True\<rparr>)"
| step_shutdown: "oc_alive s \<Longrightarrow> oc_listening s \<Longrightarrow> sched_step tz s (orchestrator_shutdown s)"
| step_plan:
    "i < length (oc_tasks s) \<Longrightarrow> tk_phase (oc_tasks s ! i) = Planning \<Longrightarrow> sched_step tz s (task_plan tz now i s)"
| step_wake:
    "i < length (oc_tasks s) \<Longrightarrow> tk_phase (oc_tasks s ! i) = Sleeping due \<Longrightarrow> due \<le> now \<Longrightarrow>
     sched_step tz s (task_wake now i s)"
| step_cancelled:
    "i < length (oc_tasks s) \<Longrightarrow> tk_phase (oc_tasks s ! i) = Sleeping due \<Longrightarrow>
     tk_token (oc_tasks s ! i) \<in> oc_cancelled s \<Longrightarrow> sched_step tz s (exit_task i s)"
| step_recorded:
    "i < length (oc_tasks s) \<Longrightarrow> tk_phase (oc_tasks s ! i) = Saying \<Longrightarrow>
     sched_step tz s (task_recorded tz now mono_now i s)"

inductive_cases sched_stepE: "sched_step tz s s'"

text \<open>The start: the notification is registered, then the first reconciliation runs.\<close>

definition orchestrator_start :: "Schedule list \<Rightarrow> (rstr \<times> Schedule) list \<Rightarrow> Telemetry \<Rightarrow> Orchestrator" where
  "orchestrator_start schedules order telemetry =
     reconcile order
       \<lparr>oc_settings = schedules, oc_listening = True, oc_notified = False, oc_alive = True,
        oc_running = [], oc_tasks = [], oc_cancelled = {}, oc_next_token = 0, oc_said = [],
        oc_telemetry = telemetry, oc_seen = [], oc_missed = False\<rparr>"

definition sched_init :: "Orchestrator \<Rightarrow> bool" where
  "sched_init s \<longleftrightarrow> (\<exists>schedules order telemetry.
     mset order = mset (desired_schedules schedules) \<and> s = orchestrator_start schedules order telemetry)"

section \<open>Lemmas\<close>

lemma set_AList_update: "set (AList.update k v xs) \<subseteq> insert (k, v) (set xs)"
  by (induction xs) auto

lemma desired_distinct: "distinct (map fst (desired_schedules ss))"
proof -
  have "distinct (map fst (fold (\<lambda>s d. AList.update (sc_name s) s d) xs d))"
    if "distinct (map fst d)" for xs and d :: "(rstr \<times> Schedule) list"
    using that by (induction xs arbitrary: d) (auto simp: distinct_update)
  then show ?thesis by (simp add: desired_schedules_def)
qed

lemma desired_enabled:
  "(n, c) \<in> set (desired_schedules ss) \<Longrightarrow> n = sc_name c \<and> sc_enabled c \<and> c \<in> set ss"
proof -
  have "(n, c) \<in> set d \<or> (c \<in> set xs \<and> n = sc_name c)"
    if "(n, c) \<in> set (fold (\<lambda>s d. AList.update (sc_name s) s d) xs d)" for xs d
    using that
  proof (induction xs arbitrary: d)
    case (Cons x xs)
    then show ?case using set_AList_update [of "sc_name x" x d] by fastforce
  qed simp
  from this [of "filter sc_enabled ss" "[]"]
  show "(n, c) \<in> set (desired_schedules ss) \<Longrightarrow> n = sc_name c \<and> sc_enabled c \<and> c \<in> set ss"
    by (auto simp: desired_schedules_def)
qed

text \<open>With one schedule of each name, the desired ones are the enabled ones.\<close>

lemma desired_unique:
  assumes "distinct (map sc_name ss)" and "c \<in> set ss" and "sc_enabled c"
  shows "map_of (desired_schedules ss) (sc_name c) = Some c"
proof -
  have "map_of (fold (\<lambda>s d. AList.update (sc_name s) s d) xs d) (sc_name c) =
      (if c \<in> set xs then Some c else map_of d (sc_name c))"
    if "distinct (map sc_name xs)" "c \<in> set xs \<or> sc_name c \<notin> sc_name ` set xs" for xs d
    using that by (induction xs arbitrary: d) (auto simp: update_conv')
  from this [of "filter sc_enabled ss" "[]"] show ?thesis
    using assms by (auto simp: desired_schedules_def distinct_map inj_on_def)
qed

text \<open>What each name runs.\<close>

definition running_map :: "Orchestrator \<Rightarrow> rstr \<rightharpoonup> Schedule" where
  "running_map s = map_of (map (\<lambda>(n, t, c). (n, c)) (oc_running s))"

definition runner_core :: "Orchestrator \<Rightarrow> bool" where
  "runner_core s \<longleftrightarrow>
     distinct (map fst (oc_running s)) \<and> distinct (map (fst \<circ> snd) (oc_running s)) \<and>
     (\<forall>(n, t, c)\<in>set (oc_running s). t < oc_next_token s \<and> t \<notin> oc_cancelled s \<and> n = sc_name c) \<and>
     (\<forall>t\<in>oc_cancelled s. t < oc_next_token s) \<and>
     distinct (map tk_token (oc_tasks s)) \<and>
     (\<forall>tk\<in>set (oc_tasks s). tk_token tk < oc_next_token s \<and>
        (tk_token tk \<in> oc_cancelled s \<or>
         (sc_name (tk_schedule tk), tk_token tk, tk_schedule tk) \<in> set (oc_running s)))"

lemma spawn_core:
  assumes "runner_core s" and "n = sc_name c"
  shows "runner_core (spawn_task (n, c) s)"
proof (cases "n \<in> fst ` set (oc_running s)")
  case True
  then show ?thesis using assms(1) by (simp add: spawn_task_def)
next
  case False
  have tok: "oc_next_token s \<notin> (fst \<circ> snd) ` set (oc_running s)" "oc_next_token s \<notin> oc_cancelled s"
      "oc_next_token s \<notin> tk_token ` set (oc_tasks s)"
    using assms(1) by (fastforce simp: runner_core_def)+
  show ?thesis
    using assms False tok unfolding runner_core_def
    by (auto simp: spawn_task_def less_Suc_eq)
qed

lemma spawn_map:
  "running_map (spawn_task (n, c) s) =
     (\<lambda>m. case running_map s m of Some d \<Rightarrow> Some d | None \<Rightarrow> if m = n then Some c else None)"
proof -
  have "fst ` set (oc_running s) = dom (running_map s)"
    by (force simp: running_map_def dom_map_of_conv_image_fst)
  then show ?thesis
    by (auto simp: spawn_task_def running_map_def map_add_def fun_eq_iff split: option.splits)
qed

lemma spawn_frame:
  "oc_settings (spawn_task e s) = oc_settings s" "oc_cancelled (spawn_task e s) = oc_cancelled s"
  "oc_alive (spawn_task e s) = oc_alive s" "oc_said (spawn_task e s) = oc_said s"
  "\<exists>ts. oc_tasks (spawn_task e s) = oc_tasks s @ ts" "\<exists>es. oc_running (spawn_task e s) = oc_running s @ es"
  by (auto simp: spawn_task_def split: prod.split)

lemma fold_spawn_frame:
  "oc_settings (fold spawn_task order s) = oc_settings s" "oc_cancelled (fold spawn_task order s) = oc_cancelled s"
  "oc_alive (fold spawn_task order s) = oc_alive s" "oc_said (fold spawn_task order s) = oc_said s"
  by (induction order arbitrary: s) (simp_all add: spawn_frame)

lemma fold_spawn_grows:
  "\<exists>ts. oc_tasks (fold spawn_task order s) = oc_tasks s @ ts"
  "\<exists>es. oc_running (fold spawn_task order s) = oc_running s @ es"
proof (induction order arbitrary: s)
  case (Cons e order)
  { case 1 then show ?case using Cons.IH(1) [of "spawn_task e s"] spawn_frame(5) [of e s] by fastforce next
    case 2 then show ?case using Cons.IH(2) [of "spawn_task e s"] spawn_frame(6) [of e s] by fastforce }
qed simp_all

lemma fold_spawn:
  assumes "runner_core s" and "\<forall>(n, c)\<in>set order. n = sc_name c"
  shows "runner_core (fold spawn_task order s)"
    and "running_map (fold spawn_task order s) =
      (\<lambda>m. case running_map s m of Some d \<Rightarrow> Some d | None \<Rightarrow> map_of order m)"
  using assms
proof (induction order arbitrary: s)
  case Nil
  { case 1 then show ?case by simp next
    case 2 then show ?case by (auto simp: fun_eq_iff split: option.split) }
next
  case (Cons e order)
  obtain n c where e: "e = (n, c)" by (cases e)
  { case 1 then show ?case using Cons.IH(1) [OF spawn_core] e by auto next
    case 2 then show ?case using Cons.IH(2) [OF spawn_core] e
      by (auto simp: spawn_map fun_eq_iff split: option.split) }
qed

lemma runner_coreI:
  assumes "distinct (map fst (oc_running s))" and "distinct (map (fst \<circ> snd) (oc_running s))"
    and "\<And>n t c. (n, t, c) \<in> set (oc_running s) \<Longrightarrow> t < oc_next_token s \<and> t \<notin> oc_cancelled s \<and> n = sc_name c"
    and "\<And>t. t \<in> oc_cancelled s \<Longrightarrow> t < oc_next_token s" and "distinct (map tk_token (oc_tasks s))"
    and "\<And>tk. tk \<in> set (oc_tasks s) \<Longrightarrow> tk_token tk < oc_next_token s \<and> (tk_token tk \<in> oc_cancelled s \<or>
      (sc_name (tk_schedule tk), tk_token tk, tk_schedule tk) \<in> set (oc_running s))"
  shows "runner_core s"
  using assms unfolding runner_core_def by blast

lemma stop_core:
  assumes "runner_core s"
  shows "runner_core (stop_changed desired s)"
proof -
  have tok: "t \<noteq> t'" if "(n, t, c) \<in> set (oc_running s)" "(n', t', c') \<in> set (oc_running s)"
      "keep_entry desired (n, t, c)" "\<not> keep_entry desired (n', t', c')" for n t c n' t' c'
    using assms that by (force simp: runner_core_def distinct_map inj_on_def)
  have frame: "oc_running (stop_changed desired s) = filter (keep_entry desired) (oc_running s)"
    "oc_tasks (stop_changed desired s) = oc_tasks s" "oc_next_token (stop_changed desired s) = oc_next_token s"
    by (simp_all add: stop_changed_def)
  show ?thesis
  proof (rule runner_coreI; unfold frame)
    show "distinct (map fst (filter (keep_entry desired) (oc_running s)))"
      "distinct (map (fst \<circ> snd) (filter (keep_entry desired) (oc_running s)))"
      "distinct (map tk_token (oc_tasks s))"
      using assms unfolding runner_core_def by (blast intro: distinct_map_filter)+
    show "t < oc_next_token s \<and> t \<notin> oc_cancelled (stop_changed desired s) \<and> n = sc_name c"
      if "(n, t, c) \<in> set (filter (keep_entry desired) (oc_running s))" for n t c
      using that assms tok by (fastforce simp: runner_core_def stop_changed_def)
    show "t < oc_next_token s" if "t \<in> oc_cancelled (stop_changed desired s)" for t
      using that assms by (fastforce simp: runner_core_def stop_changed_def)
    show "tk_token tk < oc_next_token s \<and> (tk_token tk \<in> oc_cancelled (stop_changed desired s) \<or>
        (sc_name (tk_schedule tk), tk_token tk, tk_schedule tk) \<in> set (filter (keep_entry desired) (oc_running s)))"
      if "tk \<in> set (oc_tasks s)" for tk
    proof -
      let ?e = "(sc_name (tk_schedule tk), tk_token tk, tk_schedule tk)"
      have tk: "tk_token tk < oc_next_token s" "tk_token tk \<in> oc_cancelled s \<or> ?e \<in> set (oc_running s)"
        using that assms by (simp_all add: runner_core_def)
      have "tk_token tk \<in> oc_cancelled (stop_changed desired s)"
        if "?e \<in> set (oc_running s)" "\<not> keep_entry desired ?e"
        using that imageI [of ?e _ "fst \<circ> snd"] by (simp add: stop_changed_def)
      then show ?thesis using tk by (auto simp: stop_changed_def)
    qed
  qed
qed

lemma map_of_filter_eq:
  "distinct (map fst es) \<Longrightarrow>
   map_of (map (\<lambda>(n, t, c). (n, c)) (filter (keep_entry desired) es)) m =
     (case map_of (map (\<lambda>(n, t, c). (n, c)) es) m of
        Some c \<Rightarrow> if map_of desired m = Some c then Some c else None
      | None \<Rightarrow> None)"
proof (induction es)
  case (Cons e es)
  obtain n t c where e: "e = (n, t, c)" by (cases e)
  have "map_of (map (\<lambda>(n, t, c). (n, c)) es) n = None"
    using Cons.prems by (force simp: e map_of_eq_None_iff)
  then show ?case using Cons by (auto simp: e keep_entry_def split: option.splits)
qed simp

text \<open>After a reconciliation exactly the desired schedules run, and the unchanged ones undisturbed.\<close>

lemma reconcile_ok:
  assumes core: "runner_core s" and order: "mset order = mset (desired_schedules (oc_settings s))"
  shows "runner_core (reconcile order s)"
    and "running_map (reconcile order s) = map_of (desired_schedules (oc_settings s))"
proof -
  let ?d = "desired_schedules (oc_settings s)"
  have set: "set order = set ?d" using order by (rule mset_eq_setD)
  have dist: "distinct (map fst order)"
    using desired_distinct [of "oc_settings s"] order by (metis mset_eq_imp_distinct_iff mset_map)
  have map: "map_of order = map_of ?d"
    using set dist desired_distinct by (subst map_of_inject_set) auto
  have names: "\<forall>(n, c)\<in>set order. n = sc_name c" using set desired_enabled by auto
  let ?s = "stop_changed ?d s"
  have c: "runner_core ?s" by (rule stop_core [OF core])
  show "runner_core (reconcile order s)"
    using fold_spawn(1) [OF c names] by (simp add: reconcile_def Let_def runner_core_def)
  have "running_map ?s n = (case running_map s n of Some c \<Rightarrow> if map_of ?d n = Some c then Some c else None | None \<Rightarrow> None)" for n
    using core map_of_filter_eq [of "oc_running s"] by (simp add: running_map_def stop_changed_def runner_core_def)
  then have "running_map (fold spawn_task order ?s) = map_of ?d"
    unfolding fold_spawn(2) [OF c names] map by (auto simp: fun_eq_iff split: option.splits)
  then show "running_map (reconcile order s) = map_of ?d"
    by (simp add: reconcile_def Let_def running_map_def)
qed

section \<open>The invariant\<close>

definition runner_ok :: "Orchestrator \<Rightarrow> bool" where
  "runner_ok s \<longleftrightarrow>
     runner_core s \<and>
     (oc_alive s \<longrightarrow> running_map s = map_of (desired_schedules (oc_seen s))) \<and>
     (\<not> oc_alive s \<longrightarrow> oc_running s = []) \<and>
     (oc_alive s \<and> \<not> oc_notified s \<and> \<not> oc_missed s \<longrightarrow> oc_seen s = oc_settings s)"

text \<open>The steps of the tasks change the tasks, the messages and the telemetry only.\<close>

lemma task_frame:
  "oc_running (exit_task i s) = oc_running s" "oc_cancelled (exit_task i s) = oc_cancelled s"
  "oc_next_token (exit_task i s) = oc_next_token s" "oc_tasks (exit_task i s) = remove_at i (oc_tasks s)"
  "oc_running (set_phase i p s) = oc_running s" "oc_cancelled (set_phase i p s) = oc_cancelled s"
  "oc_next_token (set_phase i p s) = oc_next_token s"
  by (simp_all add: exit_task_def set_phase_def)

definition task_key :: "Task \<Rightarrow> nat \<times> Schedule" where
  "task_key tk = (tk_token tk, tk_schedule tk)"

lemma core_tasks:
  assumes "runner_core s" and "oc_running s' = oc_running s" and "oc_cancelled s' = oc_cancelled s"
    and "oc_next_token s' = oc_next_token s" and "distinct (map tk_token (oc_tasks s'))"
    and "task_key ` set (oc_tasks s') \<subseteq> task_key ` set (oc_tasks s)"
  shows "runner_core s'"
proof (rule runner_coreI)
  fix tk assume "tk \<in> set (oc_tasks s')"
  then obtain tk' where "tk' \<in> set (oc_tasks s)" "tk_token tk' = tk_token tk" "tk_schedule tk' = tk_schedule tk"
    using assms(6) by (force simp: task_key_def image_iff subset_iff)
  then show "tk_token tk < oc_next_token s' \<and> (tk_token tk \<in> oc_cancelled s' \<or>
      (sc_name (tk_schedule tk), tk_token tk, tk_schedule tk) \<in> set (oc_running s'))"
    using assms(1) unfolding runner_core_def assms(2-4) by metis
qed (use assms in \<open>auto simp: runner_core_def\<close>)

lemma exit_core: "runner_core s \<Longrightarrow> runner_core (exit_task i s)"
  by (rule core_tasks [of s])
    (use set_remove_at_subset [of i "oc_tasks s"] in \<open>auto simp: task_frame map_remove_at distinct_remove_at runner_core_def\<close>)

lemma map_update_same: "i < length xs \<Longrightarrow> f x = f (xs ! i) \<Longrightarrow> map f (xs[i := x]) = map f xs"
  by (metis list_update_id map_update nth_map)

lemma set_phase_core:
  assumes "runner_core s" and "i < length (oc_tasks s)"
  shows "runner_core (set_phase i p s)"
proof (rule core_tasks [OF assms(1)])
  show "distinct (map tk_token (oc_tasks (set_phase i p s)))"
    using assms by (simp add: set_phase_def map_update_same runner_core_def)
  have "map task_key (oc_tasks (set_phase i p s)) = map task_key (oc_tasks s)"
    using assms(2) by (simp add: set_phase_def map_update_same task_key_def)
  then show "task_key ` set (oc_tasks (set_phase i p s)) \<subseteq> task_key ` set (oc_tasks s)"
    by (metis list.set_map order_refl)
qed (simp_all add: task_frame)

lemma ok_frame:
  assumes "runner_ok s" and "runner_core s'" and "oc_running s' = oc_running s" and "oc_alive s' = oc_alive s"
    and "oc_notified s' = oc_notified s" and "oc_missed s' = oc_missed s" and "oc_seen s' = oc_seen s"
    and "oc_settings s' = oc_settings s"
  shows "runner_ok s'"
  using assms by (simp add: runner_ok_def running_map_def)

lemma exit_ok: "runner_ok s \<Longrightarrow> runner_ok (exit_task i s)"
  by (rule ok_frame, assumption) (simp_all add: exit_core runner_ok_def, simp_all add: exit_task_def)

lemma set_phase_ok: "runner_ok s \<Longrightarrow> i < length (oc_tasks s) \<Longrightarrow> runner_ok (set_phase i p s)"
  by (rule ok_frame, assumption) (simp_all add: set_phase_core runner_ok_def, simp_all add: set_phase_def)

lemma reconcile_frame:
  "oc_alive (reconcile order s) = oc_alive s" "oc_seen (reconcile order s) = oc_settings s"
  "oc_settings (reconcile order s) = oc_settings s" "oc_missed (reconcile order s) = False"
  "oc_said (reconcile order s) = oc_said s"
  by (simp_all add: reconcile_def Let_def fold_spawn_frame stop_changed_def)

lemma reconcile_runner_ok:
  assumes "runner_core s" and "mset order = mset (desired_schedules (oc_settings s))" and "oc_alive s"
  shows "runner_ok ((reconcile order s)\<lparr>oc_listening := l, oc_notified := False\<rparr>)"
  using reconcile_ok [OF assms(1,2)] assms(3)
  by (simp add: runner_ok_def runner_core_def running_map_def reconcile_frame)

lemma running_map_entry:
  assumes "runner_core s" and "(n, t, c) \<in> set (oc_running s)"
  shows "running_map s n = Some c"
proof -
  have dist: "distinct (map fst (oc_running s))" using assms(1) by (simp add: runner_core_def)
  show ?thesis unfolding running_map_def
    by (rule map_of_is_SomeI) (use dist assms(2) in \<open>force simp: case_prod_unfold comp_def\<close>)+
qed

lemma core_fields:
  "runner_core s \<Longrightarrow> oc_running s' = oc_running s \<Longrightarrow> oc_cancelled s' = oc_cancelled s \<Longrightarrow>
   oc_tasks s' = oc_tasks s \<Longrightarrow> oc_next_token s' = oc_next_token s \<Longrightarrow> runner_core s'"
  by (simp add: runner_core_def)

lemma shutdown_core:
  assumes "runner_core s"
  shows "runner_core (orchestrator_shutdown s)"
proof (rule runner_coreI)
  fix tk assume "tk \<in> set (oc_tasks (orchestrator_shutdown s))"
  then have "tk_token tk < oc_next_token s" "tk_token tk \<in> oc_cancelled s \<or>
      (sc_name (tk_schedule tk), tk_token tk, tk_schedule tk) \<in> set (oc_running s)"
    using assms by (simp_all add: orchestrator_shutdown_def runner_core_def)
  then show "tk_token tk < oc_next_token (orchestrator_shutdown s) \<and>
      (tk_token tk \<in> oc_cancelled (orchestrator_shutdown s) \<or>
       (sc_name (tk_schedule tk), tk_token tk, tk_schedule tk) \<in> set (oc_running (orchestrator_shutdown s)))"
    using image_eqI [of "tk_token tk" "fst \<circ> snd" "(sc_name (tk_schedule tk), tk_token tk, tk_schedule tk)"]
    by (auto simp: orchestrator_shutdown_def)
qed (use assms in \<open>fastforce simp: orchestrator_shutdown_def runner_core_def\<close>)+

lemma step_ok:
  assumes "runner_ok s" and "sched_step tz s s'"
  shows "runner_ok s'"
  using assms(2)
proof cases
  case (step_change schedules)
  have "runner_core s'" by (rule core_fields [of s]) (use assms(1) step_change in \<open>simp_all add: runner_ok_def settings_changed_def\<close>)
  then show ?thesis
    using assms(1) step_change by (simp add: runner_ok_def settings_changed_def running_map_def) blast
next
  case (step_reconcile order)
  then show ?thesis using reconcile_runner_ok assms(1) by (simp add: runner_ok_def)
next
  case step_listen
  then show ?thesis using assms(1) by (simp add: runner_ok_def runner_core_def running_map_def)
next
  case step_shutdown
  then show ?thesis using assms(1) shutdown_core by (simp add: runner_ok_def) (simp add: orchestrator_shutdown_def)
next
  case (step_plan i now)
  then show ?thesis
    using assms(1) by (auto simp: task_plan_def intro: exit_ok set_phase_ok split: run.split option.split)
next
  case (step_wake i due now)
  let ?s = "s\<lparr>oc_said := oc_said s @ [(tk_token (oc_tasks s ! i), tk_schedule (oc_tasks s ! i), now)]\<rparr>"
  have "runner_ok ?s"
    by (rule ok_frame [OF assms(1)]) (use assms(1) in \<open>simp_all add: runner_ok_def runner_core_def\<close>)
  then show ?thesis using step_wake assms(1) set_phase_ok [of ?s i]
    by (auto simp: task_wake_def Let_def intro: exit_ok)
next
  case (step_cancelled i due)
  then show ?thesis using assms(1) by (simp add: exit_ok)
next
  case (step_recorded i now mono_now)
  let ?s = "s\<lparr>oc_telemetry := fst (record_fire tz (sc_name (tk_schedule (oc_tasks s ! i))) now mono_now (oc_telemetry s))\<rparr>"
  have "runner_ok ?s"
    by (rule ok_frame [OF assms(1)]) (use assms(1) in \<open>simp_all add: runner_ok_def runner_core_def\<close>)
  then show ?thesis using step_recorded set_phase_ok [of ?s i] by (simp add: task_recorded_def)
qed

interpretation schedule_runner: invariant sched_init "sched_step tz" runner_ok for tz
proof
  show "runner_ok s" if init: "sched_init s" for s
  proof -
    obtain schedules order telemetry where s: "mset order = mset (desired_schedules schedules)"
        "s = orchestrator_start schedules order telemetry"
      using init unfolding sched_init_def by blast
    show ?thesis
      using reconcile_ok [of "\<lparr>oc_settings = schedules, oc_listening = True, oc_notified = False, oc_alive = True,
        oc_running = [], oc_tasks = [], oc_cancelled = {}, oc_next_token = 0, oc_said = [],
        oc_telemetry = telemetry, oc_seen = [], oc_missed = False\<rparr>" order] s
      by (simp add: runner_ok_def orchestrator_start_def reconcile_frame runner_core_def)
  qed
  show "runner_ok s'" if "runner_ok s" "sched_step tz s s'" for s s' using step_ok that .
qed

section \<open>Properties\<close>


definition sample_schedule :: Schedule where
  "sample_schedule = \<lparr>sc_name = [97], sc_message = [98], sc_trigger = Calendar {} 0,
     sc_start_date = None, sc_end_date = None, sc_enabled = True\<rparr>"

definition no_telemetry :: Telemetry where
  "no_telemetry = \<lparr>te_map = [], te_dirty = False, te_last_flush = 0\<rparr>"

lemma sample_init: "sched_init (orchestrator_start [sample_schedule] [([97], sample_schedule)] no_telemetry)"
  unfolding sched_init_def
  by (intro exI [of _ "[sample_schedule]"] exI [of _ "[([97], sample_schedule)]"] exI [of _ no_telemetry])
    (simp add: desired_schedules_def sample_schedule_def)

lemma sample_reach:
  "reachable sched_init (sched_step tz) (orchestrator_start [sample_schedule] [([97], sample_schedule)] no_telemetry)"
  by (rule reach_start) (rule sample_init)


text \<open>
  Claim C26. A message is sent only by a task that was not cancelled, at or after the instant it
  waited for, for a schedule that is enabled in the settings last loaded, with its present content,
  and only before the shutdown.
\<close>

theorem fires_only_in_force:
  assumes "reachable sched_init (sched_step tz) s" and "sched_step tz s s'" and "oc_said s' \<noteq> oc_said s"
  shows "\<exists>tk due now. tk \<in> set (oc_tasks s) \<and> tk_phase tk = Sleeping due \<and> due \<le> now \<and>
    tk_token tk \<notin> oc_cancelled s \<and> oc_alive s \<and> sc_enabled (tk_schedule tk) \<and>
    tk_schedule tk \<in> set (oc_seen s) \<and> oc_said s' = oc_said s @ [(tk_token tk, tk_schedule tk, now)]"
proof -
  have said: "oc_said (set_phase i p u) = oc_said u" "oc_said (exit_task i u) = oc_said u" for i p u
    by (simp_all add: set_phase_def exit_task_def)
  obtain i due now where i: "i < length (oc_tasks s)" "tk_phase (oc_tasks s ! i) = Sleeping due" "due \<le> now"
      "s' = task_wake now i s"
    using assms(2,3)
    by (cases rule: sched_stepE)
      (auto simp: settings_changed_def reconcile_frame orchestrator_shutdown_def task_plan_def task_recorded_def
        said split: run.splits option.splits)
  define tk where "tk = oc_tasks s ! i"
  have tk: "tk \<in> set (oc_tasks s)" using i(1) by (simp add: tk_def)
  have live: "tk_token tk \<notin> oc_cancelled s"
    using assms(3) i(4) by (auto simp: task_wake_def Let_def said tk_def)
  have ok: "runner_ok s" by (rule schedule_runner.always [OF assms(1)])
  have entry: "(sc_name (tk_schedule tk), tk_token tk, tk_schedule tk) \<in> set (oc_running s)"
    using ok tk live by (auto simp: runner_ok_def runner_core_def)
  then have alive: "oc_alive s" using ok by (auto simp: runner_ok_def)
  have "running_map s (sc_name (tk_schedule tk)) = Some (tk_schedule tk)"
    unfolding running_map_def
    by (rule map_of_is_SomeI) (use ok entry in \<open>force simp: case_prod_unfold comp_def runner_ok_def runner_core_def\<close>)+
  then have "(sc_name (tk_schedule tk), tk_schedule tk) \<in> set (desired_schedules (oc_seen s))"
    using ok alive by (auto simp: runner_ok_def dest: map_of_SomeD)
  then have "sc_enabled (tk_schedule tk)" "tk_schedule tk \<in> set (oc_seen s)" by (auto dest: desired_enabled)
  then show ?thesis
    using i tk live alive by (intro exI [of _ tk] exI [of _ due] exI [of _ now])
      (simp add: tk_def task_wake_def Let_def said)
qed

theorem fires_only_in_force_witness:
  "\<exists>s s'. reachable sched_init (sched_step cet) s \<and> sched_step cet s s' \<and>
     oc_said s' = oc_said s @ [(0, sample_schedule, hours 23)] \<and> sample_schedule \<in> set (oc_seen s)"
proof -
  let ?s0 = "orchestrator_start [sample_schedule] [([97], sample_schedule)] no_telemetry"
  let ?s1 = "task_plan cet 0 0 ?s0" and ?s2 = "task_wake (hours 23) 0 (task_plan cet 0 0 ?s0)"
  have tasks: "oc_tasks ?s0 = [\<lparr>tk_token = 0, tk_schedule = sample_schedule, tk_phase = Planning\<rparr>]"
    "oc_said ?s0 = []" "oc_cancelled ?s0 = {}"
    by (simp_all add: orchestrator_start_def reconcile_def Let_def stop_changed_def spawn_task_def)
  have fire: "next_active_fire cet sample_schedule 0 = Returns (Some (hours 23))"
    by (simp add: sample_schedule_def next_active_fire_def fire_anchor_def cet_def next_calendar_def Let_def
        local_date_def time_simps upto.simps allows_def calendar_candidate_def)
  have s1: "oc_tasks ?s1 = [\<lparr>tk_token = 0, tk_schedule = sample_schedule, tk_phase = Sleeping (hours 23)\<rparr>]"
    "oc_said ?s1 = []" "oc_cancelled ?s1 = {}"
    using tasks fire by (simp_all add: task_plan_def set_phase_def)
  have reach: "reachable sched_init (sched_step cet) ?s1"
    by (rule reach_step [OF sample_reach]) (rule step_plan; simp add: tasks)
  have step: "sched_step cet ?s1 ?s2" by (rule step_wake [where due = "hours 23"]; simp add: s1)
  have said: "oc_said ?s2 = [(0, sample_schedule, hours 23)]"
    using s1 by (simp add: task_wake_def set_phase_def)
  from fires_only_in_force [OF reach step] show ?thesis
    using reach step said s1 by fastforce
qed



text \<open>
  Claim C28. A change of the settings can be lost: when it is stored after a reconciliation has
  loaded the settings and before the next notification is registered, the orchestrator waits, with
  nothing pending, while a task that is not cancelled keeps running a schedule that no longer
  exists.
\<close>

theorem change_can_be_lost:
  "\<exists>s tk. reachable sched_init (sched_step tz) s \<and> oc_alive s \<and> oc_listening s \<and> \<not> oc_notified s \<and>
     oc_settings s = [] \<and> tk \<in> set (oc_tasks s) \<and> tk_token tk \<notin> oc_cancelled s"
proof -
  let ?a = "[sample_schedule]" and ?o = "[([97 :: nat], sample_schedule)]"
  let ?s0 = "orchestrator_start ?a ?o no_telemetry"
  let ?s1 = "settings_changed ?a ?s0"
  let ?s2 = "(reconcile ?o ?s1)\<lparr>oc_listening := False, oc_notified := False\<rparr>"
  let ?s3 = "settings_changed [] ?s2"
  let ?s4 = "?s3\<lparr>oc_listening := True\<rparr>"
  note defs = orchestrator_start_def reconcile_def Let_def stop_changed_def spawn_task_def settings_changed_def
    desired_schedules_def keep_entry_def sample_schedule_def
  have "reachable sched_init (sched_step tz) ?s1"
    by (rule reach_step [OF sample_reach]) (rule step_change)
  then have "reachable sched_init (sched_step tz) ?s2"
    by (rule reach_step) (rule step_reconcile; simp add: defs)
  then have "reachable sched_init (sched_step tz) ?s3" by (rule reach_step) (rule step_change)
  then have "reachable sched_init (sched_step tz) ?s4"
    by (rule reach_step) (rule step_listen; simp add: defs)
  moreover have "oc_alive ?s4 \<and> oc_listening ?s4 \<and> \<not> oc_notified ?s4 \<and> oc_settings ?s4 = [] \<and>
      \<lparr>tk_token = 0, tk_schedule = sample_schedule, tk_phase = Planning\<rparr> \<in> set (oc_tasks ?s4) \<and> 0 \<notin> oc_cancelled ?s4"
    by (simp add: defs)
  ultimately show ?thesis
    by (intro exI [of _ ?s4] exI [of _ "\<lparr>tk_token = 0, tk_schedule = sample_schedule, tk_phase = Planning\<rparr>"]) simp
qed

section \<open>Counting\<close>

text \<open>A run of firings: name, instant of the firing and instant on the monotonic clock.\<close>

definition record_fires :: "Zone \<Rightarrow> (rstr \<times> instant \<times> instant) list \<Rightarrow> Telemetry \<Rightarrow> Telemetry" where
  "record_fires tz = fold (\<lambda>(name, fired_at, mono_now) g. fst (record_fire tz name fired_at mono_now g))"

definition fires_of :: "rstr \<Rightarrow> (rstr \<times> instant \<times> instant) list \<Rightarrow> instant list" where
  "fires_of name fs = map (fst \<circ> snd) (filter (\<lambda>f. fst f = name) fs)"

text \<open>The firings since the last one on another day, the newest first.\<close>

definition same_day :: "Zone \<Rightarrow> instant list \<Rightarrow> instant list" where
  "same_day tz ts = takeWhile (\<lambda>t. local_date tz t = local_date tz (last ts)) (rev ts)"

definition counts_fires :: "Zone \<Rightarrow> instant list \<Rightarrow> ScheduleRuntime option \<Rightarrow> bool" where
  "counts_fires tz ts r \<longleftrightarrow>
     (if ts = [] then r = None
      else \<exists>x. r = Some x \<and> rt_last_fired_at x = Some (last ts) \<and>
        rt_day_anchor x = Some (local_date tz (last ts)) \<and> unat (rt_fires_today x) = length (same_day tz ts))"

lemma same_day_snoc:
  "same_day tz (ts @ [t]) =
     t # (if ts \<noteq> [] \<and> local_date tz (last ts) = local_date tz t then same_day tz ts else [])"
  by (cases ts rule: rev_cases) (auto simp: same_day_def)

lemma same_day_length: "length (same_day tz ts) \<le> length ts"
  using length_takeWhile_le [of _ "rev ts"] by (simp add: same_day_def)

lemma record_fire_map:
  "map_of (te_map (fst (record_fire tz n t m g))) =
     (map_of (te_map g))(n \<mapsto> (let e = maybe_rollover (local_date tz t)
          (case map_of (te_map g) n of Some r \<Rightarrow> r | None \<Rightarrow> default_runtime)
        in e\<lparr>rt_last_fired_at := Some t, rt_fires_today := saturating_inc (rt_fires_today e)\<rparr>))"
  by (simp add: record_fire_def Let_def update_conv')

lemma counts_fires_fire:
  assumes "counts_fires tz ts (map_of (te_map g) n)" and "length ts < 2 ^ 32 - 1"
  shows "counts_fires tz (ts @ [t]) (map_of (te_map (fst (record_fire tz n t m g))) n)"
proof (cases "ts = []")
  case True
  then show ?thesis using assms(1)
    by (simp add: counts_fires_def record_fire_map maybe_rollover_def default_runtime_def same_day_def
        unat_saturating_inc Let_def)
next
  case False
  then obtain x where x: "map_of (te_map g) n = Some x" "rt_day_anchor x = Some (local_date tz (last ts))"
      "unat (rt_fires_today x) = length (same_day tz ts)"
    using assms(1) by (auto simp: counts_fires_def)
  then show ?thesis using False assms(2) same_day_length [of tz ts]
    by (simp add: counts_fires_def record_fire_map maybe_rollover_def same_day_snoc unat_saturating_inc Let_def)
qed

text \<open>
  The telemetry of a schedule shows its last firing and counts its firings since the last
  one on another local day, whatever other schedules fire in between.
\<close>

theorem telemetry_counts_day:
  assumes "length fs < 2 ^ 32"
  shows "counts_fires tz (fires_of name fs) (map_of (te_map (record_fires tz fs no_telemetry)) name)"
  using assms
proof (induction fs rule: rev_induct)
  case Nil
  then show ?case by (simp add: counts_fires_def fires_of_def record_fires_def no_telemetry_def)
next
  case (snoc f fs)
  obtain n t m where f: "f = (n, t, m)" by (cases f)
  have len: "length (fires_of name fs) < 2 ^ 32 - 1"
    using snoc.prems by (simp add: fires_of_def le_less_trans [OF length_filter_le])
  show ?case
  proof (cases "n = name")
    case True
    then show ?thesis
      using snoc len counts_fires_fire [of tz "fires_of name fs" "record_fires tz fs no_telemetry" name t m]
      by (simp add: f fires_of_def record_fires_def)
  next
    case False
    then show ?thesis
      using snoc by (simp add: f fires_of_def record_fires_def record_fire_map)
  qed
qed

theorem telemetry_counts_day_witness:
  "map_option rt_fires_today (map_of (te_map (record_fires cet
     [([97], hours 1, 0), ([98], hours 2, 0), ([97], hours 3, 0), ([97], hours 30, 0), ([97], hours 31, 0)]
     no_telemetry)) [97]) = Some 2"
proof -
  let ?r = "map_of (te_map (record_fires cet
     [([97], hours 1, 0), ([98], hours 2, 0), ([97], hours 3, 0), ([97], hours 30, 0), ([97], hours 31, 0)]
     no_telemetry)) [97]"
  have "counts_fires cet [hours 1, hours 3, hours 30, hours 31] ?r"
    using telemetry_counts_day [of "[([97], hours 1, 0), ([98], hours 2, 0), ([97], hours 3, 0),
      ([97], hours 30, 0), ([97], hours 31, 0)]" cet "[97]"] by (simp add: fires_of_def)
  then obtain x where "?r = Some x" "unat (rt_fires_today x) = 2"
    by (auto simp: counts_fires_def same_day_def local_date_def cet_def time_simps)
  moreover then have "rt_fires_today x = 2" by (simp add: word_unat_eq_iff)
  ultimately show ?thesis by simp
qed

end
