(* ===== verification/Settings_Runner.thy ===== *)
theory Settings_Runner imports Settings_Store Schedule_Runner begin

text \<open>
  The settings store and the schedule runner together: the runner starts on the live schedules of the
  store, and every successful change of the settings notifies it (\<^verbatim>\<open>SettingsStore::commit\<close> and
  \<^verbatim>\<open>run_orchestrator\<close>).
\<close>

record Bot =
  bot_store :: SettingsStore
  bot_runner :: Orchestrator

definition notify_runner :: "SettingsStore \<Rightarrow> SettingsStore \<Rightarrow> Orchestrator \<Rightarrow> Orchestrator" where
  "notify_runner s s' r =
     (if so_notified s' = so_notified s then r else settings_changed (st_schedules (so_live s')) r)"

inductive bot_step :: "Checks \<Rightarrow> AuditFmt \<Rightarrow> rstr \<Rightarrow> Zone \<Rightarrow> Bot \<Rightarrow> Bot \<Rightarrow> bool" for ck af channel tz where
  bot_settings: "store_step ck af channel (bot_store b) s' \<Longrightarrow>
    bot_step ck af channel tz b \<lparr>bot_store = s', bot_runner = notify_runner (bot_store b) s' (bot_runner b)\<rparr>"
| bot_schedules: "sched_step tz (bot_runner b) r' \<Longrightarrow> oc_settings r' = oc_settings (bot_runner b) \<Longrightarrow>
    bot_step ck af channel tz b (b\<lparr>bot_runner := r'\<rparr>)"

definition bot_init :: "Checks \<Rightarrow> rstr \<Rightarrow> Bot \<Rightarrow> bool" where
  "bot_init ck channel b \<longleftrightarrow> store_init ck channel (bot_store b) \<and>
     (\<exists>order telemetry. mset order = mset (desired_schedules (st_schedules (so_live (bot_store b)))) \<and>
        bot_runner b = orchestrator_start (st_schedules (so_live (bot_store b))) order telemetry)"

definition bot_inv :: "Checks \<Rightarrow> rstr \<Rightarrow> Bot \<Rightarrow> bool" where
  "bot_inv ck channel b \<longleftrightarrow> store_inv ck channel (bot_store b) \<and> runner_ok (bot_runner b) \<and>
     oc_settings (bot_runner b) = st_schedules (so_live (bot_store b)) \<and>
     (\<forall>sc\<in>set (oc_seen (bot_runner b)). schedule_ok ck sc)"

lemma commit_quiet:
  assumes "commit af saved appended now actor cur prior resolved s = (r, s')"
  shows "so_notified s' = so_notified s \<and> s' = s \<or> so_notified s' = so_notified s + 1"
  using assms by (cases r) (auto dest: commit_Inl simp: commit_Inr)

lemma store_step_quiet:
  assumes "store_step ck af channel s s'"
  shows "so_notified s' = so_notified s \<and> s' = s \<or> so_notified s' = so_notified s + 1"
  using assms
  by cases (auto simp: apply_with_def reset_def Let_def dest!: commit_quiet split: sum.splits if_splits)

lemma sched_step_seen:
  assumes "sched_step tz r r'"
  shows "oc_seen r' = oc_seen r \<or> oc_seen r' = oc_settings r"
  using assms by (cases rule: sched_step.cases) (auto simp: settings_changed_def reconcile_frame orchestrator_shutdown_def
      task_plan_def task_wake_def task_recorded_def exit_task_def set_phase_def Let_def split: run.splits option.splits)

lemma store_schedules_ok: "store_inv ck channel s \<Longrightarrow> sc \<in> set (st_schedules (so_live s)) \<Longrightarrow> schedule_ok ck sc"
  by (simp add: store_inv_def settings_ok_def)

lemma bot_step_inv:
  assumes "ck_hhmm ck (str ''04:00'')" and "bot_inv ck channel b" and "bot_step ck af channel tz b b'"
  shows "bot_inv ck channel b'"
  using assms(3)
proof cases
  case (bot_settings s')
  have inv: "store_inv ck channel s'"
    using step_inv [OF assms(1) _ bot_settings(2)] assms(2) by (simp add: bot_inv_def)
  have "runner_ok (settings_changed ss (bot_runner b))" for ss
    using schedule_runner.keeps [OF _ step_change] assms(2) by (simp add: bot_inv_def)
  moreover have "so_notified s' \<noteq> so_notified (bot_store b) \<or> s' = bot_store b"
    using store_step_quiet [OF bot_settings(2)] by auto
  ultimately show ?thesis
    using inv assms(2) by (auto simp: bot_settings bot_inv_def notify_runner_def settings_changed_def)
next
  case (bot_schedules r')
  have "runner_ok r'" using schedule_runner.keeps [OF _ bot_schedules(2)] assms(2) by (simp add: bot_inv_def)
  moreover have "oc_seen r' = oc_seen (bot_runner b) \<or> oc_seen r' = st_schedules (so_live (bot_store b))"
    using sched_step_seen [OF bot_schedules(2)] assms(2) by (simp add: bot_inv_def)
  ultimately show ?thesis
    using assms(2) store_schedules_ok by (auto simp: bot_schedules bot_inv_def)
qed

lemma bot_init_inv:
  assumes "ck_hhmm ck (str ''04:00'')" and "bot_init ck channel b"
  shows "bot_inv ck channel b"
proof -
  obtain order telemetry where start: "mset order = mset (desired_schedules (st_schedules (so_live (bot_store b))))"
      "bot_runner b = orchestrator_start (st_schedules (so_live (bot_store b))) order telemetry"
    using assms(2) by (auto simp: bot_init_def)
  have inv: "store_inv ck channel (bot_store b)"
    using assms opened_inv by (auto simp: bot_init_def store_init_def)
  moreover have "runner_ok (bot_runner b)"
    using schedule_runner.starts start by (auto simp: sched_init_def)
  ultimately show ?thesis
    using start(2) store_schedules_ok [OF inv] by (simp add: bot_inv_def orchestrator_start_def reconcile_frame)
qed

interpretation bot: invariant "bot_init ck channel" "bot_step ck af channel tz"
    "\<lambda>b. ck_hhmm ck (str ''04:00'') \<longrightarrow> bot_inv ck channel b"
  for ck af channel tz
  by unfold_locales (auto intro: bot_init_inv bot_step_inv)



end
