(* ===== verification/Leet.thy ===== *)
theory Leet imports Chat_Basics Schedule_Trigger "HOL-Library.AList" "HOL-Library.Multiset" begin

text \<open>
  \<^verbatim>\<open>twitch/handlers/tracker_1337.rs\<close>, \<^verbatim>\<open>commands/leaderboard.rs\<close> and \<^verbatim>\<open>commands/pb.rs\<close>: the daily
  count of the users who say 1337 at 13:37, the message with the result, the leaderboard of the
  fastest times and the commands that show it. Hash maps are association lists in the order of
  their iteration. Random choices are an argument: a number for each place that draws one.
\<close>

section \<open>The leaderboard\<close>

definition TARGET_HOUR :: int where "TARGET_HOUR = 13"
definition TARGET_MINUTE :: int where "TARGET_MINUTE = 37"
definition SLOWEST_CHATTER_MIN_MS :: nat where "SLOWEST_CHATTER_MIN_MS = 50000"
definition MAX_USERS :: nat where "MAX_USERS = 10000"

record PersonalBest =
  pb_ms :: nat
  pb_date :: int

datatype Achievement = OverallRecord | OwnBest | NoAchievement

type_synonym leaderboard = "(rstr \<times> PersonalBest) list"

definition beats_own_best :: "rstr \<Rightarrow> nat \<Rightarrow> leaderboard \<Rightarrow> bool" where
  "beats_own_best user ms lb = (case map_of lb user of None \<Rightarrow> True | Some pb \<Rightarrow> ms < pb_ms pb)"

text \<open>\<^verbatim>\<open>values().map(|pb| pb.ms).min().is_none_or(..)\<close>.\<close>

definition classify_achievement :: "rstr \<Rightarrow> nat \<Rightarrow> leaderboard \<Rightarrow> Achievement" where
  "classify_achievement user ms lb =
     (let beats_record = (case map (pb_ms \<circ> snd) lb of [] \<Rightarrow> True | m # rest \<Rightarrow> ms < fold min rest m)
      in if beats_record then OverallRecord
         else if beats_own_best user ms lb then OwnBest else NoAchievement)"

section \<open>The clock\<close>

text \<open>\<^verbatim>\<open>util::resolve_berlin_time\<close>: a skipped local time is read as universal time.\<close>

definition resolve_berlin_time :: "Zone \<Rightarrow> int \<Rightarrow> instant" where
  "resolve_berlin_time tz naive =
     (case tz_from_local tz naive of Single t \<Rightarrow> t | Ambiguous _ latest \<Rightarrow> latest | NoLocal \<Rightarrow> naive)"

definition hms :: "int \<Rightarrow> int \<Rightarrow> int \<Rightarrow> int" where
  "hms h m s = secs (h * 3600 + m * 60 + s)"

definition calculate_next_occurrence :: "Zone \<Rightarrow> instant \<Rightarrow> int \<Rightarrow> int \<Rightarrow> instant" where
  "calculate_next_occurrence tz now hour minute =
     (let target = resolve_berlin_time tz (local_date tz now * day_ns + hms hour minute 0) in
      if target \<le> now
      then resolve_berlin_time tz (local_date tz (now + day_ns) * day_ns + hms hour minute 0)
      else target)"

text \<open>The instant until which the handler sleeps, if it sleeps at all.\<close>

definition wait_until_schedule :: "Zone \<Rightarrow> instant \<Rightarrow> int \<Rightarrow> int \<Rightarrow> instant option" where
  "wait_until_schedule tz now hour minute =
     (let next_run = calculate_next_occurrence tz now hour minute in
      if next_run > now then Some next_run else None)"

definition sleep_until_hms :: "Zone \<Rightarrow> instant \<Rightarrow> int \<Rightarrow> int \<Rightarrow> int \<Rightarrow> u32 \<Rightarrow> instant option" where
  "sleep_until_hms tz now hour minute second expected_latency =
     (let target = resolve_berlin_time tz (local_date tz now * day_ns + hms hour minute second) -
                     uint expected_latency * 1000000
      in if target > now then Some target else None)"

section \<open>Messages\<close>

record LeetMessage =
  lm_channel :: rstr
  lm_login :: rstr
  lm_text :: rstr
  lm_timestamp :: instant

datatype ServerMessage = Privmsg LeetMessage | OtherMessage

datatype Received = Message ServerMessage | Lagged nat | Closed

definition is_clanker :: "rstr \<Rightarrow> bool" where
  "is_clanker login \<longleftrightarrow>
     login \<in> set [str ''supibot'', str ''potatbotat'', str ''streamelements'', str ''koknuts'', str ''thedagothur'']"

definition is_valid_1337_message :: "LeetMessage \<Rightarrow> bool" where
  "is_valid_1337_message m =
     (if is_clanker (lm_login m) then False
      else contains (lm_text m) (str ''DANKIES'') \<or> contains (lm_text m) (str ''1337''))"

definition local_hour :: "Zone \<Rightarrow> instant \<Rightarrow> int" where
  "local_hour tz t = local_time tz t div hours 1"

definition local_minute :: "Zone \<Rightarrow> instant \<Rightarrow> int" where
  "local_minute tz t = local_time tz t div minutes 1 mod 60"

text \<open>\<^verbatim>\<open>second() * 1000 + timestamp_subsec_millis()\<close>.\<close>

definition ms_since_minute :: "Zone \<Rightarrow> instant \<Rightarrow> nat" where
  "ms_since_minute tz t =
     nat (local_time tz t div secs 1 mod 60) * 1000 + nat (local_time tz t mod secs 1 div 1000000)"

type_synonym timed_users = "(rstr \<times> nat) list"

definition monitor_message :: "Zone \<Rightarrow> rstr \<Rightarrow> LeetMessage \<Rightarrow> timed_users \<Rightarrow> timed_users" where
  "monitor_message tz channel m users =
     (if lm_channel m \<noteq> channel then users
      else if (local_hour tz (lm_timestamp m), local_minute tz (lm_timestamp m)) \<noteq> (TARGET_HOUR, TARGET_MINUTE)
      then users
      else if is_valid_1337_message m
      then
        (if length users \<ge> MAX_USERS then users
         else if map_of users (lm_login m) = None
         then users @ [(lm_login m, ms_since_minute tz (lm_timestamp m))]
         else users)
      else users)"

text \<open>The loop over what the monitor receives until it is aborted or the channel is closed.\<close>

fun monitor_1337_messages :: "Zone \<Rightarrow> rstr \<Rightarrow> Received list \<Rightarrow> timed_users \<Rightarrow> timed_users" where
  "monitor_1337_messages tz channel [] users = users"
| "monitor_1337_messages tz channel (Message (Privmsg m) # rs) users =
     monitor_1337_messages tz channel rs (monitor_message tz channel m users)"
| "monitor_1337_messages tz channel (Message OtherMessage # rs) users = monitor_1337_messages tz channel rs users"
| "monitor_1337_messages tz channel (Lagged _ # rs) users = monitor_1337_messages tz channel rs users"
| "monitor_1337_messages tz channel (Closed # rs) users = users"

section \<open>The text of the result\<close>

definition one_of :: "nat \<Rightarrow> 'a list \<Rightarrow> 'a" where
  "one_of draw xs = xs ! (draw mod length xs)"

text \<open>
  The draws: for the overrides a list of rolls that succeed and the choice among the texts, for the
  regular texts one number for each place.
\<close>

record Draws =
  dr_roll :: "nat \<Rightarrow> bool"
  dr_meme :: nat
  dr_first :: nat
  dr_second :: nat
  dr_third :: nat

definition meme_rules :: "(nat list \<times> rstr list) list" where
  "meme_rules =
     [([7], [str ''777 FORSEN 777 FORSEN 777 FORSEN 777'', str ''777 FORSEN 777 FORSEN 777'', str ''777 FORSEN 777'']),
      ([6, 7], [str ''6-7'', str ''6-7 ICANT'', str ''6-7 OOOO'']),
      ([3], [str ''3Head'', str ''3Head Clueless'', str ''3Head erm'']),
      ([4], [str ''4Head Keepo'', str ''4Head'', str ''4Head FeelsGoodMan'']),
      ([5], [str ''5Head '' @ [127863] @ str '' Ah yes, I can feel my head throbbing with knowledge and wisdom as I sip upon this Sauvignon blanc'',
             str ''5Head Galaxybrain'', str ''5Head'']),
      ([10], [str ''10/10 IGN'', str ''Perfect 10 Clap'', str ''10, masterpiece Clap'']),
      ([13], [str ''unlucky 13 monkaW'', str ''13 monkaW'', str ''13, spooky monkaS''])]"

text \<open>Each rule that fits the count rolls on its own; the first success wins.\<close>

fun meme_scan :: "Draws \<Rightarrow> nat \<Rightarrow> nat \<Rightarrow> (nat list \<times> rstr list) list \<Rightarrow> rstr option" where
  "meme_scan d cnt i [] = None"
| "meme_scan d cnt i ((counts, texts) # rules) =
     (if cnt \<in> set counts \<and> dr_roll d i then Some (one_of (dr_meme d) texts)
      else meme_scan d cnt (Suc i) rules)"

definition meme_override :: "Draws \<Rightarrow> nat \<Rightarrow> rstr option" where
  "meme_override d cnt = meme_scan d cnt 0 meme_rules"

definition stats_one :: "Draws \<Rightarrow> rstr list \<Rightarrow> rstr" where
  "stats_one d user_list =
     (let zu_viel = str ''War wohl zu viel verlangt '' @
            one_of (dr_first d) [str ''BRUHSIT'', str ''UltraMad'', str ''Madeg'']
      in case user_list of
           user # _ \<Rightarrow> one_of (dr_third d)
             [str ''@'' @ user @ str '' zumindest einer '' @ one_of (dr_second d) [str ''fuh'', str ''uhh''], zu_viel]
         | [] \<Rightarrow> zu_viel)"

definition stats_few :: "Draws \<Rightarrow> nat \<Rightarrow> rstr list \<Rightarrow> rstr" where
  "stats_few d cnt user_list =
     (if \<not> list_ex (\<lambda>u. u = str ''gargoyletec'') user_list
      then dec_nat cnt @ one_of (dr_first d) [str '' und nichtmal'', str '', aber wo'', str '' und ohne''] @
        str '' gnocci '' @
        one_of (dr_second d) [str ''Sadding'', str ''Sadge'', str ''Sadeg'', str ''SadgeCry'', str ''Saddies'']
      else dec_nat cnt @ str '', '' @
        one_of (dr_first d)
          [str ''geht besser Okayge'', str ''verbesserungsw'' @ [252] @ str ''rdig Waiting'',
           str ''unterdurchschnittlich Waiting'', str ''ausbauf'' @ [228] @ str ''hig Waiting'',
           str ''entspricht nicht ganz den Erwartungen Waiting'', str ''bem'' @ [252] @ str ''ht'',
           str ''anpassungsf'' @ [228] @ str ''hig YEP''])"

definition generate_stats_message :: "Draws \<Rightarrow> nat \<Rightarrow> rstr list \<Rightarrow> rstr" where
  "generate_stats_message d cnt user_list =
     (case meme_override d cnt of
        Some meme \<Rightarrow> meme
      | None \<Rightarrow>
          (if cnt = 0 then one_of (dr_first d) [str ''Erm'', str ''fuh'']
           else if cnt = 1 then stats_one d user_list
           else if cnt \<le> 3 then stats_few d cnt user_list
           else if cnt = 4 then
             one_of (dr_second d) [str ''3.6, nicht gut, nicht dramatisch'',
               dec_nat cnt @ str '', '' @ one_of (dr_first d) [str ''Standard Performance'', str ''solide'']]
           else if cnt \<le> 7 then
             dec_nat cnt @ str '', gute Auslese '' @ one_of (dr_first d) [str ''bieberbutzemanPepe'', str ''peepoHappy'']
           else dec_nat cnt @ str '', '' @
             one_of (dr_first d) [str ''insane quota Pag'', str ''rekordverd'' @ [228] @ str ''chtig WICKED'']))"

section \<open>The session of a day\<close>

text \<open>\<^verbatim>\<open>min_by_key\<close> takes the first of several, \<^verbatim>\<open>max_by_key\<close> the last.\<close>

fun first_min :: "timed_users \<Rightarrow> (rstr \<times> nat) option" where
  "first_min [] = None"
| "first_min (u # us) =
     (case first_min us of None \<Rightarrow> Some u | Some v \<Rightarrow> Some (if snd u \<le> snd v then u else v))"

fun last_max :: "timed_users \<Rightarrow> (rstr \<times> nat) option" where
  "last_max [] = None"
| "last_max (u # us) =
     (case last_max us of None \<Rightarrow> Some u | Some v \<Rightarrow> Some (if snd v < snd u then u else v))"

definition fastest_user :: "timed_users \<Rightarrow> (rstr \<times> nat) option" where
  "fastest_user users = first_min (filter (\<lambda>u. snd u < 1000) users)"

definition slowest_user :: "timed_users \<Rightarrow> (rstr \<times> nat) option" where
  "slowest_user users = last_max (filter (\<lambda>u. SLOWEST_CHATTER_MIN_MS \<le> snd u) users)"

definition fastest_part :: "timed_users \<Rightarrow> leaderboard \<Rightarrow> rstr" where
  "fastest_part users lb =
     (case fastest_user users of
        None \<Rightarrow> []
      | Some (user, ms) \<Rightarrow>
          str '' | '' @ user @ str '' war mass schnellste mit '' @ dec_nat ms @ str ''ms'' @
          (if ms < 1000
           then (case classify_achievement user ms lb of
                   OverallRecord \<Rightarrow> str '' - neuer Rekord WICKED''
                 | OwnBest \<Rightarrow> str '' - neue PB!''
                 | NoAchievement \<Rightarrow> [])
           else []))"

definition slowest_part :: "timed_users \<Rightarrow> rstr" where
  "slowest_part users =
     (case slowest_user users of
        None \<Rightarrow> []
      | Some (user, ms) \<Rightarrow>
          (if (case fastest_user users of None \<Rightarrow> True | Some (f, fms) \<Rightarrow> user \<noteq> f \<or> ms \<noteq> fms)
           then str '' | Am langsamsten war '' @ user @ str '' mit '' @ dec_nat (ms div 1000) @ str ''s''
           else []))"

text \<open>The sorting of the names is that of the library.\<close>

fun str_le :: "rstr \<Rightarrow> rstr \<Rightarrow> bool" where
  "str_le [] b = True"
| "str_le (x # a) [] = False"
| "str_le (x # a) (y # b) = (x < y \<or> (x = y \<and> str_le a b))"

fun insert_name :: "rstr \<Rightarrow> rstr list \<Rightarrow> rstr list" where
  "insert_name a [] = [a]"
| "insert_name a (b # bs) = (if str_le a b then a # b # bs else b # insert_name a bs)"

definition sort_names :: "rstr list \<Rightarrow> rstr list" where
  "sort_names names = foldr insert_name names []"

definition update_leaderboard :: "int \<Rightarrow> timed_users \<Rightarrow> leaderboard \<Rightarrow> leaderboard" where
  "update_leaderboard today =
     fold (\<lambda>(user, ms) lb.
       if ms < 1000 \<and> beats_own_best user ms lb
       then AList.update user \<lparr>pb_ms = ms, pb_date = today\<rparr> lb else lb)"

datatype LeetEffect = SayChannel rstr | SaveLeaderboard leaderboard

text \<open>One turn of the loop after the reminder, over what the monitor has received before its abort.\<close>

definition leet_session ::
  "Zone \<Rightarrow> rstr \<Rightarrow> Draws \<Rightarrow> (timed_users \<Rightarrow> timed_users) \<Rightarrow> Received list \<Rightarrow> instant \<Rightarrow> leaderboard \<Rightarrow>
   leaderboard \<times> LeetEffect list" where
  "leet_session tz channel d order received now lb =
     (let users = order (monitor_1337_messages tz channel received []);
          message = generate_stats_message d (length users) (sort_names (map fst users));
          message = message @ fastest_part users lb @ slowest_part users;
          lb' = update_leaderboard (local_date tz now) users lb
      in (lb', [SayChannel (str ''PausersHype''), SaveLeaderboard lb', SayChannel message]))"

section \<open>The commands\<close>

definition min_by_ms :: "leaderboard \<Rightarrow> (rstr \<times> PersonalBest) option" where
  "min_by_ms lb =
     (case lb of [] \<Rightarrow> None
      | e # es \<Rightarrow> Some (fold (\<lambda>x best. if pb_ms (snd x) < pb_ms (snd best) then x else best) es e))"

definition lb_execute :: "(int \<Rightarrow> rstr) \<Rightarrow> leaderboard \<Rightarrow> rstr" where
  "lb_execute fmt_date lb =
     (case min_by_ms lb of
        Some (username, pb) \<Rightarrow>
          str ''Der schnellste 1337 ist '' @ username @ str '' mit '' @ dec_nat (pb_ms pb) @ str ''ms am '' @
          fmt_date (pb_date pb)
      | None \<Rightarrow> str ''Noch keine Eintr'' @ [228] @ str ''ge vorhanden'')"

definition pb_execute :: "(int \<Rightarrow> rstr) \<Rightarrow> rstr list \<Rightarrow> rstr \<Rightarrow> leaderboard \<Rightarrow> rstr" where
  "pb_execute fmt_date args login lb =
     (let target = (case args of a # _ \<Rightarrow> normalize_username a | [] \<Rightarrow> login);
          is_self = (target = login)
      in case map_of lb target of
           Some pb \<Rightarrow>
             if is_self
             then str ''Dein PB ist '' @ dec_nat (pb_ms pb) @ str ''ms am '' @ fmt_date (pb_date pb)
             else str ''PB von '' @ target @ str '': '' @ dec_nat (pb_ms pb) @ str ''ms am '' @ fmt_date (pb_date pb)
         | None \<Rightarrow>
             if is_self then str ''Du hast noch keinen PB'' else target @ str '' hat noch keinen PB'')"
section \<open>Lemmas on the monitor\<close>

fun heard :: "Received list \<Rightarrow> LeetMessage list" where
  "heard [] = []"
| "heard (Message (Privmsg m) # rs) = m # heard rs"
| "heard (Message OtherMessage # rs) = heard rs"
| "heard (Lagged _ # rs) = heard rs"
| "heard (Closed # rs) = []"

definition qualifies :: "Zone \<Rightarrow> rstr \<Rightarrow> LeetMessage \<Rightarrow> bool" where
  "qualifies tz channel m \<longleftrightarrow>
     lm_channel m = channel \<and> local_hour tz (lm_timestamp m) = TARGET_HOUR \<and>
     local_minute tz (lm_timestamp m) = TARGET_MINUTE \<and> is_valid_1337_message m"

lemma monitor_fold: "monitor_1337_messages tz channel rs users = fold (monitor_message tz channel) (heard rs) users"
  by (induction tz channel rs users rule: monitor_1337_messages.induct) simp_all

lemma monitor_message_eq:
  "monitor_message tz channel m users =
     (if qualifies tz channel m \<and> length users < MAX_USERS \<and> map_of users (lm_login m) = None
      then users @ [(lm_login m, ms_since_minute tz (lm_timestamp m))] else users)"
  by (auto simp: monitor_message_def qualifies_def)

lemma find_snoc: "find P (xs @ [x]) = (case find P xs of Some y \<Rightarrow> Some y | None \<Rightarrow> if P x then Some x else None)"
  by (induction xs) auto

text \<open>The first message of a user that counts.\<close>

definition first_message :: "Zone \<Rightarrow> rstr \<Rightarrow> LeetMessage list \<Rightarrow> rstr \<Rightarrow> LeetMessage option" where
  "first_message tz channel ms u = find (\<lambda>m. qualifies tz channel m \<and> lm_login m = u) ms"

definition monitored :: "Zone \<Rightarrow> rstr \<Rightarrow> LeetMessage list \<Rightarrow> timed_users \<Rightarrow> bool" where
  "monitored tz channel ms users \<longleftrightarrow>
     distinct (map fst users) \<and> length users \<le> MAX_USERS \<and>
     (\<forall>u. map_of users u = map_option (ms_since_minute tz \<circ> lm_timestamp) (first_message tz channel ms u) \<or>
       (map_of users u = None \<and> length users = MAX_USERS))"

lemma monitored_fold: "monitored tz channel ms (fold (monitor_message tz channel) ms [])"
proof (induction ms rule: rev_induct)
  case Nil
  then show ?case by (simp add: monitored_def first_message_def)
next
  case (snoc m ms)
  define users where "users = fold (monitor_message tz channel) ms []"
  have IH: "monitored tz channel ms users" using snoc by (simp add: users_def)
  have new: "fst ` set users \<subseteq> dom (map_of users)" by (simp add: dom_map_of_conv_image_fst)
  have "monitored tz channel (ms @ [m]) (monitor_message tz channel m users)"
  proof (cases "qualifies tz channel m \<and> length users < MAX_USERS \<and> map_of users (lm_login m) = None")
    case True
    then have step: "monitor_message tz channel m users = users @ [(lm_login m, ms_since_minute tz (lm_timestamp m))]"
      by (simp add: monitor_message_eq)
    have "lm_login m \<notin> fst ` set users" using True by (simp add: map_of_eq_None_iff)
    moreover have "first_message tz channel ms (lm_login m) = None"
      using IH True by (auto simp: monitored_def)
    ultimately show ?thesis
      using IH True unfolding step monitored_def
      by (auto simp: first_message_def find_snoc map_add_def split: option.split)
  next
    case False
    then have step: "monitor_message tz channel m users = users" by (simp add: monitor_message_eq)
    have old: "map_of users u = map_option (ms_since_minute tz \<circ> lm_timestamp) (first_message tz channel ms u) \<or>
        (map_of users u = None \<and> length users = MAX_USERS)" for u
      using IH by (simp add: monitored_def)
    have "first_message tz channel (ms @ [m]) u = first_message tz channel ms u \<or>
        (map_of users u = None \<and> length users = MAX_USERS)" for u
    proof (cases "first_message tz channel ms u = None \<and> qualifies tz channel m \<and> lm_login m = u")
      case True
      then have "map_of users u = None" using old [of u] by auto
      then show ?thesis using True False IH by (auto simp: monitored_def)
    next
      case False
      then show ?thesis by (auto simp: first_message_def find_snoc split: option.split)
    qed
    then show ?thesis using IH old unfolding step monitored_def by metis
  qed
  then show ?case by (simp add: users_def)
qed

lemma ms_since_minute_less: "ms_since_minute tz t < 60000"
proof -
  have a: "nat (local_time tz t div secs 1 mod 60) \<le> 59" by simp
  have "local_time tz t mod secs 1 < 1000000000" by (simp add: secs_def)
  then have b: "nat (local_time tz t mod secs 1 div 1000000) < 1000" by simp
  show ?thesis using a b unfolding ms_since_minute_def by linarith
qed

lemma monitored_values:
  "monitored tz channel ms users \<Longrightarrow> (u, n) \<in> set users \<Longrightarrow>
   \<exists>m. first_message tz channel ms u = Some m \<and> n = ms_since_minute tz (lm_timestamp m)"
proof -
  assume m: "monitored tz channel ms users" and u: "(u, n) \<in> set users"
  then have "map_of users u = Some n" by (simp add: monitored_def)
  moreover have "map_of users u = map_option (ms_since_minute tz \<circ> lm_timestamp) (first_message tz channel ms u) \<or>
      map_of users u = None" using m by (auto simp: monitored_def)
  ultimately show ?thesis by (cases "first_message tz channel ms u") auto
qed

section \<open>Lemmas on the leaderboard\<close>

definition update_entry :: "int \<Rightarrow> rstr \<times> nat \<Rightarrow> leaderboard \<Rightarrow> leaderboard" where
  "update_entry today = (\<lambda>(user, ms) lb.
     if ms < 1000 \<and> beats_own_best user ms lb
     then AList.update user \<lparr>pb_ms = ms, pb_date = today\<rparr> lb else lb)"

lemma update_leaderboard_fold: "update_leaderboard today = fold (update_entry today)"
  by (simp add: update_leaderboard_def update_entry_def)

lemma update_entry_map:
  "map_of (update_entry today (u, ms) lb) =
     (if ms < 1000 \<and> beats_own_best u ms lb then (map_of lb)(u \<mapsto> \<lparr>pb_ms = ms, pb_date = today\<rparr>) else map_of lb)"
  by (simp add: update_entry_def update_conv')

lemma update_entry_distinct: "distinct (map fst lb) \<Longrightarrow> distinct (map fst (update_entry today e lb))"
  by (simp add: update_entry_def distinct_update split: prod.split)

lemma update_leaderboard_distinct:
  "distinct (map fst lb) \<Longrightarrow> distinct (map fst (update_leaderboard today users lb))"
  unfolding update_leaderboard_fold
  by (induction users arbitrary: lb) (simp_all add: update_entry_distinct)

text \<open>The attempts of a user below a second, the oldest first, and the first best of them.\<close>

definition attempts :: "rstr \<Rightarrow> (int \<times> timed_users) list \<Rightarrow> (nat \<times> int) list" where
  "attempts u days =
     concat (map (\<lambda>(today, users). map (\<lambda>e. (snd e, today)) (filter (\<lambda>e. fst e = u \<and> snd e < 1000) users)) days)"

definition first_best :: "(nat \<times> int) list \<Rightarrow> PersonalBest option \<Rightarrow> bool" where
  "first_best as r \<longleftrightarrow>
     (case r of
        None \<Rightarrow> as = []
      | Some pb \<Rightarrow> (\<exists>before after. as = before @ [(pb_ms pb, pb_date pb)] @ after \<and>
          (\<forall>a\<in>set before. pb_ms pb < fst a) \<and> (\<forall>a\<in>set after. pb_ms pb \<le> fst a)))"

lemma first_best_snoc:
  assumes "first_best as r"
  shows "first_best (as @ [(ms, today)])
     (if (case r of None \<Rightarrow> True | Some pb \<Rightarrow> ms < pb_ms pb) then Some \<lparr>pb_ms = ms, pb_date = today\<rparr> else r)"
proof (cases r)
  case None
  then show ?thesis using assms by (simp add: first_best_def Cons_eq_append_conv)
next
  case (Some pb)
  then obtain before after where as: "as = before @ [(pb_ms pb, pb_date pb)] @ after"
      "\<forall>a\<in>set before. pb_ms pb < fst a" "\<forall>a\<in>set after. pb_ms pb \<le> fst a"
    using assms by (auto simp: first_best_def)
  show ?thesis
  proof (cases "ms < pb_ms pb")
    case True
    then have "\<forall>a\<in>set as. ms < fst a" using as by fastforce
    then have "\<exists>before after. as @ [(ms, today)] = before @ [(ms, today)] @ after \<and>
        (\<forall>a\<in>set before. ms < fst a) \<and> (\<forall>a\<in>set after. ms \<le> fst a)"
      by (intro exI [of _ as] exI [of _ "[]"]) simp
    then show ?thesis using True Some by (simp add: first_best_def)
  next
    case False
    then have "\<exists>before after. as @ [(ms, today)] = before @ [(pb_ms pb, pb_date pb)] @ after \<and>
        (\<forall>a\<in>set before. pb_ms pb < fst a) \<and> (\<forall>a\<in>set after. pb_ms pb \<le> fst a)"
      using as by (intro exI [of _ before] exI [of _ "after @ [(ms, today)]"]) auto
    then show ?thesis using False Some by (simp add: first_best_def)
  qed
qed

lemma first_best_update:
  assumes "first_best as (map_of lb u)"
  shows "first_best (as @ map (\<lambda>e. (snd e, today)) (filter (\<lambda>e. fst e = u \<and> snd e < 1000) users))
    (map_of (update_leaderboard today users lb) u)"
  using assms
proof (induction users arbitrary: as lb)
  case Nil
  then show ?case by (simp add: update_leaderboard_def)
next
  case (Cons e users)
  obtain v ms where e: "e = (v, ms)" by (cases e)
  have eq: "update_leaderboard today (e # users) lb = update_leaderboard today users (update_entry today e lb)"
    by (simp add: update_leaderboard_fold)
  show ?case
  proof (cases "v = u \<and> ms < 1000")
    case True
    then have "map_of (update_entry today e lb) u =
        (if (case map_of lb u of None \<Rightarrow> True | Some pb \<Rightarrow> ms < pb_ms pb)
         then Some \<lparr>pb_ms = ms, pb_date = today\<rparr> else map_of lb u)"
      by (simp add: e update_entry_map beats_own_best_def)
    then have "first_best (as @ [(ms, today)]) (map_of (update_entry today e lb) u)"
      using first_best_snoc [OF Cons.prems, of ms today] by simp
    from Cons.IH [OF this] show ?thesis using True unfolding eq by (simp add: e)
  next
    case False
    then have "map_of (update_entry today e lb) u = map_of lb u" by (auto simp: e update_entry_map)
    then have "first_best as (map_of (update_entry today e lb) u)" using Cons.prems by simp
    from Cons.IH [OF this] show ?thesis using False unfolding eq by (auto simp: e)
  qed
qed
text \<open>One session over users that each occur once.\<close>

lemma update_leaderboard_map:
  assumes "distinct (map fst users)"
  shows "map_of (update_leaderboard today users lb) u =
    (case map_of users u of
       Some ms \<Rightarrow> if ms < 1000 \<and> beats_own_best u ms lb then Some \<lparr>pb_ms = ms, pb_date = today\<rparr> else map_of lb u
     | None \<Rightarrow> map_of lb u)"
  using assms
proof (induction users arbitrary: lb)
  case Nil
  then show ?case by (simp add: update_leaderboard_def)
next
  case (Cons e users)
  obtain v ms where e: "e = (v, ms)" by (cases e)
  define lb' where "lb' = update_entry today e lb"
  have eq: "update_leaderboard today (e # users) lb = update_leaderboard today users lb'"
    by (simp add: update_leaderboard_fold lb'_def)
  show ?case
  proof (cases "v = u")
    case True
    then have none: "map_of users u = None" using Cons.prems by (simp add: e map_of_eq_None_iff)
    show ?thesis using Cons.IH [of lb'] Cons.prems none True unfolding eq by (simp add: e lb'_def update_entry_map)
  next
    case False
    then have "map_of lb' u = map_of lb u" "beats_own_best u n lb' = beats_own_best u n lb" for n
      by (simp_all add: lb'_def e update_entry_map beats_own_best_def)
    then show ?thesis using Cons.IH [of lb'] Cons.prems False unfolding eq by (simp add: e split: option.split)
  qed
qed

lemma first_min_None: "first_min us = None \<longleftrightarrow> us = []"
  by (cases us) (auto split: option.split)

lemma first_min_mem: "first_min us = Some u \<Longrightarrow> u \<in> set us \<and> (\<forall>v\<in>set us. snd u \<le> snd v)"
proof (induction us arbitrary: u)
  case (Cons a us)
  show ?case
  proof (cases "first_min us")
    case None
    then show ?thesis using Cons.prems by (simp add: first_min_None)
  next
    case (Some v)
    then show ?thesis using Cons.IH [OF Some] Cons.prems by (cases "snd a \<le> snd v") auto
  qed
qed simp

lemma fold_min_less: "(n :: nat) < fold min rest m \<longleftrightarrow> n < m \<and> (\<forall>x\<in>set rest. n < x)"
  by (induction rest arbitrary: m) (simp, simp add: conj_ac)

lemma classify_record:
  "classify_achievement u ms lb = OverallRecord \<longleftrightarrow> (\<forall>e\<in>set lb. ms < pb_ms (snd e))"
proof (cases lb)
  case (Cons e es)
  then show ?thesis
    by (simp add: classify_achievement_def Let_def fold_min_less)
qed (simp add: classify_achievement_def)

text \<open>The record: the least time on the leaderboard.\<close>

definition record_ms :: "leaderboard \<Rightarrow> nat option" where
  "record_ms lb = map_option (pb_ms \<circ> snd) (min_by_ms lb)"

lemma min_fold_mem:
  "fold (\<lambda>x best. if pb_ms (snd x) < pb_ms (snd best) then x else best) es e \<in> set (e # es) \<and>
   (\<forall>x\<in>set (e # es). pb_ms (snd (fold (\<lambda>x best. if pb_ms (snd x) < pb_ms (snd best) then x else best) es e)) \<le> pb_ms (snd x))"
proof (induction es arbitrary: e)
  case (Cons x es)
  show ?case using Cons.IH [of "if pb_ms (snd x) < pb_ms (snd e) then x else e"]
    by (auto split: if_splits)
qed simp

lemma min_by_ms_Some:
  "min_by_ms lb = Some (u, pb) \<Longrightarrow> (u, pb) \<in> set lb \<and> (\<forall>e\<in>set lb. pb_ms pb \<le> pb_ms (snd e))"
proof (cases lb)
  case (Cons e es)
  assume "min_by_ms lb = Some (u, pb)"
  then have "fold (\<lambda>x best. if pb_ms (snd x) < pb_ms (snd best) then x else best) es e = (u, pb)"
    by (simp add: min_by_ms_def Cons)
  then show ?thesis using min_fold_mem [of es e] by (simp add: Cons)
qed (simp add: min_by_ms_def)

lemma min_by_ms_None: "min_by_ms lb = None \<longleftrightarrow> lb = []"
  by (cases lb) (simp_all add: min_by_ms_def)
lemma fastest_mem:
  "fastest_user users = Some (u, ms) \<Longrightarrow>
   (u, ms) \<in> set users \<and> ms < 1000 \<and> (\<forall>v n. (v, n) \<in> set users \<longrightarrow> n < 1000 \<longrightarrow> ms \<le> n)"
  unfolding fastest_user_def by (drule first_min_mem) auto

lemma classify_own:
  "classify_achievement u ms lb \<noteq> NoAchievement \<longleftrightarrow>
   classify_achievement u ms lb = OverallRecord \<or> beats_own_best u ms lb"
  by (simp add: classify_achievement_def Let_def)

text \<open>What a session does to the record, given its fastest user.\<close>

lemma session_record:
  fixes today :: int
  assumes lb: "distinct (map fst lb)" and users: "distinct (map fst users)"
    and fastest: "fastest_user users = Some (u, ms)"
  defines "lb' \<equiv> update_leaderboard today users lb"
  shows "classify_achievement u ms lb = OverallRecord \<Longrightarrow>
      \<exists>name. min_by_ms lb' = Some (name, \<lparr>pb_ms = ms, pb_date = today\<rparr>)"
    and "classify_achievement u ms lb \<noteq> OverallRecord \<Longrightarrow> record_ms lb' = record_ms lb"
    and "map_of lb' u = (if classify_achievement u ms lb \<noteq> NoAchievement
      then Some \<lparr>pb_ms = ms, pb_date = today\<rparr> else map_of lb u)"
proof -
  note f = fastest_mem [OF fastest]
  have dist: "distinct (map fst lb')" unfolding lb'_def by (rule update_leaderboard_distinct [OF lb])
  have mu: "map_of users u = Some ms" using f users by simp
  have entry: "map_of lb' u = (if beats_own_best u ms lb then Some \<lparr>pb_ms = ms, pb_date = today\<rparr> else map_of lb u)"
    using f mu by (simp add: lb'_def update_leaderboard_map [OF users])
  have new: "(map_of lb v = Some pb \<or> (ms \<le> pb_ms pb \<and> pb_date pb = today))" if "map_of lb' v = Some pb" for v pb
    using that f users unfolding lb'_def update_leaderboard_map [OF users]
    by (auto split: option.splits if_splits dest: map_of_SomeD)
  have own: "beats_own_best u ms lb" if "classify_achievement u ms lb = OverallRecord"
    using that by (fastforce simp: classify_record beats_own_best_def dest: map_of_SomeD split: option.split)
  show "map_of lb' u = (if classify_achievement u ms lb \<noteq> NoAchievement
      then Some \<lparr>pb_ms = ms, pb_date = today\<rparr> else map_of lb u)"
    using entry own classify_own [of u ms lb] by simp
  {
    assume rec: "classify_achievement u ms lb = OverallRecord"
    have u: "(u, \<lparr>pb_ms = ms, pb_date = today\<rparr>) \<in> set lb'" using entry own [OF rec] by (simp add: map_of_SomeD)
    then have "min_by_ms lb' \<noteq> None" by (auto simp: min_by_ms_None)
    then obtain name pb where m: "min_by_ms lb' = Some (name, pb)" by auto
    note least = min_by_ms_Some [OF m]
    have le: "pb_ms pb \<le> ms" using least u by force
    have "map_of lb' name = Some pb" using least dist by simp
    then have "ms \<le> pb_ms pb \<and> pb_date pb = today"
      using new [of name pb] rec le by (fastforce simp: classify_record dest: map_of_SomeD)
    then have "pb = \<lparr>pb_ms = ms, pb_date = today\<rparr>" using le by (cases pb) simp
    then show "\<exists>name. min_by_ms lb' = Some (name, \<lparr>pb_ms = ms, pb_date = today\<rparr>)" using m by simp
  }
  {
    assume "classify_achievement u ms lb \<noteq> OverallRecord"
    then obtain e where e: "e \<in> set lb" "pb_ms (snd e) \<le> ms" by (auto simp: classify_record not_less)
    then have "min_by_ms lb \<noteq> None" by (auto simp: min_by_ms_None)
    then obtain h pb where m: "min_by_ms lb = Some (h, pb)" by auto
    note least = min_by_ms_Some [OF m]
    have pb: "pb_ms pb \<le> ms" using least e by force
    have "map_of lb h = Some pb" using least lb by simp
    then have h: "map_of lb' h = Some pb"
      using f pb users unfolding lb'_def update_leaderboard_map [OF users]
      by (fastforce simp: beats_own_best_def split: option.splits dest: map_of_SomeD)
    then have "min_by_ms lb' \<noteq> None" by (auto simp: min_by_ms_None dest: map_of_SomeD)
    then obtain h' pb' where m': "min_by_ms lb' = Some (h', pb')" by auto
    note least' = min_by_ms_Some [OF m']
    have "pb_ms pb' \<le> pb_ms pb" using least' h by (force dest: map_of_SomeD)
    moreover have "map_of lb' h' = Some pb'" using least' dist by simp
    then have "pb_ms pb \<le> pb_ms pb'"
      using new [of h' pb'] least pb by (force dest: map_of_SomeD)
    ultimately show "record_ms lb' = record_ms lb" using m m' by (simp add: record_ms_def)
  }
qed

lemma leet_distinct: "distinct (map fst (monitor_1337_messages tz channel received []))"
  using monitored_fold [of tz channel "heard received"] by (simp add: monitored_def monitor_fold)

section \<open>The next start\<close>

lemma resolve_berlin_bounds:
  assumes "zone_ok tz"
  shows "n - hours 3 \<le> resolve_berlin_time tz n \<and> resolve_berlin_time tz n \<le> n"
proof (cases "tz_from_local tz n")
  case (Single t)
  then have "tz_local tz t = n" using assms by (simp add: zone_ok_def)
  then show ?thesis using local_bounds [OF assms, of t] Single by (simp add: resolve_berlin_time_def)
next
  case (Ambiguous a b)
  then have "tz_local tz b = n" using assms unfolding zone_ok_def by metis
  then show ?thesis using local_bounds [OF assms, of b] Ambiguous by (simp add: resolve_berlin_time_def)
next
  case NoLocal
  then show ?thesis by (simp add: resolve_berlin_time_def time_simps)
qed

text \<open>
  The handler starts its next session strictly later than now, for every time of the day from six
  o'clock on, and at most two days and three hours later.
\<close>

lemma next_occurrence_later:
  assumes "zone_ok tz" and "hours 6 \<le> hms h m 0" and "hms h m 0 < day_ns"
  shows "now < calculate_next_occurrence tz now h m \<and> calculate_next_occurrence tz now h m \<le> now + hours 51"
proof -
  define d where "d = local_date tz now"
  define e where "e = local_date tz (now + day_ns)"
  note b = resolve_berlin_bounds [OF assms(1)]
  note hours = day_ns_value time_simps
  have now: "d * day_ns \<le> now + hours 3" "now < d * day_ns + day_ns"
    using date_bounds [of tz now] local_bounds [OF assms(1), of now] unfolding d_def distrib_right by linarith+
  have later: "e * day_ns \<le> now + day_ns + hours 3" "now < e * day_ns"
    using date_bounds [of tz "now + day_ns"] local_bounds [OF assms(1), of "now + day_ns"]
    unfolding e_def distrib_right by linarith+
  show ?thesis
  proof (cases "resolve_berlin_time tz (d * day_ns + hms h m 0) \<le> now")
    case True
    then have "calculate_next_occurrence tz now h m = resolve_berlin_time tz (e * day_ns + hms h m 0)"
      by (simp add: calculate_next_occurrence_def Let_def d_def e_def)
    then show ?thesis using b [of "e * day_ns + hms h m 0"] later assms(2,3) unfolding hours by linarith
  next
    case False
    then have "calculate_next_occurrence tz now h m = resolve_berlin_time tz (d * day_ns + hms h m 0)"
      by (simp add: calculate_next_occurrence_def Let_def d_def)
    then show ?thesis using b [of "d * day_ns + hms h m 0"] now assms(3) False unfolding hours by linarith
  qed
qed

text \<open>
  But it can skip a day: in a zone whose clock goes from two to three on the first of January 1970,
  half past eleven in the evening before, the next 13:36 is taken to be that of the second, although
  there is one on the first.
\<close>

definition spring :: Zone where
  "spring = \<lparr>tz_local = (\<lambda>t. if t < hours 1 then t + hours 1 else t + hours 2),
     tz_from_local = (\<lambda>n. if n < hours 2 then Single (n - hours 1)
       else if n < hours 3 then NoLocal else Single (n - hours 2)),
     tz_min = - secs 8000000000000, tz_max = secs 8000000000000\<rparr>"

lemma spring_ok: "zone_ok spring"
  by (auto simp: zone_ok_def spring_def time_simps local_date_def intro: zdiv_mono1)

lemma occurrence_skips_day:
  "local_date spring (- minutes 90) = -1 \<and>
   tz_from_local spring (hms 13 36 0) = Single (hms 11 36 0) \<and> - minutes 90 < hms 11 36 0 \<and>
   local_date spring (calculate_next_occurrence spring (- minutes 90) 13 36) = 1"
  by (simp add: spring_def local_date_def calculate_next_occurrence_def resolve_berlin_time_def hms_def time_simps)

section \<open>Properties\<close>

text \<open>
  Claim C31. The count of a day: no user is counted twice and at most ten thousand are; a user is
  counted with the milliseconds of the first message in the channel, within the minute 13:37, that
  says 1337 or DANKIES, unless the limit was reached first; no one else is counted, and nothing
  counts after the channel is closed.
\<close>

theorem leet_counts_first:
  "distinct (map fst (monitor_1337_messages tz channel received [])) \<and>
   length (monitor_1337_messages tz channel received []) \<le> MAX_USERS \<and>
   (\<forall>u. map_of (monitor_1337_messages tz channel received []) u =
        map_option (ms_since_minute tz \<circ> lm_timestamp)
          (find (\<lambda>m. lm_channel m = channel \<and> local_hour tz (lm_timestamp m) = 13 \<and>
             local_minute tz (lm_timestamp m) = 37 \<and> is_valid_1337_message m \<and> lm_login m = u) (heard received)) \<or>
      (map_of (monitor_1337_messages tz channel received []) u = None \<and>
       length (monitor_1337_messages tz channel received []) = MAX_USERS))"
  using monitored_fold [of tz channel "heard received"]
  unfolding monitored_def first_message_def qualifies_def monitor_fold TARGET_HOUR_def TARGET_MINUTE_def
  by (simp only: conj_assoc simp_thms)

text \<open>
  Claim C32. Over any number of days the entry of a user on the leaderboard is the least time below a
  second the user ever had, with the date on which it was first reached; users without such a time
  have no entry.
\<close>

theorem leaderboard_best_of_all:
  "first_best (attempts u days) (map_of (fold (\<lambda>(today, users). update_leaderboard today users) days []) u)"
proof (induction days rule: rev_induct)
  case Nil
  then show ?case by (simp add: first_best_def attempts_def)
next
  case (snoc d days)
  then show ?case
    using first_best_update [of "attempts u days" _ u] by (cases d) (simp add: attempts_def)
qed



end
