(* ===== verification/Spec2Isabelle.thy ===== *)
theory Spec2Isabelle imports Tracker_Loop Flight_Format Ping_Commands Suspension Chat_History Settings_Runner Leet begin

text \<open>
  Verification of the flight tracker.
\<close>

end
